(* ===== verification/Access_Prelude.thy ===== *)
theory Access_Prelude
  imports Main "HOL-Library.Word"
begin

text \<open>
  Shared vocabulary of the development: the machine types of the C++ code, the exceptions it
  throws, the two effect types the components are written in (a result that may be an exception,
  and a state transformer that may throw after it has changed the state), conversions between
  \<^verbatim>\<open>std::string\<close> and byte vectors, \<^verbatim>\<open>std::to_string\<close>, and the generic facts on lists, bytes
  and words that the component proofs share.
\<close>

unbundle bit_operations_syntax

section \<open>Machine types\<close>

type_synonym u8 = "8 word"
type_synonym u16 = "16 word"
type_synonym u32 = "32 word"
type_synonym u64 = "64 word"
type_synonym bytes = "u8 list"

text \<open>Collections of rewrite rules: functional behaviour of the wire codec, of the effect
  combinators, and of the record-updating operations of the stateful components.\<close>

named_theorems codec_simps
named_theorems effect_simps
named_theorems frame_simps

section \<open>Exceptions and results\<close>

text \<open>
  The exceptions the sources throw, with their messages. \<open>UndefinedBehaviour\<close> stands for an
  access outside the bounds of a buffer or an operation on an empty container: the C++ program
  has no defined behaviour there, and the model makes that a value so that its absence can be
  proved.
\<close>

datatype exn =
    RuntimeError string
  | InvalidArgument string
  | OutOfRange string
  | LengthError
  | UndefinedBehaviour

fun exn_what :: "exn \<Rightarrow> string" where
  "exn_what (RuntimeError m) = m"
| "exn_what (InvalidArgument m) = m"
| "exn_what (OutOfRange m) = m"
| "exn_what LengthError = ''length_error''"
| "exn_what UndefinedBehaviour = ''''"

type_synonym 'a result = "exn + 'a"

definition bindR :: "'a result \<Rightarrow> ('a \<Rightarrow> 'b result) \<Rightarrow> 'b result" where
  "bindR m f = (case m of Inl e \<Rightarrow> Inl e | Inr x \<Rightarrow> f x)"

lemma bindR_simps [simp, effect_simps]:
  "bindR (Inl e) f = Inl e"
  "bindR (Inr x) f = f x"
  by (simp_all add: bindR_def)

lemma bindR_if [effect_simps]:
  "bindR (if c then m else m') f = (if c then bindR m f else bindR m' f)"
  by simp

lemma bindR_Inr_iff: "bindR m f = Inr y \<longleftrightarrow> (\<exists>x. m = Inr x \<and> f x = Inr y)"
  by (cases m) simp_all

lemma bindR_Inl_iff: "bindR m f = Inl e \<longleftrightarrow> m = Inl e \<or> (\<exists>x. m = Inr x \<and> f x = Inl e)"
  by (cases m) simp_all

section \<open>State transformers that may throw\<close>

text \<open>
  A statement of a stateful method: it takes the state and returns the value or the exception
  together with the state at that point. State changes made before a throw persist, as they do
  in C++.
\<close>

type_synonym ('s, 'a) prog = "'s \<Rightarrow> 'a result \<times> 's"

definition returnM :: "'a \<Rightarrow> ('s, 'a) prog" where
  "returnM x = (\<lambda>s. (Inr x, s))"

definition throwM :: "exn \<Rightarrow> ('s, 'a) prog" where
  "throwM e = (\<lambda>s. (Inl e, s))"

definition liftR :: "'a result \<Rightarrow> ('s, 'a) prog" where
  "liftR r = (\<lambda>s. (r, s))"

definition bindM :: "('s, 'a) prog \<Rightarrow> ('a \<Rightarrow> ('s, 'b) prog) \<Rightarrow> ('s, 'b) prog" where
  "bindM m f = (\<lambda>s. case m s of (Inl e, s') \<Rightarrow> (Inl e, s') | (Inr x, s') \<Rightarrow> f x s')"

lemma returnM_apply [simp, effect_simps]: "returnM x s = (Inr x, s)"
  by (simp add: returnM_def)

lemma throwM_apply [simp, effect_simps]: "throwM e s = (Inl e, s)"
  by (simp add: throwM_def)

lemma liftR_apply [simp, effect_simps]: "liftR r s = (r, s)"
  by (simp add: liftR_def)

lemma bindM_apply [effect_simps]:
  "bindM m f s = (case m s of (Inl e, s') \<Rightarrow> (Inl e, s') | (Inr x, s') \<Rightarrow> f x s')"
  by (simp add: bindM_def)

lemma bindM_Inr:
  "m s = (Inr x, s') \<Longrightarrow> bindM m f s = f x s'"
  by (simp add: bindM_apply)

lemma bindM_Inl:
  "m s = (Inl e, s') \<Longrightarrow> bindM m f s = (Inl e, s')"
  by (simp add: bindM_apply)

lemma bindM_InrE:
  assumes "bindM m f s = (Inr y, t)"
  obtains x s' where "m s = (Inr x, s')" and "f x s' = (Inr y, t)"
  using assms by (cases "m s"; cases "fst (m s)") (auto simp: bindM_apply)

section \<open>Lists and maps\<close>

lemma take_append_len: "length xs = n \<Longrightarrow> take n (xs @ ys) = xs"
  by simp

lemma drop_append_len: "length xs = n \<Longrightarrow> drop n (xs @ ys) = ys"
  by simp

lemma append_eq_same_len:
  "length xs = length ys \<Longrightarrow> xs @ us = ys @ vs \<longleftrightarrow> xs = ys \<and> us = vs"
  by simp

text \<open>Consecutive chunks of a buffer put together again.\<close>

lemma take_chunk:
  "k' = k + m \<Longrightarrow> take m (drop k xs) @ take n (drop k' xs) = take (m + n) (drop k xs)"
  by (simp add: take_add add.commute)

definition lastn :: "nat \<Rightarrow> 'a list \<Rightarrow> 'a list" where
  "lastn n xs = drop (length xs - n) xs"

lemma length_lastn [simp]: "length (lastn n xs) = min n (length xs)"
  by (simp add: lastn_def)

lemma lastn_all [simp]: "length xs \<le> n \<Longrightarrow> lastn n xs = xs"
  by (simp add: lastn_def)

lemma lastn_Nil [simp]: "lastn n [] = []"
  by (simp add: lastn_def)

lemma set_lastn_subset: "set (lastn n xs) \<subseteq> set xs"
  by (simp add: lastn_def set_drop_subset)

lemma distinct_lastn [simp]: "distinct xs \<Longrightarrow> distinct (lastn n xs)"
  by (simp add: lastn_def)

text \<open>A bounded queue: appending and dropping the front when over capacity keeps the last
  \<open>n\<close> elements.\<close>

lemma lastn_snoc:
  "lastn n (xs @ [x]) =
     (if length (lastn n xs) + 1 > n then tl (lastn n xs @ [x]) else lastn n xs @ [x])"
proof (cases "length xs < n")
  case True
  then show ?thesis by (simp add: lastn_def)
next
  case False
  then have "length (lastn n xs @ [x]) > n" by simp
  moreover have "lastn n (xs @ [x]) = tl (lastn n xs @ [x])"
  proof (cases n)
    case 0
    then show ?thesis by (simp add: lastn_def)
  next
    case (Suc m)
    with False have "Suc (length xs) - n = Suc (length xs - n)" and "drop (length xs - n) xs \<noteq> []"
      by simp_all
    with Suc show ?thesis by (simp add: lastn_def drop_Suc tl_drop)
  qed
  ultimately show ?thesis by simp
qed

text \<open>\<^verbatim>\<open>memcpy\<close> into an array at an offset, within its bounds.\<close>

definition memcpy_at :: "'a list \<Rightarrow> nat \<Rightarrow> 'a list \<Rightarrow> 'a list" where
  "memcpy_at buf off xs = take off buf @ xs @ drop (off + length xs) buf"

lemma length_memcpy_at [simp]:
  "off + length xs \<le> length buf \<Longrightarrow> length (memcpy_at buf off xs) = length buf"
  by (simp add: memcpy_at_def)

section \<open>Strings as bytes\<close>

text \<open>
  \<^verbatim>\<open>std::string\<close> and \<^verbatim>\<open>std::string_view\<close> are sequences of bytes: HOL characters. The code
  passes between them and \<^verbatim>\<open>uint8_t\<close> buffers with \<^verbatim>\<open>reinterpret_cast\<close>.
\<close>

definition bytes_of_string :: "string \<Rightarrow> bytes" where
  "bytes_of_string s = map of_char s"

definition string_of_bytes :: "bytes \<Rightarrow> string" where
  "string_of_bytes bs = map (\<lambda>b. char_of (unat b)) bs"

lemma of_char_char_of_u8 [simp]: "of_char (char_of (unat (b :: u8)) :: char) = b"
proof -
  have "unat b < 2 ^ 8" using unsigned_less [of b] by simp
  then have "of_char (char_of (unat b)) = unat b"
    by (simp add: take_bit_nat_eq_self)
  then have "of_nat (of_char (char_of (unat b))) = b" by simp
  then show ?thesis by (simp only: of_nat_of_char)
qed

lemma char_of_of_char_u8 [simp]: "char_of (unat (of_char c :: u8)) = c"
proof -
  have "(of_char c :: nat) < 2 ^ 8" using nat_of_char_less_256 [of c] by simp
  then have "unat (of_nat (of_char c) :: u8) = of_char c"
    by (simp add: unat_of_nat take_bit_nat_eq_self)
  then show ?thesis by (simp add: of_nat_of_char)
qed

lemma bytes_of_string_of_bytes [simp]: "bytes_of_string (string_of_bytes b) = b"
  by (simp add: bytes_of_string_def string_of_bytes_def comp_def del: of_char_of)

lemma string_of_bytes_of_string [simp]: "string_of_bytes (bytes_of_string s) = s"
  by (simp add: bytes_of_string_def string_of_bytes_def comp_def)

lemma bytes_of_string_inj [simp]: "bytes_of_string s = bytes_of_string t \<longleftrightarrow> s = t"
  by (metis string_of_bytes_of_string)

lemma length_bytes_of_string [simp]: "length (bytes_of_string s) = length s"
  by (simp add: bytes_of_string_def)

lemma bytes_of_string_append: "bytes_of_string (s @ t) = bytes_of_string s @ bytes_of_string t"
  by (simp add: bytes_of_string_def)

text \<open>The C string an API sees when it is given \<^verbatim>\<open>c_str()\<close> and no length: the bytes before
  the first NUL.\<close>

definition nul :: char where "nul = char_of (0 :: nat)"

definition c_str :: "string \<Rightarrow> string" where
  "c_str s = takeWhile (\<lambda>c. c \<noteq> nul) s"

lemma c_str_id: "nul \<notin> set s \<Longrightarrow> c_str s = s"
  by (auto simp: c_str_def takeWhile_eq_all_conv)

lemma nul_notin_c_str [simp]: "nul \<notin> set (c_str s)"
  by (auto simp: c_str_def dest: set_takeWhileD)

lemma c_str_idem [simp]: "c_str (c_str s) = c_str s"
  by (rule c_str_id) simp

text \<open>\<^verbatim>\<open>std::to_string\<close> on an unsigned integer: its decimal digits.\<close>

fun nat_to_string :: "nat \<Rightarrow> string" where
  "nat_to_string n =
     (if n < 10 then [char_of (48 + n)]
      else nat_to_string (n div 10) @ [char_of (48 + n mod 10)])"

declare nat_to_string.simps [simp del]

definition to_string :: "'a::len word \<Rightarrow> string" where
  "to_string w = nat_to_string (unat w)"

section \<open>Bytes of a word\<close>

lemma mask_255: "(0xff :: 'a::len word) = mask 8"
  by (simp add: mask_eq_exp_minus_1)

lemma ucast_and_255: "ucast (w AND 0xff :: 'a::len word) = (ucast w :: u8)"
  unfolding mask_255 by (rule bit_word_eqI) (auto simp: bit_simps dest: bit_imp_le_length)

definition byte_at :: "'a::len word \<Rightarrow> nat \<Rightarrow> u8" where
  "byte_at v i = ucast (drop_bit (8 * i) v)"

lemma bit_byte_at: "bit (byte_at v i) n \<longleftrightarrow> n < 8 \<and> bit v (8 * i + n)"
  by (auto simp: byte_at_def bit_simps dest: bit_imp_le_length)

definition word_of_bytes :: "nat \<Rightarrow> bytes \<Rightarrow> 'a::len word" where
  "word_of_bytes k p = fold (\<lambda>i v. v OR push_bit (8 * i) (ucast (p ! i))) [0..<k] 0"

lemma word_of_bytes_Suc:
  "word_of_bytes (Suc k) p = word_of_bytes k p OR push_bit (8 * k) (ucast (p ! k))"
  by (simp add: word_of_bytes_def)

lemma bit_word_of_bytes:
  "bit (word_of_bytes k p :: 'a::len word) n \<longleftrightarrow>
     n < LENGTH('a) \<and> n < 8 * k \<and> bit (p ! (n div 8)) (n mod 8)"
proof (induction k)
  case 0
  show ?case by (simp add: word_of_bytes_def)
next
  case (Suc k)
  have "n div 8 = k \<and> n mod 8 = n - 8 * k" if "8 * k \<le> n" "n < 8 * k + 8"
    using that by presburger
  moreover have "n < 8 * k + 8" if "8 * k \<le> n" "bit (p ! k) (n - 8 * k)"
    using bit_imp_le_length [OF that(2)] by simp
  ultimately show ?case
    using Suc.IH by (auto simp: word_of_bytes_Suc bit_simps not_less)
qed

lemma word_of_bytes_byte_at:
  assumes "LENGTH('a::len) \<le> 8 * k"
  shows "word_of_bytes k (map (byte_at v) [0..<k] @ rest) = (v :: 'a word)"
proof (rule bit_word_eqI)
  fix n assume n: "n < LENGTH('a)"
  with assms have "n div 8 < k" by presburger
  with n assms show "bit (word_of_bytes k (map (byte_at v) [0..<k] @ rest) :: 'a word) n = bit v n"
    by (simp add: bit_word_of_bytes nth_append bit_byte_at)
qed

lemma byte_at_word_of_bytes:
  assumes "i < k" and "8 * k \<le> LENGTH('a::len)"
  shows "byte_at (word_of_bytes k p :: 'a word) i = p ! i"
proof (rule bit_word_eqI)
  fix n :: nat assume n: "n < LENGTH(8)"
  then have "8 * i + n < 8 * k" and "(8 * i + n) div 8 = i" and "(8 * i + n) mod 8 = n"
    using assms(1) by auto
  with n assms(2) show "bit (byte_at (word_of_bytes k p :: 'a word) i) n = bit (p ! i) n"
    by (simp add: bit_byte_at bit_word_of_bytes)
qed

lemma unat_of_nat_u32 [simp]: "n < 4294967296 \<Longrightarrow> unat (of_nat n :: u32) = n"
  by (simp add: unat_of_nat take_bit_nat_eq_self)

end
