(* ===== verification/Wire_Codec.thy ===== *)
theory Wire_Codec
  imports Access_Prelude
begin

text \<open>
  The little-endian integer encoders and decoders: \<^verbatim>\<open>protocol_lib/src/protocol_utils.cpp\<close>, the
  audit log's own copies in \<^verbatim>\<open>access_storage/src/serialization.cpp\<close>, \<^verbatim>\<open>KeyManager::putLe32\<close>
  and \<^verbatim>\<open>crypto_lib::utils::le64\<close>. The locale \<open>byte_codec\<close> states what the parser and the
  serializers rely on (fixed width, decoding inverts encoding and conversely); it is interpreted
  on the 32-bit and the 64-bit codec, and two codecs placed one after the other are a codec again.
\<close>

section \<open>protocol::utils\<close>

definition put_le32 :: "u32 \<Rightarrow> bytes \<Rightarrow> bytes" where
  "put_le32 v out = out @
     [ucast (v AND 0xff),
      ucast (drop_bit 8 v AND 0xff),
      ucast (drop_bit 16 v AND 0xff),
      ucast (drop_bit 24 v AND 0xff)]"

definition put_le64 :: "u64 \<Rightarrow> bytes \<Rightarrow> bytes" where
  "put_le64 v out =
     fold (\<lambda>i out. out @ [ucast (drop_bit (8 * i) v AND 0xff)]) [0..<8] out"

text \<open>The decoders read through a pointer; the argument is the buffer from that pointer on.\<close>

definition get_le32 :: "bytes \<Rightarrow> u32" where
  "get_le32 p =
     ucast (p ! 0) OR push_bit 8 (ucast (p ! 1)) OR push_bit 16 (ucast (p ! 2))
       OR push_bit 24 (ucast (p ! 3))"

definition get_le64 :: "bytes \<Rightarrow> u64" where
  "get_le64 p = fold (\<lambda>i v. v OR push_bit (8 * i) (ucast (p ! i))) [0..<8] 0"

text \<open>\<^verbatim>\<open>read_le<T>\<close>: decodes at an offset of the buffer and advances it; reading past the end
  of the buffer has no defined behaviour.\<close>

definition read_le32 :: "bytes \<Rightarrow> nat \<Rightarrow> (u32 \<times> nat) result" where
  "read_le32 buf pos =
     (if pos + 4 \<le> length buf then Inr (get_le32 (drop pos buf), pos + 4)
      else Inl UndefinedBehaviour)"

definition read_le64 :: "bytes \<Rightarrow> nat \<Rightarrow> (u64 \<times> nat) result" where
  "read_le64 buf pos =
     (if pos + 8 \<le> length buf then Inr (get_le64 (drop pos buf), pos + 8)
      else Inl UndefinedBehaviour)"

section \<open>The other encoders of the repository\<close>

definition storage_putLe32 :: "u32 \<Rightarrow> bytes \<Rightarrow> bytes" where
  "storage_putLe32 v out = out @
     [ucast (v AND 0xff),
      ucast (drop_bit 8 v AND 0xff),
      ucast (drop_bit 16 v AND 0xff),
      ucast (drop_bit 24 v AND 0xff)]"

definition storage_putLe64 :: "u64 \<Rightarrow> bytes \<Rightarrow> bytes" where
  "storage_putLe64 v out =
     fold (\<lambda>i out. out @ [ucast (drop_bit (8 * i) v AND 0xff)]) [0..<8] out"

definition putBytesWithLen :: "string \<Rightarrow> bytes \<Rightarrow> bytes" where
  "putBytesWithLen s out = storage_putLe32 (of_nat (length s)) out @ bytes_of_string s"

text \<open>The key manager writes into a four-byte array, \<^verbatim>\<open>le64\<close> into an eight-byte one.\<close>

definition km_putLe32 :: "u32 \<Rightarrow> bytes" where
  "km_putLe32 v =
     [ucast (v AND 0xff),
      ucast (drop_bit 8 v AND 0xff),
      ucast (drop_bit 16 v AND 0xff),
      ucast (drop_bit 24 v AND 0xff)]"

definition le64 :: "u64 \<Rightarrow> bytes" where
  "le64 x = map (\<lambda>i. ucast (drop_bit (8 * i) x AND 0xff)) [0..<8]"

section \<open>Byte-level characterisation\<close>

lemma fold_snoc_map: "fold (\<lambda>i out. out @ [f i]) xs out = out @ map f xs"
  by (induction xs arbitrary: out) simp_all

lemma put_le32_bytes: "put_le32 v out = out @ map (byte_at v) [0..<4]"
  by (simp add: put_le32_def ucast_and_255 byte_at_def upt_rec)

lemma put_le64_bytes: "put_le64 v out = out @ map (byte_at v) [0..<8]"
  by (simp add: put_le64_def fold_snoc_map ucast_and_255 byte_at_def)

lemma get_le32_word: "get_le32 p = word_of_bytes 4 p"
  by (simp add: get_le32_def word_of_bytes_def upt_rec or.assoc numeral_2_eq_2 numeral_3_eq_3)

lemma get_le64_word: "get_le64 p = word_of_bytes 8 p"
  by (simp add: get_le64_def word_of_bytes_def)

lemma storage_putLe32_eq: "storage_putLe32 = put_le32"
  by (simp add: fun_eq_iff storage_putLe32_def put_le32_def)

lemma storage_putLe64_eq: "storage_putLe64 = put_le64"
  by (simp add: fun_eq_iff storage_putLe64_def put_le64_def)

lemma km_putLe32_eq: "km_putLe32 v = put_le32 v []"
  by (simp add: km_putLe32_def put_le32_def)

lemma le64_eq: "le64 x = put_le64 x []"
  by (simp add: le64_def put_le64_bytes ucast_and_255 byte_at_def)

lemma put_le32_append: "put_le32 v out = out @ put_le32 v []"
  by (simp add: put_le32_bytes)

lemma put_le64_append: "put_le64 v out = out @ put_le64 v []"
  by (simp add: put_le64_bytes)

lemma length_put_le32 [simp]: "length (put_le32 v out) = length out + 4"
  by (simp add: put_le32_bytes)

lemma length_put_le64 [simp]: "length (put_le64 v out) = length out + 8"
  by (simp add: put_le64_bytes)

lemma length_le64 [simp]: "length (le64 x) = 8"
  by (simp add: le64_eq)

section \<open>The codec interface\<close>

locale byte_codec =
  fixes encode :: "'a \<Rightarrow> bytes"
    and decode :: "bytes \<Rightarrow> 'a"
    and width :: nat
  assumes length_encode: "length (encode x) = width"
    and decode_encode: "decode (encode x @ rest) = x"
    and encode_decode: "width \<le> length bs \<Longrightarrow> encode (decode bs) = take width bs"
begin

lemma decode_encode_exact: "decode (encode x) = x"
  using decode_encode [of x "[]"] by simp

lemma encode_inject: "encode x = encode y \<longleftrightarrow> x = y"
  by (metis decode_encode_exact)

lemma encode_append_inject: "encode x @ us = encode y @ vs \<longleftrightarrow> x = y \<and> us = vs"
  by (simp add: append_eq_same_len length_encode encode_inject)

text \<open>Reading a field at an offset and re-encoding it gives that slice of the buffer.\<close>

lemma encode_decode_drop:
  "pos + width \<le> length bs \<Longrightarrow> encode (decode (drop pos bs)) = take width (drop pos bs)"
  by (rule encode_decode) simp

lemma decode_drop_encode:
  "length us = pos \<Longrightarrow> decode (drop pos (us @ encode x @ rest)) = x"
  by (simp add: decode_encode)

end

text \<open>Two fixed-width fields in sequence.\<close>

locale pair_codec =
  fst: byte_codec encode1 decode1 width1 + snd: byte_codec encode2 decode2 width2
  for encode1 :: "'a \<Rightarrow> bytes" and decode1 width1
    and encode2 :: "'b \<Rightarrow> bytes" and decode2 width2

sublocale pair_codec \<subseteq> pair: byte_codec
  "\<lambda>(x, y). encode1 x @ encode2 y" "\<lambda>bs. (decode1 bs, decode2 (drop width1 bs))" "width1 + width2"
proof unfold_locales
  fix xy :: "'a \<times> 'b" and rest bs :: bytes
  show "length (case xy of (x, y) \<Rightarrow> encode1 x @ encode2 y) = width1 + width2"
    by (cases xy) (simp add: fst.length_encode snd.length_encode)
  show "(decode1 ((case xy of (x, y) \<Rightarrow> encode1 x @ encode2 y) @ rest),
         decode2 (drop width1 ((case xy of (x, y) \<Rightarrow> encode1 x @ encode2 y) @ rest))) = xy"
    by (cases xy) (simp add: fst.decode_encode snd.decode_encode fst.length_encode)
  assume "width1 + width2 \<le> length bs"
  then show "(case (decode1 bs, decode2 (drop width1 bs)) of (x, y) \<Rightarrow> encode1 x @ encode2 y) =
      take (width1 + width2) bs"
    by (simp add: fst.encode_decode snd.encode_decode_drop take_add)
qed

lemma get_put_le32: "get_le32 (put_le32 v [] @ rest) = v"
  by (simp add: put_le32_bytes get_le32_word word_of_bytes_byte_at)

lemma get_put_le64: "get_le64 (put_le64 v [] @ rest) = v"
  by (simp add: put_le64_bytes get_le64_word word_of_bytes_byte_at)

lemma map_nth_upto: "k \<le> length bs \<Longrightarrow> map (\<lambda>i. bs ! i) [0..<k] = take k bs"
  by (rule nth_equalityI) simp_all

lemma put_get_le32: "4 \<le> length bs \<Longrightarrow> put_le32 (get_le32 bs) [] = take 4 bs"
  by (simp add: put_le32_bytes get_le32_word byte_at_word_of_bytes map_nth_upto [symmetric])

lemma put_get_le64: "8 \<le> length bs \<Longrightarrow> put_le64 (get_le64 bs) [] = take 8 bs"
  by (simp add: put_le64_bytes get_le64_word byte_at_word_of_bytes map_nth_upto [symmetric])

interpretation le32: byte_codec "\<lambda>v. put_le32 v []" get_le32 4
  by unfold_locales (simp_all add: get_put_le32 put_get_le32)

interpretation cdc64: byte_codec "\<lambda>v. put_le64 v []" get_le64 8
  by unfold_locales (simp_all add: get_put_le64 put_get_le64)

text \<open>The eight-byte salt of the key manager: reader id, then key version.\<close>

interpretation salt: pair_codec "\<lambda>v. put_le32 v []" get_le32 4 "\<lambda>v. put_le32 v []" get_le32 4
  by unfold_locales

lemmas le_codec_simps [codec_simps] =
  le32.encode_inject cdc64.encode_inject le32.encode_append_inject cdc64.encode_append_inject
  get_put_le32 get_put_le64

text \<open>Length-prefixed strings: the prefix determines how much of the buffer the string takes.\<close>

lemma putBytesWithLen_append: "putBytesWithLen s out = out @ putBytesWithLen s []"
  by (simp add: putBytesWithLen_def storage_putLe32_eq put_le32_append [of _ out])

lemma putBytesWithLen_inject:
  assumes "length s < 2 ^ 32" and "length t < 2 ^ 32"
  shows "putBytesWithLen s [] @ us = putBytesWithLen t [] @ vs \<longleftrightarrow> s = t \<and> us = vs"
proof
  assume eq: "putBytesWithLen s [] @ us = putBytesWithLen t [] @ vs"
  then have "(of_nat (length s) :: u32) = of_nat (length t)"
    and rest: "bytes_of_string s @ us = bytes_of_string t @ vs"
    by (simp_all add: putBytesWithLen_def storage_putLe32_eq le32.encode_append_inject)
  then have "unat (of_nat (length s) :: u32) = unat (of_nat (length t) :: u32)" by simp
  with assms have "length s = length t" by simp
  with rest show "s = t \<and> us = vs" by (simp add: append_eq_same_len)
qed simp

end
