(* ===== verification/Protocol_Frame.thy ===== *)
theory Protocol_Frame
  imports Wire_Codec
begin

text \<open>
  The wire format: \<^verbatim>\<open>protocol_lib/src/packet.cpp\<close> (the header and its serialization, which is
  also the AEAD's additional data), \<^verbatim>\<open>frame.cpp\<close> (the frame serializer) and
  \<^verbatim>\<open>frame_parser.cpp\<close> (the pointer-walking parser, one definition per method). The lemmas show
  that the parser computes a closed-form specification, never reads outside its buffer, and is
  inverse to the serializer in both directions.
\<close>

section \<open>Header and frame\<close>

record Header =
  h_reader_id :: u32
  h_door_id :: u32
  h_ts_unix_ms :: u64
  h_seq :: u64
  h_key_version :: u32
  h_nonce :: bytes

record Frame =
  fr_header :: Header
  fr_ct :: bytes
  fr_tag :: bytes

text \<open>The value-initialised structs: integers and arrays are zeroed.\<close>

definition empty_header :: Header where
  "empty_header = \<lparr>h_reader_id = 0, h_door_id = 0, h_ts_unix_ms = 0, h_seq = 0,
     h_key_version = 0, h_nonce = replicate 24 0\<rparr>"

definition empty_frame :: Frame where
  "empty_frame = \<lparr>fr_header = empty_header, fr_ct = [], fr_tag = replicate 16 0\<rparr>"

text \<open>The arrays of the C++ structs have a fixed size; their model is well-formed when the
  lists have it.\<close>

definition wf_header :: "Header \<Rightarrow> bool" where
  "wf_header h \<longleftrightarrow> length (h_nonce h) = 24"

definition wf_frame :: "Frame \<Rightarrow> bool" where
  "wf_frame f \<longleftrightarrow> wf_header (fr_header f) \<and> length (fr_tag f) = 16"

definition to_bytes :: "Header \<Rightarrow> bytes" where
  "to_bytes h =
     (let out = [];
          out = put_le32 (h_reader_id h) out;
          out = put_le32 (h_door_id h) out;
          out = put_le64 (h_ts_unix_ms h) out;
          out = put_le64 (h_seq h) out;
          out = put_le32 (h_key_version h) out
      in out @ h_nonce h)"

section \<open>Serializer\<close>

definition kMagicSize :: nat where "kMagicSize = 4"

definition kMagic :: bytes where "kMagic = bytes_of_string ''AS01''"

definition kVersion :: u8 where "kVersion = 1"

definition serialize :: "Frame \<Rightarrow> bytes" where
  "serialize f =
     (let h = fr_header f;
          out = [] @ kMagic;
          out = out @ [kVersion];
          out = put_le32 (h_reader_id h) out;
          out = put_le32 (h_door_id h) out;
          out = put_le64 (h_ts_unix_ms h) out;
          out = put_le64 (h_seq h) out;
          out = put_le32 (h_key_version h) out;
          out = out @ h_nonce h;
          out = put_le32 (of_nat (length (fr_ct f))) out;
          out = out @ fr_ct f
      in out @ fr_tag f)"

section \<open>Parser\<close>

text \<open>\<^verbatim>\<open>ComputedValues\<close>.\<close>

definition kVersionSize :: nat where "kVersionSize = 1"
definition kU32 :: nat where "kU32 = 4"
definition kU64 :: nat where "kU64 = 8"
definition kHeaderFixedSize :: nat where "kHeaderFixedSize = 3 * kU32 + 2 * kU64"
definition kNonceSize :: nat where "kNonceSize = length (h_nonce (fr_header empty_frame))"
definition kTagSize :: nat where "kTagSize = length (fr_tag empty_frame)"
definition kCtLenSize :: nat where "kCtLenSize = kU32"
definition kMinFrameSize :: nat where
  "kMinFrameSize = kMagicSize + kVersionSize + kHeaderFixedSize + kNonceSize + kCtLenSize + kTagSize"

text \<open>The parser object. \<open>fp_pos\<close> is \<^verbatim>\<open>_ptr\<close> as an offset into the buffer, whose end is
  \<^verbatim>\<open>_end\<close>.\<close>

record FrameParser =
  fp_bytes :: bytes
  fp_maxCtLen :: u32
  fp_pos :: nat
  fp_frame :: Frame

definition FrameParser_init :: "bytes \<Rightarrow> u32 \<Rightarrow> FrameParser" where
  "FrameParser_init bytes maxCtLen =
     \<lparr>fp_bytes = bytes, fp_maxCtLen = maxCtLen, fp_pos = 0, fp_frame = empty_frame\<rparr>"

text \<open>Block reads through \<^verbatim>\<open>_ptr\<close> (\<^verbatim>\<open>memcmp\<close>, \<^verbatim>\<open>memcpy\<close>, \<^verbatim>\<open>assign\<close>).\<close>

definition read_block :: "bytes \<Rightarrow> nat \<Rightarrow> nat \<Rightarrow> bytes result" where
  "read_block buf pos n =
     (if pos + n \<le> length buf then Inr (take n (drop pos buf)) else Inl UndefinedBehaviour)"

definition requireBytes :: "nat \<Rightarrow> string \<Rightarrow> FrameParser \<Rightarrow> FrameParser result" where
  "requireBytes n msg st =
     (if fp_pos st > length (fp_bytes st) then Inl UndefinedBehaviour
      else if length (fp_bytes st) - fp_pos st < n then Inl (RuntimeError msg)
      else Inr st)"

definition validateMinSize :: "FrameParser \<Rightarrow> FrameParser result" where
  "validateMinSize st =
     (if length (fp_bytes st) < kMinFrameSize then Inl (RuntimeError ''frame: too small'')
      else Inr st)"

definition validateMagic :: "FrameParser \<Rightarrow> FrameParser result" where
  "validateMagic st =
     bindR (requireBytes kMagicSize ''frame: too small'' st) (\<lambda>st.
     bindR (read_block (fp_bytes st) (fp_pos st) kMagicSize) (\<lambda>m.
       if m \<noteq> kMagic then Inl (RuntimeError ''frame: bad magic'')
       else Inr (st\<lparr>fp_pos := fp_pos st + kMagicSize\<rparr>)))"

definition validateVersion :: "FrameParser \<Rightarrow> FrameParser result" where
  "validateVersion st =
     bindR (requireBytes kVersionSize ''frame: too small'' st) (\<lambda>st.
     bindR (read_block (fp_bytes st) (fp_pos st) 1) (\<lambda>ver.
       let st = st\<lparr>fp_pos := fp_pos st + 1\<rparr> in
       if ver \<noteq> [kVersion] then Inl (RuntimeError ''frame: bad version'')
       else Inr st))"

definition parseHeader :: "FrameParser \<Rightarrow> FrameParser result" where
  "parseHeader st =
     bindR (requireBytes (kHeaderFixedSize + kNonceSize + kCtLenSize) ''frame: too small'' st) (\<lambda>st.
     bindR (read_le32 (fp_bytes st) (fp_pos st)) (\<lambda>(readerId, p).
     bindR (read_le32 (fp_bytes st) p) (\<lambda>(doorId, p).
     bindR (read_le64 (fp_bytes st) p) (\<lambda>(ts, p).
     bindR (read_le64 (fp_bytes st) p) (\<lambda>(sq, p).
     bindR (read_le32 (fp_bytes st) p) (\<lambda>(kv, p).
     bindR (read_block (fp_bytes st) p kNonceSize) (\<lambda>nonce.
       Inr (st\<lparr>fp_pos := p + kNonceSize,
               fp_frame := (fp_frame st)\<lparr>fr_header :=
                 \<lparr>h_reader_id = readerId, h_door_id = doorId, h_ts_unix_ms = ts, h_seq = sq,
                  h_key_version = kv, h_nonce = nonce\<rparr>\<rparr>\<rparr>))))))))"

definition parseCiphertext :: "FrameParser \<Rightarrow> FrameParser result" where
  "parseCiphertext st =
     bindR (read_le32 (fp_bytes st) (fp_pos st)) (\<lambda>(ctLen, p).
       let st = st\<lparr>fp_pos := p\<rparr> in
       if ctLen > fp_maxCtLen st then Inl (RuntimeError ''frame: ctLen exceeds limit'')
       else
     bindR (requireBytes (unat ctLen + kTagSize) ''frame: length mismatch'' st) (\<lambda>st.
     bindR (read_block (fp_bytes st) (fp_pos st) (unat ctLen)) (\<lambda>ct.
       Inr (st\<lparr>fp_pos := fp_pos st + unat ctLen, fp_frame := (fp_frame st)\<lparr>fr_ct := ct\<rparr>\<rparr>))))"

definition parseTag :: "FrameParser \<Rightarrow> FrameParser result" where
  "parseTag st =
     bindR (read_block (fp_bytes st) (fp_pos st) kTagSize) (\<lambda>tag.
       Inr (st\<lparr>fp_pos := fp_pos st + kTagSize, fp_frame := (fp_frame st)\<lparr>fr_tag := tag\<rparr>\<rparr>))"

definition validateNoTrailingBytes :: "FrameParser \<Rightarrow> FrameParser result" where
  "validateNoTrailingBytes st =
     (if fp_pos st \<noteq> length (fp_bytes st) then Inl (RuntimeError ''frame: trailing bytes'')
      else Inr st)"

definition parse :: "FrameParser \<Rightarrow> Frame result" where
  "parse st =
     bindR (validateMinSize st) (\<lambda>st.
     bindR (validateMagic st) (\<lambda>st.
     bindR (validateVersion st) (\<lambda>st.
     bindR (parseHeader st) (\<lambda>st.
     bindR (parseCiphertext st) (\<lambda>st.
     bindR (parseTag st) (\<lambda>st.
     bindR (validateNoTrailingBytes st) (\<lambda>st. Inr (fp_frame st))))))))"

definition parseFrame :: "bytes \<Rightarrow> u32 \<Rightarrow> Frame result" where
  "parseFrame bytes maxCtLen = parse (FrameParser_init bytes maxCtLen)"

lemma size_consts [simp]:
  "kMagicSize = 4" "kVersionSize = 1" "kHeaderFixedSize = 28" "kNonceSize = 24"
  "kTagSize = 16" "kCtLenSize = 4" "kMinFrameSize = 77"
  by (simp_all add: kMagicSize_def kVersionSize_def kHeaderFixedSize_def kNonceSize_def
      kTagSize_def kCtLenSize_def kMinFrameSize_def kU32_def kU64_def empty_frame_def
      empty_header_def)

lemma length_kMagic [simp]: "length kMagic = 4"
  by (simp add: kMagic_def)

section \<open>Closed-form specification of the parser\<close>

text \<open>The fields at their fixed offsets, and the checks in the order the format imposes.\<close>

definition header_at :: "bytes \<Rightarrow> Header" where
  "header_at bs =
     \<lparr>h_reader_id = get_le32 (drop 5 bs), h_door_id = get_le32 (drop 9 bs),
      h_ts_unix_ms = get_le64 (drop 13 bs), h_seq = get_le64 (drop 21 bs),
      h_key_version = get_le32 (drop 29 bs), h_nonce = take 24 (drop 33 bs)\<rparr>"

definition parse_spec :: "bytes \<Rightarrow> u32 \<Rightarrow> Frame result" where
  "parse_spec bs maxCtLen =
     (let ctLen = get_le32 (drop 57 bs); n = unat ctLen in
      if length bs < 77 then Inl (RuntimeError ''frame: too small'')
      else if take 4 bs \<noteq> kMagic then Inl (RuntimeError ''frame: bad magic'')
      else if bs ! 4 \<noteq> kVersion then Inl (RuntimeError ''frame: bad version'')
      else if ctLen > maxCtLen then Inl (RuntimeError ''frame: ctLen exceeds limit'')
      else if length bs < 77 + n then Inl (RuntimeError ''frame: length mismatch'')
      else if length bs > 77 + n then Inl (RuntimeError ''frame: trailing bytes'')
      else Inr \<lparr>fr_header = header_at bs, fr_ct = take n (drop 61 bs),
                fr_tag = take 16 (drop (61 + n) bs)\<rparr>)"

abbreviation parser_at :: "bytes \<Rightarrow> u32 \<Rightarrow> nat \<Rightarrow> Frame \<Rightarrow> FrameParser" where
  "parser_at bs m p f \<equiv> \<lparr>fp_bytes = bs, fp_maxCtLen = m, fp_pos = p, fp_frame = f\<rparr>"

text \<open>Each stage of the parser at the offset where it runs.\<close>

lemma requireBytes_at:
  "p \<le> length bs \<Longrightarrow> requireBytes n msg (parser_at bs m p f) =
     (if length bs < p + n then Inl (RuntimeError msg) else Inr (parser_at bs m p f))"
  by (auto simp: requireBytes_def)

lemma read_block_ok [simp]: "p + n \<le> length bs \<Longrightarrow> read_block bs p n = Inr (take n (drop p bs))"
  by (simp add: read_block_def)

lemma magic_stage:
  "4 \<le> length bs \<Longrightarrow> validateMagic (parser_at bs m 0 f) =
     (if take 4 bs \<noteq> kMagic then Inl (RuntimeError ''frame: bad magic'')
      else Inr (parser_at bs m 4 f))"
  by (simp add: validateMagic_def requireBytes_at)

lemma version_stage:
  "5 \<le> length bs \<Longrightarrow> validateVersion (parser_at bs m 4 f) =
     (if bs ! 4 \<noteq> kVersion then Inl (RuntimeError ''frame: bad version'')
      else Inr (parser_at bs m 5 f))"
  by (simp add: validateVersion_def requireBytes_at take_Suc_conv_app_nth)

lemma header_stage:
  "61 \<le> length bs \<Longrightarrow> parseHeader (parser_at bs m 5 f) =
     Inr (parser_at bs m 57 (f\<lparr>fr_header := header_at bs\<rparr>))"
  by (simp add: parseHeader_def requireBytes_at read_le32_def read_le64_def header_at_def)

lemma ciphertext_stage:
  "61 \<le> length bs \<Longrightarrow> parseCiphertext (parser_at bs m 57 f) =
     (let ctLen = get_le32 (drop 57 bs); n = unat ctLen in
      if ctLen > m then Inl (RuntimeError ''frame: ctLen exceeds limit'')
      else if length bs < 77 + n then Inl (RuntimeError ''frame: length mismatch'')
      else Inr (parser_at bs m (61 + n) (f\<lparr>fr_ct := take n (drop 61 bs)\<rparr>)))"
  by (simp add: parseCiphertext_def requireBytes_at read_le32_def Let_def)

lemma tail_stage:
  "77 + n \<le> length bs \<Longrightarrow>
     bindR (parseTag (parser_at bs m (61 + n) f)) (\<lambda>st.
     bindR (validateNoTrailingBytes st) (\<lambda>st. Inr (fp_frame st))) =
     (if length bs > 77 + n then Inl (RuntimeError ''frame: trailing bytes'')
      else Inr (f\<lparr>fr_tag := take 16 (drop (61 + n) bs)\<rparr>))"
  by (simp add: parseTag_def validateNoTrailingBytes_def)

lemmas parser_stages =
  magic_stage version_stage header_stage ciphertext_stage tail_stage

lemma parseFrame_eq_spec: "parseFrame bs maxCtLen = parse_spec bs maxCtLen"
proof (cases "length bs < 77")
  case True
  then show ?thesis
    by (simp add: parseFrame_def parse_def FrameParser_init_def validateMinSize_def parse_spec_def)
next
  case False
  then have "validateMinSize (FrameParser_init bs maxCtLen) =
      Inr (parser_at bs maxCtLen 0 empty_frame)"
    by (simp add: validateMinSize_def FrameParser_init_def)
  moreover from False have "4 \<le> length bs" "5 \<le> length bs" "61 \<le> length bs" by simp_all
  ultimately show ?thesis using False
    by (simp add: parseFrame_def parse_def parser_stages Let_def
        parse_spec_def empty_frame_def bindR_if cong: if_cong split del: if_split)
qed

section \<open>Layout of a serialized frame\<close>

lemma to_bytes_layout:
  "to_bytes h = put_le32 (h_reader_id h) [] @ put_le32 (h_door_id h) [] @
     put_le64 (h_ts_unix_ms h) [] @ put_le64 (h_seq h) [] @ put_le32 (h_key_version h) [] @ h_nonce h"
  unfolding to_bytes_def Let_def
  by (subst put_le32_append, subst put_le64_append, subst put_le64_append, subst put_le32_append)
    simp

lemma serialize_layout:
  "serialize f = kMagic @ [kVersion] @ to_bytes (fr_header f) @
     put_le32 (of_nat (length (fr_ct f))) [] @ fr_ct f @ fr_tag f"
  unfolding serialize_def Let_def to_bytes_layout
  by (simp add: put_le32_append [of _ "_ @ _"] put_le64_append [of _ "_ @ _"])

lemma length_to_bytes [simp]: "wf_header h \<Longrightarrow> length (to_bytes h) = 52"
  by (simp add: to_bytes_layout wf_header_def)

lemma length_serialize: "wf_frame f \<Longrightarrow> length (serialize f) = 77 + length (fr_ct f)"
  by (simp add: serialize_layout wf_frame_def)

text \<open>The header occupies 52 bytes of the frame and decodes from any position it is put at.\<close>

lemma header_at_layout:
  assumes "length pre = 5" and "wf_header h"
  shows "header_at (pre @ to_bytes h @ rest) = h"
proof -
  have "drop 9 pre = []" "drop 13 pre = []" "drop 21 pre = []" "drop 29 pre = []" "drop 33 pre = []"
    using assms(1) by simp_all
  with assms show ?thesis
    by (simp add: header_at_def to_bytes_layout wf_header_def codec_simps)
qed

lemma to_bytes_header_at:
  assumes "57 \<le> length bs"
  shows "to_bytes (header_at bs) = take 52 (drop 5 bs)"
proof -
  have "to_bytes (header_at bs) =
      take 4 (drop 5 bs) @ take 4 (drop 9 bs) @ take 8 (drop 13 bs) @ take 8 (drop 21 bs) @
      take 4 (drop 29 bs) @ take 24 (drop 33 bs)"
    using assms by (simp add: to_bytes_layout header_at_def put_get_le32 put_get_le64)
  also have "\<dots> = take 52 (drop 5 bs)"
    by (simp add: take_add [of 4 48 "drop 5 bs", simplified] take_add [of 4 44 "drop 9 bs", simplified]
        take_add [of 8 36 "drop 13 bs", simplified] take_add [of 8 28 "drop 21 bs", simplified]
        take_add [of 4 24 "drop 29 bs", simplified])
  finally show ?thesis .
qed

lemma to_bytes_inject:
  "wf_header h \<Longrightarrow> wf_header h' \<Longrightarrow> to_bytes h = to_bytes h' \<longleftrightarrow> h = h'"
  by (metis append_Nil header_at_layout length_replicate)

lemma to_bytes_append_inject:
  "wf_header h \<Longrightarrow> wf_header h' \<Longrightarrow> to_bytes h @ us = to_bytes h' @ vs \<longleftrightarrow> h = h' \<and> us = vs"
  by (simp add: append_eq_same_len to_bytes_inject)

section \<open>Round trips\<close>

lemma parse_spec_serialize:
  assumes "wf_frame f" and "length (fr_ct f) \<le> unat maxCtLen"
  shows "parse_spec (serialize f) maxCtLen = Inr f"
proof -
  let ?n = "length (fr_ct f)" and ?bs = "serialize f"
  have "unat maxCtLen < 2 ^ 32" using unsigned_less [of maxCtLen] by simp
  with assms(2) have n: "unat (of_nat ?n :: u32) = ?n" by simp
  have wf: "wf_header (fr_header f)" and tag: "length (fr_tag f) = 16"
    using assms(1) by (simp_all add: wf_frame_def)
  let ?body = "put_le32 (of_nat ?n) [] @ fr_ct f @ fr_tag f"
  have split: "?bs = (kMagic @ [kVersion]) @ to_bytes (fr_header f) @ ?body"
    by (simp add: serialize_layout)
  have hdr: "header_at ?bs = fr_header f"
    unfolding split by (rule header_at_layout) (simp_all add: wf)
  have len: "length ?bs = 77 + ?n" by (rule length_serialize [OF assms(1)])
  have d57: "drop 57 ?bs = ?body" using wf by (simp add: split)
  have ctl: "get_le32 (drop 57 ?bs) = of_nat ?n" by (simp add: d57 get_put_le32)
  have d61: "drop 61 ?bs = fr_ct f @ fr_tag f"
    using arg_cong [OF d57, of "drop 4"] by simp
  have "drop (61 + ?n) ?bs = drop ?n (drop 61 ?bs)" by (simp add: add.commute)
  then have "drop (61 + ?n) ?bs = fr_tag f" by (simp add: d61)
  moreover have "\<not> (of_nat ?n :: u32) > maxCtLen"
    using assms(2) n by (simp add: word_less_nat_alt)
  moreover have "take 4 ?bs = kMagic" and "?bs ! 4 = kVersion"
    by (simp_all add: split nth_append)
  ultimately show ?thesis
    using n tag by (simp add: parse_spec_def Let_def len ctl hdr d61)
qed

lemma parse_spec_sound:
  assumes "parse_spec bs maxCtLen = Inr f"
  shows "wf_frame f \<and> length (fr_ct f) \<le> unat maxCtLen \<and> serialize f = bs"
proof -
  define n where "n = unat (get_le32 (drop 57 bs))"
  let ?f = "\<lparr>fr_header = header_at bs, fr_ct = take n (drop 61 bs), fr_tag = take 16 (drop (61 + n) bs)\<rparr>"
  have *: "\<not> length bs < 77 + n" "\<not> length bs > 77 + n" "take 4 bs = kMagic" "bs ! 4 = kVersion"
    "\<not> get_le32 (drop 57 bs) > maxCtLen" "f = ?f"
    using assms unfolding parse_spec_def Let_def n_def [symmetric]
    by (simp_all only: split: if_splits) (simp_all only: sum.distinct sum.inject simp_thms)
  then have len: "length bs = 77 + n" and lim: "get_le32 (drop 57 bs) \<le> maxCtLen" by simp_all
  note mag = *(3) and ver = *(4) and f = *(6)
  have ct: "length (fr_ct f) = n" using len by (simp add: f)
  have "wf_frame f" using len by (simp add: f wf_frame_def wf_header_def header_at_def)
  moreover have "length (fr_ct f) \<le> unat maxCtLen"
    using lim by (simp add: ct n_def word_le_nat_alt)
  moreover have "serialize f = bs"
  proof -
    have "(of_nat n :: u32) = get_le32 (drop 57 bs)" by (simp add: n_def)
    moreover have "4 \<le> length (drop 57 bs)" using len by simp
    ultimately have "put_le32 (of_nat n) [] = take 4 (drop 57 bs)"
      by (simp only: put_get_le32)
    moreover have "to_bytes (header_at bs) = take 52 (drop 5 bs)"
      using len by (intro to_bytes_header_at) simp
    moreover have "[kVersion] = take 1 (drop 4 bs)"
      using ver len by (simp add: take_Suc_conv_app_nth)
    ultimately have "serialize f = take 4 bs @ take 1 (drop 4 bs) @ take 52 (drop 5 bs) @
        take 4 (drop 57 bs) @ take n (drop 61 bs) @ take 16 (drop (61 + n) bs)"
      unfolding serialize_layout ct by (simp add: f mag)
    also have "\<dots> = take (4 + (1 + (52 + (4 + (n + 16))))) (drop 0 bs)"
      by (simp add: take_chunk [where k = 61] take_chunk [where k = 57] take_chunk [where k = 5]
          take_chunk [where k = 4] take_chunk [where k = 0, unfolded drop_0] del: One_nat_def)
    finally show ?thesis using len by simp
  qed
  ultimately show ?thesis by blast
qed

lemma parse_spec_no_UB: "parse_spec bs maxCtLen \<noteq> Inl UndefinedBehaviour"
  unfolding parse_spec_def Let_def
  by (simp only: split: if_split) (simp only: sum.distinct sum.inject exn.distinct simp_thms)

text \<open>
  C22: every well-formed frame whose ciphertext fits the configured limit survives the wire:
  parsing its serialization gives the frame back, all header fields, ciphertext and tag included.
\<close>

theorem frame_roundtrip:
  assumes "wf_frame f" and "length (fr_ct f) \<le> unat maxCtLen"
  shows "parseFrame (serialize f) maxCtLen = Inr f"
  using assms by (simp add: parseFrame_eq_spec parse_spec_serialize)

theorem frame_roundtrip_witness:
  "parseFrame (serialize (empty_frame\<lparr>fr_ct := [1, 2, 3]\<rparr>)) 4096 = Inr (empty_frame\<lparr>fr_ct := [1, 2, 3]\<rparr>)"
  by (rule frame_roundtrip) (simp_all add: wf_frame_def wf_header_def empty_frame_def empty_header_def)

text \<open>
  C21: the wire format is canonical. Bytes that parse are exactly the serialization of the frame
  they parse to, the frame is well-formed and its ciphertext within the limit; so two byte strings
  that parse to the same frame are equal and no byte of an accepted input is ignored.
\<close>

theorem parse_canonical:
  assumes "parseFrame bs maxCtLen = Inr f"
  shows "wf_frame f \<and> length (fr_ct f) \<le> unat maxCtLen \<and> serialize f = bs"
  using assms by (simp add: parseFrame_eq_spec parse_spec_sound)

theorem parse_canonical_witness:
  "wf_frame (empty_frame\<lparr>fr_ct := [7]\<rparr>) \<and> length (fr_ct (empty_frame\<lparr>fr_ct := [7]\<rparr>)) \<le> unat (1 :: u32) \<and>
   serialize (empty_frame\<lparr>fr_ct := [7]\<rparr>) = serialize (empty_frame\<lparr>fr_ct := [7]\<rparr>)"
proof (rule parse_canonical)
  show "parseFrame (serialize (empty_frame\<lparr>fr_ct := [7]\<rparr>)) 1 = Inr (empty_frame\<lparr>fr_ct := [7]\<rparr>)"
    by (simp add: parseFrame_eq_spec parse_spec_serialize wf_frame_def wf_header_def
        empty_frame_def empty_header_def)
qed

text \<open>
  C20: the pointer-walking parser computes the closed-form specification on every input, with the
  error of the first violated rule in the order size, magic, version, length limit, truncation,
  trailing bytes. In particular it terminates and never reads outside its buffer, whatever the
  attacker sends and whatever length field the frame claims.
\<close>

theorem parser_computes_spec:
  "parseFrame bs maxCtLen = parse_spec bs maxCtLen \<and> parseFrame bs maxCtLen \<noteq> Inl UndefinedBehaviour"
  by (simp add: parseFrame_eq_spec parse_spec_no_UB)

end
