(* ===== verification/Replay_Window.thy ===== *)
theory Replay_Window
  imports Access_Prelude
begin

text \<open>
  \<^verbatim>\<open>protocol_lib/src/replay_window.cpp\<close>: the sliding window that remembers accepted sequence
  numbers of one reader. The state is refined to a history of accepted numbers, of which the
  window keeps the last \<open>window\<close>; the locale \<open>replay_guard\<close> is the contract the frame handler
  uses. The window never forgets one of the last \<open>window\<close> accepted numbers and never accepts a
  number twice while numbers arrive in increasing order; after reordering it can, because it
  evicts in insertion order (\<open>reordered_replay_accepted\<close>).
\<close>

section \<open>The class\<close>

record ReplayWindow =
  rw_window :: u64
  rw_maxSeen :: u64
  rw_seen :: "u64 set"
  rw_order :: "u64 list"

definition ReplayWindow_init :: "u64 \<Rightarrow> ReplayWindow" where
  "ReplayWindow_init window =
     \<lparr>rw_window = window, rw_maxSeen = 0, rw_seen = {}, rw_order = []\<rparr>"

definition isTooOld :: "ReplayWindow \<Rightarrow> u64 \<Rightarrow> bool" where
  "isTooOld w sq =
     (if rw_maxSeen w = 0 then False
      else if rw_maxSeen w < rw_window w then False
      else sq \<le> rw_maxSeen w - rw_window w)"

definition rw_contains :: "ReplayWindow \<Rightarrow> u64 \<Rightarrow> bool" where
  "rw_contains w sq \<longleftrightarrow> isTooOld w sq \<or> sq \<in> rw_seen w"

definition isAlreadySeen :: "ReplayWindow \<Rightarrow> u64 \<Rightarrow> bool" where
  "isAlreadySeen w sq \<longleftrightarrow> sq \<in> rw_seen w"

definition evictOldestIfFull :: "ReplayWindow \<Rightarrow> ReplayWindow" where
  "evictOldestIfFull w =
     (if length (rw_order w) > unat (rw_window w)
      then w\<lparr>rw_seen := rw_seen w - {hd (rw_order w)}, rw_order := tl (rw_order w)\<rparr>
      else w)"

definition remember :: "u64 \<Rightarrow> ReplayWindow \<Rightarrow> ReplayWindow" where
  "remember sq w =
     (if rw_contains w sq then w
      else
        let w = (if sq > rw_maxSeen w then w\<lparr>rw_maxSeen := sq\<rparr> else w);
            w = w\<lparr>rw_seen := insert sq (rw_seen w)\<rparr>;
            w = w\<lparr>rw_order := rw_order w @ [sq]\<rparr>
        in evictOldestIfFull w)"

definition rw_accept :: "u64 \<Rightarrow> ReplayWindow \<Rightarrow> bool \<times> ReplayWindow" where
  "rw_accept sq w = (if rw_contains w sq then (False, w) else (True, remember sq w))"

section \<open>Invariant and history\<close>

definition rw_inv :: "ReplayWindow \<Rightarrow> bool" where
  "rw_inv w \<longleftrightarrow> rw_seen w = set (rw_order w) \<and> distinct (rw_order w) \<and>
     length (rw_order w) \<le> unat (rw_window w) \<and> (\<forall>q \<in> set (rw_order w). q \<le> rw_maxSeen w)"

text \<open>What the window stands for: the accepted numbers in order of acceptance. It keeps the
  last \<open>window\<close> of them and the largest.\<close>

definition hist_max :: "u64 list \<Rightarrow> u64" where
  "hist_max hist = fold max hist 0"

definition window_of :: "u64 \<Rightarrow> u64 list \<Rightarrow> ReplayWindow \<Rightarrow> bool" where
  "window_of n hist w \<longleftrightarrow> rw_window w = n \<and> rw_maxSeen w = hist_max hist \<and>
     rw_order w = lastn (unat n) hist \<and> rw_inv w"

definition hist_rejects :: "u64 \<Rightarrow> u64 list \<Rightarrow> u64 \<Rightarrow> bool" where
  "hist_rejects n hist q \<longleftrightarrow>
     (hist_max hist \<noteq> 0 \<and> n \<le> hist_max hist \<and> q \<le> hist_max hist - n) \<or>
     q \<in> set (lastn (unat n) hist)"

lemma hist_max_snoc [simp]: "hist_max (hist @ [q]) = max q (hist_max hist)"
  by (simp add: hist_max_def max.commute)

lemma hist_max_ge: "q \<in> set hist \<Longrightarrow> q \<le> hist_max hist"
  by (induction hist rule: rev_induct) (auto simp: le_max_iff_disj)

lemma window_of_init: "window_of n [] (ReplayWindow_init n)"
  by (simp add: window_of_def ReplayWindow_init_def rw_inv_def hist_max_def)

lemma contains_history: "window_of n hist w \<Longrightarrow> rw_contains w q \<longleftrightarrow> hist_rejects n hist q"
  by (auto simp: window_of_def hist_rejects_def rw_contains_def isTooOld_def rw_inv_def)

lemma remember_contained [simp]: "rw_contains w q \<Longrightarrow> remember q w = w"
  by (simp add: remember_def)

lemma remember_fields:
  assumes "\<not> rw_contains w q" and "rw_inv w"
  shows "rw_window (remember q w) = rw_window w"
    and "rw_maxSeen (remember q w) = max q (rw_maxSeen w)"
    and "rw_order (remember q w) =
      (if length (rw_order w) + 1 > unat (rw_window w) then tl (rw_order w @ [q]) else rw_order w @ [q])"
    and "rw_seen (remember q w) = set (rw_order (remember q w))"
proof -
  have "q \<notin> set (rw_order w)" and seen: "rw_seen w = set (rw_order w)"
    and "distinct (rw_order w)"
    using assms by (auto simp: rw_contains_def rw_inv_def)
  then have "distinct (rw_order w @ [q])" by simp
  then have hd_tl: "set (rw_order w @ [q]) - {hd (rw_order w @ [q])} = set (tl (rw_order w @ [q]))"
    by (cases "rw_order w") auto
  show "rw_window (remember q w) = rw_window w"
    and "rw_maxSeen (remember q w) = max q (rw_maxSeen w)"
    and "rw_order (remember q w) =
      (if length (rw_order w) + 1 > unat (rw_window w) then tl (rw_order w @ [q]) else rw_order w @ [q])"
    using assms(1) by (auto simp: remember_def Let_def evictOldestIfFull_def max_def)
  show "rw_seen (remember q w) = set (rw_order (remember q w))"
    using assms(1) hd_tl by (auto simp: remember_def Let_def evictOldestIfFull_def seen)
qed

lemma rw_inv_remember: 
  assumes "rw_inv w" shows "rw_inv (remember q w)"
proof (cases "rw_contains w q")
  case True
  with assms show ?thesis by simp
next
  case False
  let ?xs = "rw_order w @ [q]" and ?w' = "remember q w"
  note new = remember_fields [OF False assms]
  have "distinct ?xs" and bound: "\<forall>x \<in> set ?xs. x \<le> max q (rw_maxSeen w)"
    and len: "length (rw_order w) \<le> unat (rw_window w)"
    using False assms by (auto simp: rw_contains_def rw_inv_def le_max_iff_disj)
  moreover have "distinct (tl ?xs)" and "set (tl ?xs) \<subseteq> set ?xs"
    using \<open>distinct ?xs\<close> by (auto simp: distinct_tl dest: list.set_sel(2) [rotated])
  ultimately have "distinct (rw_order ?w')" and "set (rw_order ?w') \<subseteq> set ?xs"
    and "length (rw_order ?w') \<le> unat (rw_window w)"
    by (auto simp: new(3))
  with bound show ?thesis by (auto simp: rw_inv_def new(1,2,4))
qed

lemma window_of_remember:
  assumes "window_of n hist w" and "\<not> rw_contains w q"
  shows "window_of n (hist @ [q]) (remember q w)"
proof -
  have inv: "rw_inv w" and fields: "rw_window w = n" "rw_maxSeen w = hist_max hist"
      "rw_order w = lastn (unat n) hist"
    using assms(1) by (simp_all add: window_of_def)
  show ?thesis
    using remember_fields [OF assms(2) inv] rw_inv_remember [OF inv, of q]
    by (simp add: window_of_def fields lastn_snoc)
qed

section \<open>The contract of the frame handler\<close>

locale replay_guard =
  fixes holds :: "'w \<Rightarrow> 'q \<Rightarrow> bool"
    and note_seq :: "'q \<Rightarrow> 'w \<Rightarrow> 'w"
    and invar :: "'w \<Rightarrow> bool"
    and recent :: "'w \<Rightarrow> 'q list"
    and capacity :: "'w \<Rightarrow> nat"
  assumes invar_note: "invar w \<Longrightarrow> invar (note_seq q w)"
    and capacity_note: "invar w \<Longrightarrow> capacity (note_seq q w) = capacity w"
    and note_held: "holds w q \<Longrightarrow> note_seq q w = w"
    and recent_note: "invar w \<Longrightarrow> \<not> holds w q \<Longrightarrow>
      recent (note_seq q w) = lastn (capacity w) (recent w @ [q])"
    and recent_held: "invar w \<Longrightarrow> q \<in> set (recent w) \<Longrightarrow> holds w q"
begin

lemma invar_run: "invar w \<Longrightarrow> invar (fold note_seq qs w)"
  by (induction qs arbitrary: w) (simp_all add: invar_note)

lemma capacity_run: "invar w \<Longrightarrow> capacity (fold note_seq qs w) = capacity w"
  by (induction qs arbitrary: w) (simp_all add: capacity_note invar_note)

text \<open>An element noted \<open>k\<close> steps ago has at most \<open>k\<close> newer ones behind it.\<close>

lemma recent_run:
  assumes "invar w" and "recent w = us @ q # vs" and "length vs + length qs < capacity w"
  shows "\<exists>us' vs'. recent (fold note_seq qs w) = us' @ q # vs'"
  using assms
proof (induction qs arbitrary: w us vs)
  case Nil
  then show ?case by auto
next
  case (Cons p qs)
  have "\<exists>us' vs'. recent (note_seq p w) = us' @ q # vs' \<and> length vs' \<le> length vs + 1"
  proof (cases "holds w p")
    case True
    with Cons.prems(2) show ?thesis
      by (intro exI [of _ us] exI [of _ vs]) (simp add: note_held)
  next
    case False
    let ?d = "length us + length vs + 2 - capacity w"
    have "recent (note_seq p w) = drop ?d us @ q # (vs @ [p])"
      using False Cons.prems by (simp add: recent_note lastn_def)
    then show ?thesis by (metis length_append_singleton Suc_eq_plus1 le_refl)
  qed
  then obtain us' vs' where "recent (note_seq p w) = us' @ q # vs'" "length vs' \<le> length vs + 1"
    by blast
  moreover have "invar (note_seq p w)" and "capacity (note_seq p w) = capacity w"
    using Cons.prems(1) by (simp_all add: invar_note capacity_note)
  ultimately show ?case using Cons.IH [of "note_seq p w" us' vs'] Cons.prems(3) by simp
qed

lemma noted_stays_held:
  assumes "invar w" and "\<not> holds w q" and "length qs < capacity w"
  shows "holds (fold note_seq qs (note_seq q w)) q"
proof -
  let ?w = "note_seq q w"
  have inv: "invar ?w" using assms(1) by (rule invar_note)
  have "0 < capacity w" using assms(3) by simp
  then have "recent ?w = drop (Suc (length (recent w)) - capacity w) (recent w) @ q # []"
    using assms(1,2) by (simp add: recent_note lastn_def)
  then obtain us' vs' where "recent (fold note_seq qs ?w) = us' @ q # vs'"
    using recent_run [OF inv, of _ q "[]" qs] assms(1,3) by (auto simp: capacity_note)
  then show ?thesis using recent_held [OF invar_run [OF inv]] by simp
qed

end

interpretation rwg: replay_guard rw_contains remember rw_inv rw_order "\<lambda>w. unat (rw_window w)"
proof unfold_locales
  fix w q
  show "rw_contains w q \<Longrightarrow> remember q w = w" by simp
  assume inv: "rw_inv w"
  then show "rw_inv (remember q w)" by (rule rw_inv_remember)
  show "unat (rw_window (remember q w)) = unat (rw_window w)"
    using inv by (cases "rw_contains w q") (simp_all add: remember_fields)
  show "q \<in> set (rw_order w) \<Longrightarrow> rw_contains w q"
    using inv by (simp add: rw_contains_def rw_inv_def)
  assume "\<not> rw_contains w q"
  moreover have "length (rw_order w) \<le> unat (rw_window w)" using inv by (simp add: rw_inv_def)
  ultimately show "rw_order (remember q w) = lastn (unat (rw_window w)) (rw_order w @ [q])"
    using inv by (simp add: remember_fields lastn_snoc)
qed

section \<open>Runs\<close>

text \<open>A reader's traffic as the window sees it: the verdict on each number and the final state.\<close>

fun rw_run :: "u64 list \<Rightarrow> ReplayWindow \<Rightarrow> bool list \<times> ReplayWindow" where
  "rw_run [] w = ([], w)"
| "rw_run (q # qs) w =
     (let (ok, w) = rw_accept q w; (oks, w) = rw_run qs w in (ok # oks, w))"

text \<open>The specification: reject what the history of accepted numbers rejects, extend the
  history by what is accepted.\<close>

fun hist_run :: "u64 \<Rightarrow> u64 list \<Rightarrow> u64 list \<Rightarrow> bool list \<times> u64 list" where
  "hist_run n [] hist = ([], hist)"
| "hist_run n (q # qs) hist =
     (if hist_rejects n hist q then (let (oks, hist) = hist_run n qs hist in (False # oks, hist))
      else (let (oks, hist) = hist_run n qs (hist @ [q]) in (True # oks, hist)))"

lemma rw_run_state: "snd (rw_run qs w) = fold remember qs w"
  by (induction qs arbitrary: w) (simp_all add: rw_accept_def Let_def case_prod_beta)

lemma rw_run_refines:
  "window_of n hist w \<Longrightarrow>
     fst (rw_run qs w) = fst (hist_run n qs hist) \<and>
     window_of n (snd (hist_run n qs hist)) (snd (rw_run qs w))"
proof (induction qs arbitrary: hist w)
  case (Cons q qs)
  show ?case
  proof (cases "rw_contains w q")
    case True
    with Cons show ?thesis
      by (simp add: contains_history rw_accept_def Let_def case_prod_beta)
  next
    case False
    with Cons.prems have "window_of n (hist @ [q]) (remember q w)" by (rule window_of_remember)
    from Cons.IH [OF this] show ?thesis
      using False Cons.prems by (simp add: contains_history rw_accept_def Let_def case_prod_beta)
  qed
qed simp

lemma sorted_gap:
  fixes qs :: "u64 list"
  assumes "sorted_wrt (<) qs" and "i \<le> j" and "j < length qs"
  shows "unat (qs ! i) + (j - i) \<le> unat (qs ! j)"
  using assms(2,3)
proof (induction j rule: dec_induct)
  case (step j)
  then have "qs ! j < qs ! Suc j" using assms(1) by (simp add: sorted_wrt_iff_nth_less)
  with step show ?case by (simp add: word_less_nat_alt)
qed simp

lemma hist_max_sorted:
  "sorted_wrt (<) qs \<Longrightarrow> qs \<noteq> [] \<Longrightarrow> hist_max qs = last qs"
proof (induction qs rule: rev_induct)
  case (snoc q qs)
  show ?case
  proof (cases "qs = []")
    case False
    then have "last qs < q" using snoc.prems by (simp add: sorted_wrt_append)
    moreover have "hist_max qs = last qs" using False snoc by (simp add: sorted_wrt_append)
    ultimately show ?thesis by (simp add: max_def not_le [symmetric])
  qed (simp add: hist_max_def)
qed simp

text \<open>With increasing arrivals, everything in the history is rejected: it is among the last
  \<open>n\<close>, or \<open>n\<close> larger numbers have followed it.\<close>

lemma sorted_history_rejects:
  assumes "sorted_wrt (<) hist" and "q \<in> set hist" and "0 < n"
  shows "hist_rejects n hist q"
proof -
  let ?L = "length hist" and ?m = "unat n"
  obtain i where i: "i < ?L" "q = hist ! i" using assms(2) by (metis in_set_conv_nth)
  show ?thesis
  proof (cases "?L - ?m \<le> i")
    case True
    with i have "q = lastn ?m hist ! (i - (?L - ?m))" and "i - (?L - ?m) < length (lastn ?m hist)"
      by (simp_all add: lastn_def)
    then show ?thesis by (simp add: hist_rejects_def del: length_lastn)
  next
    case False
    have "hist_max hist = hist ! (?L - 1)"
      using i assms(1) hist_max_sorted [of hist] by (cases "hist = []") (simp_all add: last_conv_nth)
    then have gap: "unat q + (?L - 1 - i) \<le> unat (hist_max hist)"
      using sorted_gap [OF assms(1), of i "?L - 1"] i by simp
    moreover have "?m \<le> ?L - 1 - i" using False by simp
    ultimately have le: "unat q + ?m \<le> unat (hist_max hist)" by simp
    then have "n \<le> hist_max hist" by (simp add: word_le_nat_alt)
    moreover from this le have "q \<le> hist_max hist - n"
      by (simp add: word_le_nat_alt unat_sub)
    moreover have "hist_max hist \<noteq> 0" using assms(3) le by (auto simp: word_less_nat_alt)
    ultimately show ?thesis by (simp add: hist_rejects_def)
  qed
qed

lemma sorted_run_accepts:
  assumes "sorted_wrt (<) (hist @ qs)"
  shows "hist_run n qs hist = (replicate (length qs) True, hist @ qs)"
  using assms
proof (induction qs arbitrary: hist)
  case (Cons q qs)
  have above: "\<forall>x \<in> set hist. x < q" using Cons.prems by (auto simp: sorted_wrt_append)
  have "\<not> hist_rejects n hist q"
  proof (cases "hist = []")
    case True
    then show ?thesis by (simp add: hist_rejects_def hist_max_def)
  next
    case False
    then have "hist_max hist < q"
      using Cons.prems above hist_max_sorted [of hist] by (simp add: sorted_wrt_append last_in_set)
    moreover have "hist_max hist - n \<le> hist_max hist" if "n \<le> hist_max hist"
      using that by (simp add: word_le_nat_alt unat_sub)
    moreover have "q \<notin> set (lastn (unat n) hist)"
      using above set_lastn_subset [of "unat n" hist] by auto
    ultimately show ?thesis by (auto simp: hist_rejects_def)
  qed
  moreover have "sorted_wrt (<) ((hist @ [q]) @ qs)" using Cons.prems by simp
  ultimately show ?case using Cons.IH [of "hist @ [q]"] by simp
qed simp

section \<open>Properties\<close>

text \<open>
  C23: on any traffic the implementation with its hash set, queue and maximum gives exactly the
  verdicts of the specification over the history of accepted numbers: reject a number that is not
  above the largest accepted one minus the window, or that is one of the last \<open>window\<close> accepted;
  accept every other. The state afterwards stands for the new history.
\<close>

theorem replay_window_refines_history:
  "fst (rw_run qs (ReplayWindow_init n)) = fst (hist_run n qs []) \<and>
   window_of n (snd (hist_run n qs [])) (snd (rw_run qs (ReplayWindow_init n)))"
  by (rule rw_run_refines [OF window_of_init])

text \<open>
  A number the window accepts is rejected at least until \<open>window\<close> further numbers have been
  presented, in whatever order and of whatever size those are.
\<close>

theorem recent_replay_rejected:
  assumes "rw_inv w" and "rw_accept q w = (True, w')" and "length qs < unat (rw_window w)"
  shows "\<not> fst (rw_accept q (snd (rw_run qs w')))"
proof -
  have "\<not> rw_contains w q" and "w' = remember q w"
    using assms(2) by (auto simp: rw_accept_def split: if_splits)
  with assms rwg.noted_stays_held [of w q qs] show ?thesis
    by (simp add: rw_run_state rw_accept_def)
qed

theorem recent_replay_rejected_witness:
  "\<not> fst (rw_accept 10 (snd (rw_run [7, 900, 12] (remember 10 (ReplayWindow_init 4)))))"
  by (rule recent_replay_rejected [of "ReplayWindow_init 4"])
    (simp_all add: ReplayWindow_init_def rw_inv_def rw_accept_def rw_contains_def isTooOld_def)

lemma increasing_accepted:
  assumes "sorted_wrt (<) qs"
  shows "fst (rw_run qs (ReplayWindow_init n)) = replicate (length qs) True"
  using rw_run_refines [OF window_of_init [of n], of qs] sorted_run_accepts [of "[]" qs n] assms by simp

text \<open>
  While a reader's numbers arrive in strictly increasing order, none is ever accepted twice:
  every number is accepted once, and afterwards each of them, however old, is rejected.
\<close>

theorem increasing_never_replayed:
  assumes "sorted_wrt (<) qs" and "0 < n" and "q \<in> set qs"
  shows "fst (rw_run qs (ReplayWindow_init n)) = replicate (length qs) True \<and>
    \<not> fst (rw_accept q (snd (rw_run qs (ReplayWindow_init n))))"
proof -
  have run: "hist_run n qs [] = (replicate (length qs) True, qs)"
    using sorted_run_accepts [of "[]" qs n] assms(1) by simp
  note ref = rw_run_refines [OF window_of_init [of n], of qs, unfolded run fst_conv snd_conv]
  have "hist_rejects n qs q" using assms by (intro sorted_history_rejects) simp_all
  with contains_history [OF conjunct2 [OF ref]] ref show ?thesis by (simp add: rw_accept_def)
qed

theorem increasing_never_replayed_witness:
  "fst (rw_run [3, 5, 700] (ReplayWindow_init 2)) = replicate (length [3, 5, 700 :: u64]) True \<and>
   \<not> fst (rw_accept 3 (snd (rw_run [3, 5, 700] (ReplayWindow_init 2))))"
  by (rule increasing_never_replayed) simp_all

text \<open>
  Once numbers arrive out of order the window does accept a replay. With a window of four,
  after 10, 7, 8, 9, 11 the eviction drops 10 (the oldest insertion) although 10 is still inside
  the window (11 - 4 < 10), and a second 10 is accepted.
\<close>

theorem reordered_replay_accepted:
  "fst (rw_run [10, 7, 8, 9, 11, 10] (ReplayWindow_init 4)) = [True, True, True, True, True, True]"
  by (simp add: rw_accept_def remember_def rw_contains_def isTooOld_def evictOldestIfFull_def
      ReplayWindow_init_def Let_def)

end
