(* ===== verification/Hex_Text.thy ===== *)
theory Hex_Text
  imports Access_Prelude
begin

text \<open>
  Hexadecimal text. The sources have three decoders (\<^verbatim>\<open>key_manager/src/hex_utils.cpp\<close>,
  \<^verbatim>\<open>access_admin/src/http_utils.cpp\<close> and the loose one of \<^verbatim>\<open>service/hw_service.cpp\<close>, which takes
  any other character as 0) and two encoders (\<^verbatim>\<open>CardIdHasher::toHex\<close>, \<^verbatim>\<open>bytesToHex\<close>). The locale
  \<open>hex_digits\<close> is what a digit decoder promises; the round trips are proved in it once.
\<close>

section \<open>Digits\<close>

text \<open>The three decoders share the ranges and differ in what they do with other characters.\<close>

definition hexNibble :: "char \<Rightarrow> u8 result" where
  "hexNibble c =
     (let n = of_char c :: nat in
      if of_char (CHR ''0'') \<le> n \<and> n \<le> of_char (CHR ''9'') then Inr (of_nat (n - of_char (CHR ''0'')))
      else if of_char (CHR ''a'') \<le> n \<and> n \<le> of_char (CHR ''f'') then Inr (of_nat (10 + (n - of_char (CHR ''a''))))
      else if of_char (CHR ''A'') \<le> n \<and> n \<le> of_char (CHR ''F'') then Inr (of_nat (10 + (n - of_char (CHR ''A''))))
      else Inl (InvalidArgument ''hex_utils: invalid hex character''))"

definition http_hexNibble :: "char \<Rightarrow> u8 result" where
  "http_hexNibble c =
     (let n = of_char c :: nat in
      if of_char (CHR ''0'') \<le> n \<and> n \<le> of_char (CHR ''9'') then Inr (of_nat (n - of_char (CHR ''0'')))
      else if of_char (CHR ''a'') \<le> n \<and> n \<le> of_char (CHR ''f'') then Inr (of_nat (10 + (n - of_char (CHR ''a''))))
      else if of_char (CHR ''A'') \<le> n \<and> n \<le> of_char (CHR ''F'') then Inr (of_nat (10 + (n - of_char (CHR ''A''))))
      else Inl (RuntimeError ''invalid hex char''))"

definition hw_hexNibble :: "char \<Rightarrow> u8" where
  "hw_hexNibble c =
     (let n = of_char c :: nat in
      if of_char (CHR ''0'') \<le> n \<and> n \<le> of_char (CHR ''9'') then of_nat (n - of_char (CHR ''0''))
      else if of_char (CHR ''a'') \<le> n \<and> n \<le> of_char (CHR ''f'') then of_nat (10 + (n - of_char (CHR ''a'')))
      else if of_char (CHR ''A'') \<le> n \<and> n \<le> of_char (CHR ''F'') then of_nat (10 + (n - of_char (CHR ''A'')))
      else 0)"

definition kHexChars :: string where "kHexChars = ''0123456789abcdef''"

section \<open>Decoding and encoding\<close>

text \<open>\<^verbatim>\<open>std::isspace\<close> in the C locale.\<close>

definition isspace :: "char \<Rightarrow> bool" where
  "isspace c \<longleftrightarrow> (let n = of_char c :: nat in n = 32 \<or> 9 \<le> n \<and> n \<le> 13)"

text \<open>The loop over pairs of digits, most significant first. It is only entered on text of even
  length.\<close>

fun hexPairs :: "(char \<Rightarrow> u8 result) \<Rightarrow> string \<Rightarrow> bytes result" where
  "hexPairs nib (a # b # rest) =
     bindR (nib a) (\<lambda>hi. bindR (nib b) (\<lambda>lo.
       bindR (hexPairs nib rest) (\<lambda>out. Inr ((push_bit 4 hi OR lo) # out))))"
| "hexPairs nib _ = Inr []"

definition kMasterKeySize :: nat where "kMasterKeySize = 32"
definition kMasterKeyHexChars :: nat where "kMasterKeyHexChars = kMasterKeySize * 2"

definition parseHex :: "string \<Rightarrow> bytes result" where
  "parseHex s =
     (let hex = filter (\<lambda>ch. \<not> isspace ch) s in
      if length hex \<noteq> kMasterKeyHexChars
      then Inl (InvalidArgument (''hex_utils: expected '' @ nat_to_string kMasterKeyHexChars @
             '' hex chars, got '' @ nat_to_string (length hex)))
      else hexPairs hexNibble hex)"

definition hexToBytes :: "string \<Rightarrow> bytes result" where
  "hexToBytes hex =
     (let s = filter (\<lambda>c. \<not> isspace c) hex in
      if length s mod 2 \<noteq> 0 then Inl (RuntimeError ''hex odd length'')
      else hexPairs http_hexNibble s)"

fun looseHexPairs :: "string \<Rightarrow> bytes" where
  "looseHexPairs (a # b # rest) = (push_bit 4 (hw_hexNibble a) OR hw_hexNibble b) # looseHexPairs rest"
| "looseHexPairs _ = []"

definition hexToBytesLoose :: "string \<Rightarrow> bytes" where
  "hexToBytesLoose hex = (if length hex mod 2 \<noteq> 0 then [] else looseHexPairs hex)"

text \<open>Both encoders fill a string of twice the length, digit by digit.\<close>

definition hexDigits :: "u8 \<Rightarrow> string" where
  "hexDigits b = [kHexChars ! unat (drop_bit 4 b AND 0x0F), kHexChars ! unat (b AND 0x0F)]"

definition toHex :: "bytes \<Rightarrow> string" where
  "toHex data = concat (map hexDigits data)"

definition bytesToHex :: "bytes \<Rightarrow> string" where
  "bytesToHex v = concat (map hexDigits v)"

section \<open>Round trips\<close>

lemma unat_nibble_less: "unat (b AND 0x0F :: u8) < 16"
proof -
  have "unat (b AND 0x0F) \<le> unat (0x0F :: u8)"
    by (metis word_and_le1 word_le_nat_alt)
  then show ?thesis by simp
qed

lemma nibbles_join: "push_bit 4 (drop_bit 4 b AND 0x0F) OR (b AND 0x0F) = (b :: u8)"
proof -
  have mask: "(0x0F :: u8) = mask 4" by (simp add: mask_eq_exp_minus_1)
  show ?thesis unfolding mask
    by (rule bit_word_eqI) (auto simp: bit_simps)
qed

lemma less_16_cases:
  "n < 16 \<Longrightarrow> n \<in> {0, 1, 2, 3, 4, 5, 6, 7, 8, 9, 10, 11, 12, 13, 14, 15 :: nat}"
  by (simp only: insert_iff empty_iff) presburger

lemma kHexChars_not_space: "n < 16 \<Longrightarrow> \<not> isspace (kHexChars ! n)"
  using less_16_cases [of n] by (auto simp: kHexChars_def isspace_def)

lemma length_toHex [simp]: "length (toHex bs) = 2 * length bs"
  by (induction bs) (simp_all add: toHex_def hexDigits_def)

lemma bytesToHex_eq: "bytesToHex = toHex"
  by (simp add: fun_eq_iff bytesToHex_def toHex_def)

lemma toHex_no_space: "filter (\<lambda>c. \<not> isspace c) (toHex bs) = toHex bs"
  using kHexChars_not_space [OF unat_nibble_less]
  by (induction bs) (simp_all add: toHex_def hexDigits_def)

lemma kHexChars_not_nul: "n < 16 \<Longrightarrow> kHexChars ! n \<noteq> nul"
  using less_16_cases [of n] by (auto simp: kHexChars_def nul_def char_of_def)

lemma nul_notin_toHex: "nul \<notin> set (toHex bs)"
  using kHexChars_not_nul [OF unat_nibble_less, THEN not_sym]
  by (induction bs) (simp_all add: toHex_def hexDigits_def)

locale hex_digits =
  fixes nib :: "char \<Rightarrow> u8 result"
  assumes digit_value: "n < 16 \<Longrightarrow> nib (kHexChars ! n) = Inr (of_nat n)"
begin

lemma nib_of_word: "nib (kHexChars ! unat (b AND 0x0F)) = Inr (b AND 0x0F)"
  using digit_value [OF unat_nibble_less, of b] by simp

lemma hexPairs_toHex: "hexPairs nib (toHex bs) = Inr bs"
proof (induction bs)
  case (Cons b bs)
  have "hexPairs nib (toHex (b # bs)) = Inr ((push_bit 4 (drop_bit 4 b AND 0x0F) OR (b AND 0x0F)) # bs)"
    using Cons by (simp add: toHex_def hexDigits_def nib_of_word)
  then show ?case by (simp only: nibbles_join)
qed (simp add: toHex_def)

lemma toHex_inject: "toHex xs = toHex ys \<longleftrightarrow> xs = ys"
  by (metis hexPairs_toHex sum.inject(2))

end

interpretation km_hex: hex_digits hexNibble
proof unfold_locales
  fix n :: nat assume "n < 16"
  then show "hexNibble (kHexChars ! n) = Inr (of_nat n)"
    using less_16_cases [of n] by (auto simp: hexNibble_def kHexChars_def)
qed

interpretation http_hex: hex_digits http_hexNibble
proof unfold_locales
  fix n :: nat assume "n < 16"
  then show "http_hexNibble (kHexChars ! n) = Inr (of_nat n)"
    using less_16_cases [of n] by (auto simp: http_hexNibble_def kHexChars_def)
qed

interpretation hw_hex: hex_digits "\<lambda>c. Inr (hw_hexNibble c)"
proof unfold_locales
  fix n :: nat assume "n < 16"
  then show "Inr (hw_hexNibble (kHexChars ! n)) = Inr (of_nat n)"
    using less_16_cases [of n] by (auto simp: hw_hexNibble_def kHexChars_def)
qed

lemma looseHexPairs_eq: "hexPairs (\<lambda>c. Inr (hw_hexNibble c)) s = Inr (looseHexPairs s)"
  by (induction s rule: looseHexPairs.induct) simp_all

lemma hexToBytesLoose_toHex: "hexToBytesLoose (toHex bs) = bs"
  using hw_hex.hexPairs_toHex [of bs] by (simp add: looseHexPairs_eq hexToBytesLoose_def)

lemma length_looseHexPairs: "length (looseHexPairs s) = length s div 2"
  by (induction s rule: looseHexPairs.induct) simp_all

section \<open>Properties\<close>

text \<open>
  Hexadecimal text is decoded to the bytes it was made from by each of the three decoders:
  the admin endpoint's on any bytes, the loose one of the hardware endpoint on any bytes, and the
  key file parser exactly on 32 of them.
\<close>

theorem hex_roundtrip:
  "hexToBytes (bytesToHex bs) = Inr bs \<and> hexToBytesLoose (toHex bs) = bs \<and>
   parseHex (toHex bs) =
     (if length bs = 32 then Inr bs
      else Inl (InvalidArgument (''hex_utils: expected '' @ nat_to_string 64 @
             '' hex chars, got '' @ nat_to_string (2 * length bs))))"
  by (simp add: hexToBytes_def parseHex_def Let_def bytesToHex_eq toHex_no_space
      kMasterKeyHexChars_def kMasterKeySize_def km_hex.hexPairs_toHex http_hex.hexPairs_toHex
      hexToBytesLoose_toHex)

text \<open>
  The hardware endpoint's decoder is not strict: text that is not hexadecimal decodes as if
  every other character were a zero digit. Any number of pairs of letters \<open>z\<close> gives that many zero
  bytes (so 64 of them are accepted as a 32-byte key), where the admin endpoint's decoder rejects
  the text.
\<close>

theorem loose_hex_accepts_any_text:
  "hexToBytesLoose (replicate (2 * n) (CHR ''z'')) = replicate n 0 \<and>
   hexToBytes (replicate (2 * Suc n) (CHR ''z'')) = Inl (RuntimeError ''invalid hex char'')"
proof -
  have "looseHexPairs (replicate (2 * n) (CHR ''z'')) = replicate n 0" for n
    by (induction n) (simp_all add: hw_hexNibble_def)
  moreover have "filter (\<lambda>c. \<not> isspace c) (replicate m (CHR ''z'')) = replicate m (CHR ''z'')" for m
    by (simp add: isspace_def)
  moreover have "hexPairs http_hexNibble (replicate (2 * Suc n) (CHR ''z'')) =
      Inl (RuntimeError ''invalid hex char'')"
    by (simp add: http_hexNibble_def)
  ultimately show ?thesis by (simp only: hexToBytesLoose_def hexToBytes_def Let_def length_replicate) simp
qed

end
