(* ===== verification/Crypto_Hkdf.thy ===== *)
theory Crypto_Hkdf
  imports Wire_Codec
begin

text \<open>
  \<^verbatim>\<open>crypto_lib/src/crypto_utils.cpp\<close> and \<^verbatim>\<open>hkdf.cpp\<close>. The primitives of libsodium are the
  parameter \<open>sodium\<close>; \<open>sodium_spec\<close> collects what its documentation promises. The HKDF object is
  modelled field by field and shown to compute the key derivation function of RFC 5869.
\<close>

section \<open>libsodium\<close>

text \<open>
  \<open>so_hmac key message\<close> is HMAC-SHA-256. The detached AEAD calls take key, nonce, additional data
  and plaintext and give the return code, ciphertext, tag and tag length; the decryption calls
  take the tag as well and give the return code and the plaintext buffer.
\<close>

record sodium =
  so_hmac :: "bytes \<Rightarrow> bytes \<Rightarrow> bytes"
  so_xchacha_encrypt :: "bytes \<Rightarrow> bytes \<Rightarrow> bytes \<Rightarrow> bytes \<Rightarrow> int \<times> bytes \<times> bytes \<times> nat"
  so_xchacha_decrypt :: "bytes \<Rightarrow> bytes \<Rightarrow> bytes \<Rightarrow> bytes \<Rightarrow> bytes \<Rightarrow> int \<times> bytes"
  so_chacha_encrypt :: "bytes \<Rightarrow> bytes \<Rightarrow> bytes \<Rightarrow> bytes \<Rightarrow> int \<times> bytes \<times> bytes \<times> nat"
  so_chacha_decrypt :: "bytes \<Rightarrow> bytes \<Rightarrow> bytes \<Rightarrow> bytes \<Rightarrow> bytes \<Rightarrow> int \<times> bytes"

text \<open>
  An authenticated cipher as documented: encryption succeeds with a ciphertext of the plaintext's
  length and a 16-byte tag, decryption under the same key, nonce and additional data returns the
  plaintext, and decryption accepts only a ciphertext and tag that encryption would produce.
\<close>

definition aead_spec ::
    "(bytes \<Rightarrow> bytes \<Rightarrow> bytes \<Rightarrow> bytes \<Rightarrow> int \<times> bytes \<times> bytes \<times> nat) \<Rightarrow>
     (bytes \<Rightarrow> bytes \<Rightarrow> bytes \<Rightarrow> bytes \<Rightarrow> bytes \<Rightarrow> int \<times> bytes) \<Rightarrow> bool" where
  "aead_spec enc dec \<longleftrightarrow>
     (\<forall>k n ad m. \<exists>c t. enc k n ad m = (0, c, t, 16) \<and> length c = length m \<and> length t = 16 \<and>
        dec k n ad c t = (0, m)) \<and>
     (\<forall>k n ad c t m. length t = 16 \<longrightarrow> dec k n ad c t = (0, m) \<longrightarrow> enc k n ad m = (0, c, t, 16))"

definition sodium_spec :: "sodium \<Rightarrow> bool" where
  "sodium_spec so \<longleftrightarrow>
     (\<forall>k m. length (so_hmac so k m) = 32) \<and>
     aead_spec (so_xchacha_encrypt so) (so_xchacha_decrypt so) \<and>
     aead_spec (so_chacha_encrypt so) (so_chacha_decrypt so)"

lemma sodium_hmac_length: "sodium_spec so \<Longrightarrow> length (so_hmac so k m) = 32"
  by (simp add: sodium_spec_def)

text \<open>\<^verbatim>\<open>crypto_auth_hmacsha256_BYTES\<close>.\<close>

definition hmac_BYTES :: nat where "hmac_BYTES = 32"

text \<open>The multi-part interface: the state holds the key and the message fed so far, and
  finishing gives the code of the whole message.\<close>

type_synonym hmac_state = "bytes \<times> bytes"

definition hmac_init :: "bytes \<Rightarrow> hmac_state" where
  "hmac_init key = (key, [])"

definition hmac_update :: "bytes \<Rightarrow> hmac_state \<Rightarrow> hmac_state" where
  "hmac_update data st = (fst st, snd st @ data)"

definition hmac_final :: "sodium \<Rightarrow> hmac_state \<Rightarrow> bytes" where
  "hmac_final so st = so_hmac so (fst st) (snd st)"

section \<open>crypto_utils\<close>

definition hmac_sha256 :: "sodium \<Rightarrow> bytes \<Rightarrow> bytes \<Rightarrow> bytes" where
  "hmac_sha256 so key data = hmac_final so (hmac_update data (hmac_init key))"

lemma hmac_sha256_eq [simp]: "hmac_sha256 so key data = so_hmac so key data"
  by (simp add: hmac_sha256_def hmac_final_def hmac_update_def hmac_init_def)

section \<open>HKDF\<close>

text \<open>\<^verbatim>\<open>max_size()\<close> of a vector of bytes where \<^verbatim>\<open>size_t\<close> has 64 bits: \<^verbatim>\<open>reserve\<close> throws
  \<^verbatim>\<open>std::length_error\<close> for more.\<close>

definition kVectorMaxBytes :: u64 where "kVectorMaxBytes = 2 ^ 63 - 1"

record Hkdf =
  hk_ikm :: bytes
  hk_salt :: bytes
  hk_info :: string
  hk_outputLen :: u64
  hk_prk :: bytes
  hk_okm :: bytes
  hk_prevBlock :: bytes

definition hkdf_extract :: "sodium \<Rightarrow> Hkdf \<Rightarrow> Hkdf" where
  "hkdf_extract so hk =
     (if hk_salt hk = []
      then hk\<lparr>hk_prk := hmac_sha256 so (replicate hmac_BYTES 0) (hk_ikm hk)\<rparr>
      else hk\<lparr>hk_prk := hmac_sha256 so (hk_salt hk) (hk_ikm hk)\<rparr>)"

definition Hkdf_init :: "sodium \<Rightarrow> bytes \<Rightarrow> bytes \<Rightarrow> string \<Rightarrow> u64 \<Rightarrow> Hkdf result" where
  "Hkdf_init so ikm salt info outputLen =
     (if outputLen > kVectorMaxBytes then Inl LengthError
      else Inr (hkdf_extract so \<lparr>hk_ikm = ikm, hk_salt = salt, hk_info = info, hk_outputLen = outputLen,
        hk_prk = [], hk_okm = [], hk_prevBlock = []\<rparr>))"

text \<open>In \<^verbatim>\<open>size_t\<close>, where the sum wraps.\<close>

definition computeBlockCount :: "Hkdf \<Rightarrow> u64" where
  "computeBlockCount hk = (hk_outputLen hk + of_nat hmac_BYTES - 1) div of_nat hmac_BYTES"

definition initHmacState :: "Hkdf \<Rightarrow> hmac_state" where
  "initHmacState hk = hmac_init (hk_prk hk)"

definition updateWithPrevBlock :: "Hkdf \<Rightarrow> hmac_state \<Rightarrow> hmac_state" where
  "updateWithPrevBlock hk st =
     (if hk_prevBlock hk \<noteq> [] then hmac_update (hk_prevBlock hk) st else st)"

definition updateWithInfo :: "Hkdf \<Rightarrow> hmac_state \<Rightarrow> hmac_state" where
  "updateWithInfo hk st =
     (if hk_info hk \<noteq> [] then hmac_update (bytes_of_string (hk_info hk)) st else st)"

definition updateWithBlockIndex :: "u64 \<Rightarrow> hmac_state \<Rightarrow> hmac_state" where
  "updateWithBlockIndex blockIndex st = hmac_update [ucast blockIndex] st"

definition finalizeAndAppend :: "sodium \<Rightarrow> hmac_state \<Rightarrow> Hkdf \<Rightarrow> Hkdf" where
  "finalizeAndAppend so st hk =
     (let block = hmac_final so st;
          toCopy = min (of_nat hmac_BYTES) (hk_outputLen hk - of_nat (length (hk_okm hk)))
      in hk\<lparr>hk_prevBlock := block, hk_okm := hk_okm hk @ take (unat toCopy) block\<rparr>)"

definition expandBlock :: "sodium \<Rightarrow> u64 \<Rightarrow> Hkdf \<Rightarrow> Hkdf" where
  "expandBlock so blockIndex hk =
     (let st = initHmacState hk;
          st = updateWithPrevBlock hk st;
          st = updateWithInfo hk st;
          st = updateWithBlockIndex blockIndex st
      in finalizeAndAppend so st hk)"

definition hkdf_derive :: "sodium \<Rightarrow> Hkdf \<Rightarrow> bytes result \<times> Hkdf" where
  "hkdf_derive so hk =
     (let blockCount = computeBlockCount hk in
      if blockCount > 255 then (Inl (InvalidArgument ''Hkdf: outputLen too large''), hk)
      else (let hk = fold (\<lambda>i. expandBlock so (of_nat i)) [1..<Suc (unat blockCount)] hk in (Inr (hk_okm hk), hk)))"

section \<open>RFC 5869\<close>

definition rfc_prk :: "sodium \<Rightarrow> bytes \<Rightarrow> bytes \<Rightarrow> bytes" where
  "rfc_prk so salt ikm = so_hmac so (if salt = [] then replicate 32 0 else salt) ikm"

fun rfc_T :: "sodium \<Rightarrow> bytes \<Rightarrow> bytes \<Rightarrow> nat \<Rightarrow> bytes" where
  "rfc_T so prk info 0 = []"
| "rfc_T so prk info (Suc i) = so_hmac so prk (rfc_T so prk info i @ info @ [of_nat (Suc i)])"

definition rfc_hkdf :: "sodium \<Rightarrow> bytes \<Rightarrow> bytes \<Rightarrow> bytes \<Rightarrow> nat \<Rightarrow> bytes" where
  "rfc_hkdf so ikm salt info L =
     take L (concat (map (rfc_T so (rfc_prk so salt ikm) info) [1..<Suc ((L + 31) div 32)]))"

lemma expandBlock_eq:
  "expandBlock so i hk =
     (let block = so_hmac so (hk_prk hk) (hk_prevBlock hk @ bytes_of_string (hk_info hk) @ [ucast i])
      in hk\<lparr>hk_prevBlock := block,
            hk_okm := hk_okm hk @ take (unat (min 32 (hk_outputLen hk - of_nat (length (hk_okm hk))))) block\<rparr>)"
  by (simp add: expandBlock_def Let_def finalizeAndAppend_def initHmacState_def
      updateWithPrevBlock_def updateWithInfo_def updateWithBlockIndex_def hmac_init_def
      hmac_update_def hmac_final_def hmac_BYTES_def bytes_of_string_def)

lemma take_append_take:
  "take L xs @ take (min (length ys) (L - length (take L xs))) ys = take L (xs @ ys)"
  by (cases "length xs \<le> L") (simp_all add: min_def)

lemma unat_left:
  assumes "n \<le> unat (L :: u64)" shows "unat (min 32 (L - of_nat n)) = min 32 (unat L - n)"
proof -
  have "n < 2 ^ 64" using assms unsigned_less [where ?'a = nat and ?'b = 64, of L] by simp
  then have "unat (of_nat n :: u64) = n" by (simp add: unsigned_of_nat take_bit_nat_eq_self)
  moreover from this have "unat (L - of_nat n) = unat L - n"
    using assms by (simp add: unat_sub word_le_nat_alt)
  ultimately show ?thesis by (simp add: min_def word_le_nat_alt)
qed

text \<open>The state after the first \<open>k\<close> blocks.\<close>

lemma expand_blocks:
  assumes "sodium_spec so" and "hk_okm hk = []" and "hk_prevBlock hk = []"
  defines "T \<equiv> rfc_T so (hk_prk hk) (bytes_of_string (hk_info hk))"
  shows "fold (\<lambda>i. expandBlock so (of_nat i)) [1..<Suc k] hk =
    hk\<lparr>hk_prevBlock := T k, hk_okm := take (unat (hk_outputLen hk)) (concat (map T [1..<Suc k]))\<rparr>"
proof (induction k)
  case 0
  show ?case using assms(2,3) by (simp add: T_def)
next
  case (Suc k)
  let ?L = "hk_outputLen hk" and ?xs = "concat (map T [1..<Suc k])"
  have index: "ucast (of_nat i :: u64) = (of_nat i :: u8)" for i
    by transfer (simp add: take_bit_of_nat)
  have block: "so_hmac so (hk_prk hk) (T k @ bytes_of_string (hk_info hk) @ [of_nat (Suc k)]) = T (Suc k)"
    by (simp add: T_def)
  have len: "length (T (Suc k)) = 32" using sodium_hmac_length [OF assms(1)] by (simp add: T_def)
  have "unat (min 32 (?L - of_nat (length (take (unat ?L) ?xs)))) = min 32 (unat ?L - length (take (unat ?L) ?xs))"
    by (rule unat_left) simp
  with take_append_take [of "unat ?L" ?xs "T (Suc k)"]
  have "take (unat ?L) ?xs @ take (unat (min 32 (?L - of_nat (length (take (unat ?L) ?xs))))) (T (Suc k)) = take (unat ?L) (?xs @ T (Suc k))"
    by (simp only: len)
  with Suc block show ?case by (simp add: expandBlock_eq Let_def index del: length_take of_nat_Suc)
qed

lemma blockCount_eq:
  assumes "L \<le> kVectorMaxBytes" shows "unat ((L + 32 - 1) div 32) = (unat L + 31) div 32"
proof -
  have "unat L < 2 ^ 63"
    using assms by (simp add: kVectorMaxBytes_def word_le_nat_alt)
  then have sum: "unat (L + 31) = unat L + 31" by (subst unat_add_lem [THEN iffD1]) simp_all
  have "L + 32 - 1 = L + 31" by simp
  then have "unat ((L + 32 - 1) div 32) = unat (L + 31) div unat (32 :: u64)"
    by (simp only: unat_div)
  then show ?thesis by (simp only: sum) simp
qed

lemma hkdf_derive_spec:
  assumes "sodium_spec so"
  shows "bindR (Hkdf_init so ikm salt info L) (\<lambda>hk. fst (hkdf_derive so hk)) =
    (if L > kVectorMaxBytes then Inl LengthError
     else if (unat L + 31) div 32 > 255 then Inl (InvalidArgument ''Hkdf: outputLen too large'')
     else Inr (rfc_hkdf so ikm salt (bytes_of_string info) (unat L)))"
proof (cases "L > kVectorMaxBytes")
  case False
  define hk where "hk = hkdf_extract so \<lparr>hk_ikm = ikm, hk_salt = salt, hk_info = info, hk_outputLen = L,
    hk_prk = [], hk_okm = [], hk_prevBlock = []\<rparr>"
  have fields: "hk_okm hk = []" "hk_prevBlock hk = []" "hk_outputLen hk = L" "hk_info hk = info"
      "hk_prk hk = rfc_prk so salt ikm"
    by (simp_all add: hk_def hkdf_extract_def rfc_prk_def hmac_BYTES_def)
  have made: "Hkdf_init so ikm salt info L = Inr hk" using False by (simp add: Hkdf_init_def hk_def)
  have count: "unat (computeBlockCount hk) = (unat L + 31) div 32"
    using blockCount_eq [of L] False by (simp add: computeBlockCount_def fields hmac_BYTES_def)
  then have "computeBlockCount hk > 255 \<longleftrightarrow> (unat L + 31) div 32 > 255"
    by (simp add: word_less_nat_alt)
  with expand_blocks [OF assms fields(1,2), of "(unat L + 31) div 32"] False show ?thesis
    by (simp add: made hkdf_derive_def Let_def count fields rfc_hkdf_def)
qed (simp add: Hkdf_init_def)

lemma length_rfc_hkdf:
  assumes "sodium_spec so" shows "length (rfc_hkdf so ikm salt info L) = L"
proof -
  have "length (concat (map (rfc_T so prk info) [1..<Suc k])) = 32 * k" for prk k
    by (induction k) (simp_all add: sodium_hmac_length [OF assms])
  moreover have "L \<le> 32 * ((L + 31) div 32)" by presburger
  ultimately show ?thesis by (simp add: rfc_hkdf_def del: upt_Suc)
qed

text \<open>The 32-byte keys of the system: one block.\<close>

lemma rfc_hkdf_32:
  "sodium_spec so \<Longrightarrow>
     rfc_hkdf so ikm salt info 32 = so_hmac so (rfc_prk so salt ikm) (info @ [1])"
  using sodium_hmac_length [of so] by (simp add: rfc_hkdf_def)

section \<open>Properties\<close>

text \<open>
  C25: the HKDF class computes RFC 5869. For every key material, salt (the empty one included),
  info string and output length \<open>L\<close>, the constructor throws exactly when \<open>L\<close> bytes exceed the size
  of a vector, \<^verbatim>\<open>derive\<close> throws exactly when more than 255 blocks are needed, and otherwise it returns
  the first \<open>L\<close> bytes of \<open>T(1) || T(2) || ...\<close>, which are \<open>L\<close> bytes.
\<close>

theorem hkdf_computes_rfc5869:
  assumes "sodium_spec so"
  shows "bindR (Hkdf_init so ikm salt info L) (\<lambda>hk. fst (hkdf_derive so hk)) =
    (if L > kVectorMaxBytes then Inl LengthError
     else if (unat L + 31) div 32 > 255 then Inl (InvalidArgument ''Hkdf: outputLen too large'')
     else Inr (rfc_hkdf so ikm salt (bytes_of_string info) (unat L))) \<and>
    length (rfc_hkdf so ikm salt (bytes_of_string info) (unat L)) = unat L"
  using hkdf_derive_spec [OF assms] length_rfc_hkdf [OF assms] by blast

text \<open>A concrete instance of the primitives, for the witnesses: a keyed checksum as the code, and
  a cipher that masks nothing and tags with the checksum of everything it authenticates.\<close>

definition toy_sum :: "bytes \<Rightarrow> u8" where
  "toy_sum bs = fold (\<lambda>b acc. acc * 3 + b + 1) bs 7"

definition toy_hmac :: "bytes \<Rightarrow> bytes \<Rightarrow> bytes" where
  "toy_hmac k m = map (\<lambda>i. toy_sum (k @ m) + of_nat i) [0..<32]"

definition toy_encrypt :: "bytes \<Rightarrow> bytes \<Rightarrow> bytes \<Rightarrow> bytes \<Rightarrow> int \<times> bytes \<times> bytes \<times> nat" where
  "toy_encrypt k n ad m = (0, m, replicate 16 (toy_sum (k @ n @ ad @ m)), 16)"

definition toy_decrypt :: "bytes \<Rightarrow> bytes \<Rightarrow> bytes \<Rightarrow> bytes \<Rightarrow> bytes \<Rightarrow> int \<times> bytes" where
  "toy_decrypt k n ad c t =
     (if t = replicate 16 (toy_sum (k @ n @ ad @ c)) then (0, c) else (-1, replicate (length c) 0))"

definition toy_sodium :: sodium where
  "toy_sodium = \<lparr>so_hmac = toy_hmac, so_xchacha_encrypt = toy_encrypt,
     so_xchacha_decrypt = toy_decrypt, so_chacha_encrypt = toy_encrypt,
     so_chacha_decrypt = toy_decrypt\<rparr>"

lemma toy_sodium_spec: "sodium_spec toy_sodium"
  by (auto simp: sodium_spec_def aead_spec_def toy_sodium_def toy_hmac_def toy_encrypt_def
      toy_decrypt_def split: if_splits)

theorem hkdf_computes_rfc5869_witness:
  "bindR (Hkdf_init toy_sodium [1, 2] [] ''info'' 40) (\<lambda>hk. fst (hkdf_derive toy_sodium hk)) =
    (if 40 > kVectorMaxBytes then Inl LengthError
     else if (unat (40 :: u64) + 31) div 32 > 255 then Inl (InvalidArgument ''Hkdf: outputLen too large'')
     else Inr (rfc_hkdf toy_sodium [1, 2] [] (bytes_of_string ''info'') (unat (40 :: u64)))) \<and>
    length (rfc_hkdf toy_sodium [1, 2] [] (bytes_of_string ''info'') (unat (40 :: u64))) = unat (40 :: u64)"
  by (rule hkdf_computes_rfc5869 [OF toy_sodium_spec])

end
