(* ===== verification/Secure_Aead.thy ===== *)
theory Secure_Aead
  imports Crypto_Hkdf
begin

text \<open>
  \<^verbatim>\<open>crypto_lib/src/secure_aead.cpp\<close> (the AEAD wrapper with its two cipher modes) and
  \<^verbatim>\<open>nonce_generator.cpp\<close> (the R0 random and the R1/R2 HMAC nonce strategies). Random bytes are
  arguments. The lemmas show the round trip in both modes, what a successful decryption says about
  its input, and the layout and injectivity of derived nonces.
\<close>

section \<open>The AEAD wrapper\<close>

datatype CipherMode = XChaCha20Poly1305 | ChaCha20Poly1305

type_synonym AeadKey = bytes

record Ciphertext =
  c_ct :: bytes
  c_tag :: bytes
  c_nonce :: bytes

record SecureAead =
  sa_key :: AeadKey
  sa_cipherMode :: CipherMode
  sa_noncePrefix :: bytes

text \<open>\<open>rnd\<close> are the 16 bytes \<^verbatim>\<open>randombytes_buf\<close> draws.\<close>

definition SecureAead_init :: "bytes \<Rightarrow> AeadKey \<Rightarrow> CipherMode \<Rightarrow> SecureAead" where
  "SecureAead_init rnd key mode =
     \<lparr>sa_key = key, sa_cipherMode = mode, sa_noncePrefix = rnd\<rparr>"

definition deriveNonce :: "SecureAead \<Rightarrow> u64 \<Rightarrow> bytes" where
  "deriveNonce sa sq =
     (let nonce = replicate 24 0 in
      if sa_cipherMode sa = XChaCha20Poly1305
      then memcpy_at (memcpy_at nonce 0 (take 16 (sa_noncePrefix sa))) 16 (le64 sq)
      else memcpy_at (memcpy_at nonce 0 (take 4 (sa_noncePrefix sa))) 4 (le64 sq))"

definition encryptDetached ::
    "sodium \<Rightarrow> SecureAead \<Rightarrow> bytes \<Rightarrow> bytes \<Rightarrow> bytes \<Rightarrow> (bytes \<times> bytes) result" where
  "encryptDetached so sa plaintext aad nonce =
     (let (rc, ct, mac, maclen) =
        (if sa_cipherMode sa = XChaCha20Poly1305
         then so_xchacha_encrypt so (sa_key sa) (take 24 nonce) aad plaintext
         else so_chacha_encrypt so (sa_key sa) (take 12 nonce) aad plaintext)
      in if rc \<noteq> 0 then Inl (RuntimeError ''AEAD encrypt failed'')
         else if maclen \<noteq> 16 then Inl (RuntimeError ''AEAD tag size mismatch'')
         else Inr (ct, mac))"

definition decryptDetached ::
    "sodium \<Rightarrow> SecureAead \<Rightarrow> bytes \<Rightarrow> bytes \<Rightarrow> bytes \<Rightarrow> bytes \<Rightarrow> bytes result" where
  "decryptDetached so sa ct tag aad nonce =
     (let (rc, out) =
        (if sa_cipherMode sa = XChaCha20Poly1305
         then so_xchacha_decrypt so (sa_key sa) (take 24 nonce) aad ct tag
         else so_chacha_decrypt so (sa_key sa) (take 12 nonce) aad ct tag)
      in if rc \<noteq> 0 then Inl (RuntimeError ''AEAD auth failed'') else Inr out)"

definition sealWithSeq ::
    "sodium \<Rightarrow> SecureAead \<Rightarrow> bytes \<Rightarrow> bytes \<Rightarrow> u64 \<Rightarrow> Ciphertext result" where
  "sealWithSeq so sa plaintext aad sq =
     (let nonce = deriveNonce sa sq in
      bindR (encryptDetached so sa plaintext aad nonce) (\<lambda>(ct, tag).
        Inr \<lparr>c_ct = ct, c_tag = tag, c_nonce = nonce\<rparr>))"

definition sealWithNonce ::
    "sodium \<Rightarrow> SecureAead \<Rightarrow> bytes \<Rightarrow> bytes \<Rightarrow> bytes \<Rightarrow> Ciphertext result" where
  "sealWithNonce so sa plaintext aad nonce =
     bindR (encryptDetached so sa plaintext aad nonce) (\<lambda>(ct, tag).
       Inr \<lparr>c_ct = ct, c_tag = tag, c_nonce = nonce\<rparr>)"

definition openWithNonce ::
    "sodium \<Rightarrow> SecureAead \<Rightarrow> bytes \<Rightarrow> bytes \<Rightarrow> bytes \<Rightarrow> bytes \<Rightarrow> bytes result" where
  "openWithNonce so sa ct tag aad nonce = decryptDetached so sa ct tag aad nonce"

section \<open>Nonce generators\<close>

definition nonceLenFor :: "CipherMode \<Rightarrow> nat" where
  "nonceLenFor mode = (if mode = XChaCha20Poly1305 then 24 else 12)"

text \<open>\<open>rnd\<close> are the bytes drawn for the nonce; only the first \<^verbatim>\<open>_nonceLen\<close> are used.\<close>

definition RandomNonceGenerator_generate :: "CipherMode \<Rightarrow> bytes \<Rightarrow> bytes" where
  "RandomNonceGenerator_generate mode rnd =
     memcpy_at (replicate 24 0) 0 (take (nonceLenFor mode) rnd)"

definition HmacNonceGenerator_generate :: "sodium \<Rightarrow> AeadKey \<Rightarrow> CipherMode \<Rightarrow> bytes \<Rightarrow> bytes" where
  "HmacNonceGenerator_generate so nonceKey mode context =
     (let mac = so_hmac so nonceKey context
      in memcpy_at (replicate 24 0) 0 (take (nonceLenFor mode) mac))"

section \<open>Behaviour\<close>

text \<open>The cipher a mode selects, and its law.\<close>

definition mode_encrypt :: "sodium \<Rightarrow> CipherMode \<Rightarrow> bytes \<Rightarrow> bytes \<Rightarrow> bytes \<Rightarrow> bytes \<Rightarrow> int \<times> bytes \<times> bytes \<times> nat" where
  "mode_encrypt so mode = (case mode of XChaCha20Poly1305 \<Rightarrow> so_xchacha_encrypt so
     | ChaCha20Poly1305 \<Rightarrow> so_chacha_encrypt so)"

definition mode_decrypt :: "sodium \<Rightarrow> CipherMode \<Rightarrow> bytes \<Rightarrow> bytes \<Rightarrow> bytes \<Rightarrow> bytes \<Rightarrow> bytes \<Rightarrow> int \<times> bytes" where
  "mode_decrypt so mode = (case mode of XChaCha20Poly1305 \<Rightarrow> so_xchacha_decrypt so
     | ChaCha20Poly1305 \<Rightarrow> so_chacha_decrypt so)"

lemma mode_spec: "sodium_spec so \<Longrightarrow> aead_spec (mode_encrypt so mode) (mode_decrypt so mode)"
  by (cases mode) (simp_all add: sodium_spec_def mode_encrypt_def mode_decrypt_def)

lemma encryptDetached_mode:
  "encryptDetached so sa pt aad nonce =
     (case mode_encrypt so (sa_cipherMode sa) (sa_key sa)
        (take (nonceLenFor (sa_cipherMode sa)) nonce) aad pt of
        (rc, ct, mac, maclen) \<Rightarrow>
          if rc \<noteq> 0 then Inl (RuntimeError ''AEAD encrypt failed'')
          else if maclen \<noteq> 16 then Inl (RuntimeError ''AEAD tag size mismatch'')
          else Inr (ct, mac))"
  by (cases "sa_cipherMode sa") (simp_all add: encryptDetached_def mode_encrypt_def nonceLenFor_def)

lemma decryptDetached_mode:
  "decryptDetached so sa ct tag aad nonce =
     (case mode_decrypt so (sa_cipherMode sa) (sa_key sa)
        (take (nonceLenFor (sa_cipherMode sa)) nonce) aad ct tag of
        (rc, out) \<Rightarrow> if rc \<noteq> 0 then Inl (RuntimeError ''AEAD auth failed'') else Inr out)"
  by (cases "sa_cipherMode sa") (simp_all add: decryptDetached_def mode_decrypt_def nonceLenFor_def)

lemma sealWithNonce_ok:
  assumes "sodium_spec so"
  shows "\<exists>ct tag. sealWithNonce so sa pt aad nonce = Inr \<lparr>c_ct = ct, c_tag = tag, c_nonce = nonce\<rparr> \<and>
    length ct = length pt \<and> length tag = 16 \<and> openWithNonce so sa ct tag aad nonce = Inr pt"
proof -
  obtain ct tag where "mode_encrypt so (sa_cipherMode sa) (sa_key sa)
        (take (nonceLenFor (sa_cipherMode sa)) nonce) aad pt = (0, ct, tag, 16)"
    "length ct = length pt" "length tag = 16"
    "mode_decrypt so (sa_cipherMode sa) (sa_key sa)
        (take (nonceLenFor (sa_cipherMode sa)) nonce) aad ct tag = (0, pt)"
    using mode_spec [OF assms, of "sa_cipherMode sa"] unfolding aead_spec_def by metis
  then show ?thesis
    by (simp add: sealWithNonce_def openWithNonce_def encryptDetached_mode decryptDetached_mode)
qed

lemma open_sealed:
  assumes "sodium_spec so" and "length tag = 16" and "openWithNonce so sa ct tag aad nonce = Inr pt"
  shows "sealWithNonce so sa pt aad nonce = Inr \<lparr>c_ct = ct, c_tag = tag, c_nonce = nonce\<rparr>"
proof -
  have "mode_decrypt so (sa_cipherMode sa) (sa_key sa)
      (take (nonceLenFor (sa_cipherMode sa)) nonce) aad ct tag = (0, pt)"
    using assms(3) by (auto simp: openWithNonce_def decryptDetached_mode split: prod.splits if_splits)
  with mode_spec [OF assms(1), of "sa_cipherMode sa"] assms(2)
  have "mode_encrypt so (sa_cipherMode sa) (sa_key sa)
      (take (nonceLenFor (sa_cipherMode sa)) nonce) aad pt = (0, ct, tag, 16)"
    unfolding aead_spec_def by blast
  then show ?thesis by (simp add: sealWithNonce_def encryptDetached_mode)
qed

text \<open>Nonces: 24 bytes, of which those past the effective length are zero.\<close>

lemma nonceLenFor_le [simp]: "nonceLenFor mode \<le> 24"
  by (simp add: nonceLenFor_def)

lemma length_HmacNonce [simp]:
  "sodium_spec so \<Longrightarrow> length (HmacNonceGenerator_generate so k mode ctx) = 24"
  by (simp add: HmacNonceGenerator_generate_def sodium_hmac_length nonceLenFor_def Let_def)

lemma take_HmacNonce:
  "sodium_spec so \<Longrightarrow> take (nonceLenFor mode) (HmacNonceGenerator_generate so k mode ctx) =
     take (nonceLenFor mode) (so_hmac so k ctx)"
  by (simp add: HmacNonceGenerator_generate_def sodium_hmac_length nonceLenFor_def Let_def memcpy_at_def)

lemma length_RandomNonce [simp]:
  "length (RandomNonceGenerator_generate mode rnd) = 24"
  by (simp add: RandomNonceGenerator_generate_def nonceLenFor_def)

lemma deriveNonce_layout:
  assumes "length (sa_noncePrefix sa) = 16"
  shows "deriveNonce sa sq =
    (if sa_cipherMode sa = XChaCha20Poly1305 then sa_noncePrefix sa @ le64 sq
     else take 4 (sa_noncePrefix sa) @ le64 sq @ replicate 12 0)"
  using assms by (simp add: deriveNonce_def Let_def memcpy_at_def)

lemma seal_opens:
  assumes "sodium_spec so"
    and "sealWithNonce so sa pt aad nonce = Inr \<lparr>c_ct = ct, c_tag = tag, c_nonce = nonce\<rparr>"
  shows "openWithNonce so sa ct tag aad nonce = Inr pt"
  using sealWithNonce_ok [OF assms(1), of sa pt aad nonce] assms(2) by auto

section \<open>Properties\<close>

text \<open>
  Counter nonces never repeat. Within one AEAD object (one random prefix) the nonces derived
  from two sequence numbers have the same effective bytes if and only if the numbers are equal, in
  both cipher modes.
\<close>

theorem derived_nonces_distinct:
  assumes "length (sa_noncePrefix sa) = 16"
  shows "take (nonceLenFor (sa_cipherMode sa)) (deriveNonce sa p) =
      take (nonceLenFor (sa_cipherMode sa)) (deriveNonce sa q) \<longleftrightarrow> p = q"
  using assms
  by (cases "sa_cipherMode sa") (simp_all add: deriveNonce_layout nonceLenFor_def le64_eq codec_simps)

theorem derived_nonces_distinct_witness:
  "take (nonceLenFor (sa_cipherMode (SecureAead_init (replicate 16 9) [] ChaCha20Poly1305)))
      (deriveNonce (SecureAead_init (replicate 16 9) [] ChaCha20Poly1305) 5) =
   take (nonceLenFor (sa_cipherMode (SecureAead_init (replicate 16 9) [] ChaCha20Poly1305)))
      (deriveNonce (SecureAead_init (replicate 16 9) [] ChaCha20Poly1305) 6) \<longleftrightarrow> (5 :: u64) = 6"
  by (rule derived_nonces_distinct) (simp add: SecureAead_init_def)

end
