(* ===== verification/Key_Manager.thy ===== *)
theory Key_Manager
  imports Hex_Text Secure_Aead
begin

text \<open>
  \<^verbatim>\<open>key_manager/src/key_manager.cpp\<close>: the keys of the system, all derived from one master key by
  HKDF. The purposes of a key (frame encryption and nonces per reader and version, card pepper per
  version, audit chain) are collected in one datatype, over which domain separation is stated.
\<close>

section \<open>The class\<close>

record KeyManagerConfig =
  kc_currentKeyVersion :: u32
  kc_allowPreviousKeyVersion :: bool

record KeyManager =
  km_masterKey :: bytes
  km_cfg :: KeyManagerConfig

definition kAeadKeyInfo :: string where "kAeadKeyInfo = ''access-aead-v1''"
definition kCardPepperInfo :: string where "kCardPepperInfo = ''card-pepper-v1''"
definition kNonceKeyInfo :: string where "kNonceKeyInfo = ''nonce-derivation-v1''"
definition kAuditHmacSalt :: string where "kAuditHmacSalt = ''audit-chain-salt-v1''"
definition kAuditHmacInfo :: string where "kAuditHmacInfo = ''audit-hmac-v1''"

definition kAeadKeySize :: nat where "kAeadKeySize = 32"
definition kCardPepperSize :: nat where "kCardPepperSize = 32"
definition kAuditHmacKeySize :: nat where "kAuditHmacKeySize = 32"

definition KeyManager_init :: "bytes \<Rightarrow> KeyManagerConfig \<Rightarrow> KeyManager result" where
  "KeyManager_init masterKey cfg =
     (if kc_currentKeyVersion cfg = 0
      then Inl (InvalidArgument ''KeyManager: currentKeyVersion must be > 0'')
      else Inr \<lparr>km_masterKey = masterKey, km_cfg = cfg\<rparr>)"

text \<open>The file system is a parameter: the content of a file that can be opened.\<close>

definition loadMasterKeyHexFile :: "(string \<Rightarrow> string option) \<Rightarrow> string \<Rightarrow> bytes result" where
  "loadMasterKeyHexFile files path =
     (case files path of
        None \<Rightarrow> Inl (RuntimeError (''loadMasterKeyHexFile: failed to open file: '' @ path))
      | Some content \<Rightarrow> parseHex content)"

definition isAcceptedKeyVersion :: "KeyManager \<Rightarrow> u32 \<Rightarrow> bool" where
  "isAcceptedKeyVersion km keyVersion =
     (if keyVersion = 0 then False
      else if keyVersion = kc_currentKeyVersion (km_cfg km) then True
      else if kc_allowPreviousKeyVersion (km_cfg km) \<and> kc_currentKeyVersion (km_cfg km) > 1 \<and>
              keyVersion + 1 = kc_currentKeyVersion (km_cfg km) then True
      else False)"

definition deriveAeadKey :: "sodium \<Rightarrow> KeyManager \<Rightarrow> u32 \<Rightarrow> u32 \<Rightarrow> AeadKey result" where
  "deriveAeadKey so km readerId keyVersion =
     (let salt = km_putLe32 readerId @ km_putLe32 keyVersion;
          hkdf = Hkdf_init so (km_masterKey km) salt kAeadKeyInfo (of_nat kAeadKeySize)
      in bindR (bindR hkdf (\<lambda>hkdf. fst (hkdf_derive so hkdf))) (\<lambda>okm.
           if length okm \<noteq> kAeadKeySize
           then Inl (RuntimeError ''KeyManager: HKDF returned wrong length'')
           else Inr okm))"

definition deriveCardPepper :: "sodium \<Rightarrow> KeyManager \<Rightarrow> u32 \<Rightarrow> bytes result" where
  "deriveCardPepper so km keyVersion =
     (if keyVersion = 0 then Inl (InvalidArgument ''KeyManager: keyVersion must be > 0'')
      else
        let salt = km_putLe32 keyVersion;
            hkdf = Hkdf_init so (km_masterKey km) salt kCardPepperInfo (of_nat kCardPepperSize)
        in bindR (bindR hkdf (\<lambda>hkdf. fst (hkdf_derive so hkdf))) (\<lambda>okm.
             if length okm \<noteq> kCardPepperSize
             then Inl (RuntimeError ''KeyManager: HKDF wrong length'')
             else Inr okm))"

definition masterAsAeadKey :: "KeyManager \<Rightarrow> AeadKey" where
  "masterAsAeadKey km = km_masterKey km"

definition deriveNonceKey :: "sodium \<Rightarrow> KeyManager \<Rightarrow> u32 \<Rightarrow> u32 \<Rightarrow> AeadKey result" where
  "deriveNonceKey so km readerId keyVersion =
     (let salt = km_putLe32 readerId @ km_putLe32 keyVersion;
          hkdf = Hkdf_init so (km_masterKey km) salt kNonceKeyInfo (of_nat kAeadKeySize)
      in bindR (bindR hkdf (\<lambda>hkdf. fst (hkdf_derive so hkdf))) (\<lambda>okm.
           if length okm \<noteq> kAeadKeySize
           then Inl (RuntimeError ''KeyManager: HKDF returned wrong length (nonce key)'')
           else Inr okm))"

definition deriveAuditHmacKey :: "sodium \<Rightarrow> KeyManager \<Rightarrow> bytes result" where
  "deriveAuditHmacKey so km =
     (let salt = bytes_of_string kAuditHmacSalt;
          hkdf = Hkdf_init so (km_masterKey km) salt kAuditHmacInfo (of_nat kAuditHmacKeySize)
      in bindR (bindR hkdf (\<lambda>hkdf. fst (hkdf_derive so hkdf))) (\<lambda>okm.
           if length okm \<noteq> kAuditHmacKeySize
           then Inl (RuntimeError ''KeyManager: HKDF returned wrong length (audit key)'')
           else Inr okm))"

section \<open>Purposes of a key\<close>

datatype key_purpose =
    FrameKey u32 u32
  | NonceKey u32 u32
  | CardPepper u32
  | AuditKey

fun derive_for :: "sodium \<Rightarrow> KeyManager \<Rightarrow> key_purpose \<Rightarrow> bytes result" where
  "derive_for so km (FrameKey r kv) = deriveAeadKey so km r kv"
| "derive_for so km (NonceKey r kv) = deriveNonceKey so km r kv"
| "derive_for so km (CardPepper kv) = deriveCardPepper so km kv"
| "derive_for so km AuditKey = deriveAuditHmacKey so km"

fun purpose_salt :: "key_purpose \<Rightarrow> bytes" where
  "purpose_salt (FrameKey r kv) = put_le32 r [] @ put_le32 kv []"
| "purpose_salt (NonceKey r kv) = put_le32 r [] @ put_le32 kv []"
| "purpose_salt (CardPepper kv) = put_le32 kv []"
| "purpose_salt AuditKey = bytes_of_string kAuditHmacSalt"

fun purpose_info :: "key_purpose \<Rightarrow> string" where
  "purpose_info (FrameKey r kv) = kAeadKeyInfo"
| "purpose_info (NonceKey r kv) = kNonceKeyInfo"
| "purpose_info (CardPepper kv) = kCardPepperInfo"
| "purpose_info AuditKey = kAuditHmacInfo"

fun purpose_ok :: "key_purpose \<Rightarrow> bool" where
  "purpose_ok (CardPepper kv) \<longleftrightarrow> kv \<noteq> 0"
| "purpose_ok _ \<longleftrightarrow> True"

text \<open>A collision of the message authentication code that an attacker would have to exhibit: two
  different inputs with keys of one length and the same code.\<close>

definition hmac_collision :: "sodium \<Rightarrow> bytes \<times> bytes \<Rightarrow> bytes \<times> bytes \<Rightarrow> bool" where
  "hmac_collision so x y \<longleftrightarrow> x \<noteq> y \<and> length (fst x) = length (fst y) \<and>
     so_hmac so (fst x) (snd x) = so_hmac so (fst y) (snd y)"

lemma derive_32:
  assumes "sodium_spec so"
  shows "bindR (bindR (Hkdf_init so ikm salt info 32) (\<lambda>hkdf. fst (hkdf_derive so hkdf)))
      (\<lambda>okm. if length okm \<noteq> 32 then Inl e else Inr okm) =
    Inr (so_hmac so (rfc_prk so salt ikm) (bytes_of_string info @ [1]))"
  by (simp add: hkdf_derive_spec [OF assms] kVectorMaxBytes_def rfc_hkdf_32 [OF assms] sodium_hmac_length [OF assms])

lemmas key_size_defs = kAeadKeySize_def kCardPepperSize_def kAuditHmacKeySize_def

lemma derive_for_eq:
  assumes "sodium_spec so" and "purpose_ok p"
  shows "derive_for so km p =
    Inr (so_hmac so (rfc_prk so (purpose_salt p) (km_masterKey km)) (bytes_of_string (purpose_info p) @ [1]))"
  using assms(2)
  by (cases p) (simp_all add: deriveAeadKey_def deriveNonceKey_def deriveCardPepper_def
      deriveAuditHmacKey_def Let_def key_size_defs derive_32 [OF assms(1)] km_putLe32_eq)

lemma derive_for_length: "sodium_spec so \<Longrightarrow> derive_for so km p = Inr k \<Longrightarrow> length k = 32"
  by (cases "purpose_ok p")
    (auto simp: derive_for_eq sodium_hmac_length, cases p, auto simp: deriveCardPepper_def)

lemma derive_for_ok: "sodium_spec so \<Longrightarrow> derive_for so km p = Inr k \<Longrightarrow> purpose_ok p"
  by (cases p) (auto simp: deriveCardPepper_def split: if_splits)

lemma purpose_salt_nonempty: "purpose_salt p \<noteq> []"
  by (cases p) (auto simp: put_le32_def kAuditHmacSalt_def bytes_of_string_def)

text \<open>Purposes with one info string have salts of one length, which tell them apart.\<close>

lemma purpose_salt_inject:
  "purpose_info p = purpose_info q \<Longrightarrow>
     length (purpose_salt p) = length (purpose_salt q) \<and> (purpose_salt p = purpose_salt q \<longleftrightarrow> p = q)"
  by (cases p; cases q)
    (simp_all add: kAeadKeyInfo_def kNonceKeyInfo_def kCardPepperInfo_def kAuditHmacInfo_def
      codec_simps)

lemma deriveAeadKey_ok:
  assumes "sodium_spec so" obtains k where "deriveAeadKey so km r kv = Inr k" and "length k = 32"
proof -
  have "purpose_ok (FrameKey r kv)" by simp
  from derive_for_eq [OF assms this, of km] show ?thesis
    using that sodium_hmac_length [OF assms] by simp
qed

lemma deriveNonceKey_ok:
  assumes "sodium_spec so" obtains k where "deriveNonceKey so km r kv = Inr k" and "length k = 32"
proof -
  have "purpose_ok (NonceKey r kv)" by simp
  from derive_for_eq [OF assms this, of km] show ?thesis
    using that sodium_hmac_length [OF assms] by simp
qed

section \<open>Properties\<close>

text \<open>
  C26: keys for different purposes are separated. If the keys derived for two different purposes
  (another kind of key, another reader or another version) come out equal, the two derivations
  themselves are a collision of HMAC-SHA-256: either of the expand step on the two pseudorandom
  keys and info strings, or of the extract step on the two salts. No pair of purposes shares its
  derivation inputs.
\<close>

theorem key_purposes_separated:
  assumes "sodium_spec so" and "p \<noteq> q"
    and "derive_for so km p = Inr k" and "derive_for so km q = Inr k"
  shows "hmac_collision so
      (so_hmac so (purpose_salt p) (km_masterKey km), bytes_of_string (purpose_info p) @ [1])
      (so_hmac so (purpose_salt q) (km_masterKey km), bytes_of_string (purpose_info q) @ [1]) \<or>
    hmac_collision so (purpose_salt p, km_masterKey km) (purpose_salt q, km_masterKey km)"
proof -
  note ok = derive_for_ok [OF assms(1,3)] derive_for_ok [OF assms(1,4)]
  have "so_hmac so (so_hmac so (purpose_salt p) (km_masterKey km)) (bytes_of_string (purpose_info p) @ [1]) =
      so_hmac so (so_hmac so (purpose_salt q) (km_masterKey km)) (bytes_of_string (purpose_info q) @ [1])"
    using assms(3,4) by (simp add: derive_for_eq [OF assms(1)] ok rfc_prk_def purpose_salt_nonempty)
  with purpose_salt_inject [of p q] assms(2) show ?thesis
    by (auto simp: hmac_collision_def sodium_hmac_length [OF assms(1)])
qed

theorem key_purposes_separated_witness:
  "(let km = \<lparr>km_masterKey = replicate 32 0, km_cfg = \<lparr>kc_currentKeyVersion = 1,
        kc_allowPreviousKeyVersion = True\<rparr>\<rparr>;
      so = toy_sodium\<lparr>so_hmac := \<lambda>k m. replicate 32 0\<rparr>
    in hmac_collision so
      (so_hmac so (purpose_salt (FrameKey 1 1)) (km_masterKey km), bytes_of_string (purpose_info (FrameKey 1 1)) @ [1])
      (so_hmac so (purpose_salt AuditKey) (km_masterKey km), bytes_of_string (purpose_info AuditKey) @ [1]) \<or>
    hmac_collision so (purpose_salt (FrameKey 1 1), km_masterKey km) (purpose_salt AuditKey, km_masterKey km))"
proof -
  let ?so = "toy_sodium\<lparr>so_hmac := \<lambda>k m. replicate 32 0\<rparr>"
  have spec: "sodium_spec ?so"
    using toy_sodium_spec by (simp add: sodium_spec_def)
  show ?thesis
    unfolding Let_def
    by (rule key_purposes_separated [OF spec, where k = "replicate 32 0"])
      (simp_all del: derive_for.simps add: derive_for_eq [OF spec])
qed

text \<open>
  A frame's key version is accepted exactly when it is the current one or, where the
  configuration allows it, the one before; version 0 never is, and the 32-bit sum in the test
  does not wrap into acceptance for any key manager the constructor makes.
\<close>

theorem accepted_versions_exact:
  assumes "KeyManager_init mk cfg = Inr km"
  shows "isAcceptedKeyVersion km v \<longleftrightarrow>
    v \<noteq> 0 \<and> (unat v = unat (kc_currentKeyVersion cfg) \<or>
      kc_allowPreviousKeyVersion cfg \<and> unat v + 1 = unat (kc_currentKeyVersion cfg))"
proof -
  have cfg: "km_cfg km = cfg" and cur: "kc_currentKeyVersion cfg \<noteq> 0"
    using assms by (auto simp: KeyManager_init_def split: if_splits)
  have wrap: "v + 1 = c \<longleftrightarrow> unat v + 1 = unat c" if "c \<noteq> 0" for c :: u32
  proof (cases "v + 1 = 0")
    case True
    then have "v = - 1" by (simp add: eq_neg_iff_add_eq_0)
    then have "unat v = 2 ^ 32 - 1"
      by (simp add: unsigned_minus_1_eq_mask mask_eq_exp_minus_1)
    moreover have "unat c < 2 ^ 32" using unsigned_less [of c] by simp
    ultimately show ?thesis using True that by auto
  next
    case False
    then have "unat (v + 1) = unat v + 1"
      by (metis Suc_eq_plus1 unatSuc add.commute)
    then show ?thesis by (metis word_unat_eq_iff)
  qed
  have one: "1 < c \<longleftrightarrow> 1 < unat c" for c :: u32 by (simp add: word_less_nat_alt)
  have "0 < unat v" if "v \<noteq> 0" using that by (simp add: unat_gt_0)
  then show ?thesis
    using wrap [OF cur] by (auto simp: isAcceptedKeyVersion_def cfg one word_unat_eq_iff)
qed

theorem accepted_versions_exact_witness:
  "(let cfg = \<lparr>kc_currentKeyVersion = 5, kc_allowPreviousKeyVersion = True\<rparr>;
        km = \<lparr>km_masterKey = [], km_cfg = cfg\<rparr> in
    isAcceptedKeyVersion km 4 \<longleftrightarrow>
    (4 :: u32) \<noteq> 0 \<and> (unat (4 :: u32) = unat (kc_currentKeyVersion cfg) \<or>
      kc_allowPreviousKeyVersion cfg \<and> unat (4 :: u32) + 1 = unat (kc_currentKeyVersion cfg)))"
  unfolding Let_def by (rule accepted_versions_exact [where mk = "[]"]) (simp add: KeyManager_init_def)

end
