(* ===== verification/Access_Store.thy ===== *)
theory Access_Store
  imports Access_Prelude "HOL-Library.List_Lexorder" "HOL-Library.Char_ord" "HOL-Library.AList"
begin

text \<open>
  \<^verbatim>\<open>access_decision/access_store.hpp\<close> (the interface the engine queries) and
  \<^verbatim>\<open>access_storage/src/sqlite_access_store.cpp\<close>. The database is its four tables of rows; each
  method is its SQL statement's effect on them, with the C++ conversions around it: 32-bit
  identifiers are bound as signed integers, text bound with length -1 ends at the first NUL while
  text bound with its length does not. SQLite itself may fail: every operation takes the status the
  engine gave it, and a failed prepare or step is a branch. The tables refine a policy (maps and
  relations); the locale \<open>keyed_rows\<close> is the contract of a table with a primary key.
\<close>

section \<open>Tables with a primary key\<close>

text \<open>\<^verbatim>\<open>INSERT ... ON CONFLICT DO UPDATE\<close>, \<^verbatim>\<open>INSERT OR IGNORE\<close>, \<^verbatim>\<open>DELETE ... WHERE key = ?\<close> and
  \<^verbatim>\<open>SELECT ... WHERE key = ?\<close> on the rows of a table; a table without further columns has
  \<open>unit\<close> values.\<close>

definition sql_upsert :: "'k \<Rightarrow> 'v \<Rightarrow> ('k \<times> 'v) list \<Rightarrow> ('k \<times> 'v) list" where
  "sql_upsert k v rows = AList.update k v rows"

definition sql_insert_ignore :: "'k \<Rightarrow> 'v \<Rightarrow> ('k \<times> 'v) list \<Rightarrow> ('k \<times> 'v) list" where
  "sql_insert_ignore k v rows = (if k \<in> fst ` set rows then rows else rows @ [(k, v)])"

definition sql_delete :: "('k \<Rightarrow> bool) \<Rightarrow> ('k \<times> 'v) list \<Rightarrow> ('k \<times> 'v) list" where
  "sql_delete cond rows = filter (\<lambda>row. \<not> cond (fst row)) rows"

definition primary_key :: "('k \<times> 'v) list \<Rightarrow> bool" where
  "primary_key rows \<longleftrightarrow> distinct (map fst rows)"

locale keyed_rows =
  fixes find_row :: "'t \<Rightarrow> 'k \<Rightarrow> 'v option"
    and put_row :: "'k \<Rightarrow> 'v \<Rightarrow> 't \<Rightarrow> 't"
    and add_row :: "'k \<Rightarrow> 'v \<Rightarrow> 't \<Rightarrow> 't"
    and del_rows :: "('k \<Rightarrow> bool) \<Rightarrow> 't \<Rightarrow> 't"
    and unique_keys :: "'t \<Rightarrow> bool"
  assumes find_put: "find_row (put_row k v t) = (find_row t)(k \<mapsto> v)"
    and find_add: "find_row (add_row k v t) = (find_row t)(k \<mapsto> case find_row t k of None \<Rightarrow> v | Some w \<Rightarrow> w)"
    and find_del: "find_row (del_rows c t) = (\<lambda>k. if c k then None else find_row t k)"
    and unique_put: "unique_keys t \<Longrightarrow> unique_keys (put_row k v t)"
    and unique_add: "unique_keys t \<Longrightarrow> unique_keys (add_row k v t)"
    and unique_del: "unique_keys t \<Longrightarrow> unique_keys (del_rows c t)"
begin

lemma put_put: "find_row (put_row k v (put_row k w t)) = find_row (put_row k v t)"
  by (simp add: find_put)

lemma del_put: "find_row (del_rows (\<lambda>x. x = k) (put_row k v t)) = find_row (del_rows (\<lambda>x. x = k) t)"
  by (simp add: find_put find_del fun_eq_iff)

lemma dom_put: "dom (find_row (put_row k v t)) = insert k (dom (find_row t))"
  by (simp add: find_put)

lemma dom_add: "dom (find_row (add_row k v t)) = insert k (dom (find_row t))"
  by (simp add: find_add)

lemma dom_del: "dom (find_row (del_rows c t)) = {k \<in> dom (find_row t). \<not> c k}"
  by (auto simp: find_del split: if_splits)

end

lemma in_keys: "k \<in> fst ` set rows \<longleftrightarrow> map_of rows k \<noteq> None"
  by (simp add: map_of_eq_None_iff)

lemma map_of_filter_key: "map_of (filter (\<lambda>row. \<not> c (fst row)) rows) = (\<lambda>k. if c k then None else map_of rows k)"
  by (induction rows) (auto simp: fun_eq_iff)

interpretation tbl: keyed_rows map_of sql_upsert sql_insert_ignore sql_delete primary_key
proof unfold_locales
  fix k :: 'k and v :: 'v and t :: "('k \<times> 'v) list" and c
  show "map_of (sql_upsert k v t) = (map_of t)(k \<mapsto> v)"
    by (simp add: sql_upsert_def update_conv')
  show "map_of (sql_insert_ignore k v t) =
      (map_of t)(k \<mapsto> case map_of t k of None \<Rightarrow> v | Some w \<Rightarrow> w)"
    by (cases "map_of t k")
      (simp_all add: sql_insert_ignore_def in_keys map_add_def fun_eq_iff split: option.splits)
  show "map_of (sql_delete c t) = (\<lambda>k. if c k then None else map_of t k)"
    by (simp add: sql_delete_def map_of_filter_key)
  assume "primary_key t"
  then show "primary_key (sql_upsert k v t)" and "primary_key (sql_insert_ignore k v t)"
    and "primary_key (sql_delete c t)"
    by (auto simp: primary_key_def sql_upsert_def sql_insert_ignore_def sql_delete_def
        distinct_update distinct_map_filter)
qed

section \<open>SQLite as the code sees it\<close>

text \<open>The status of one statement: it is executed, it cannot be prepared, or its steps fail from
  some step on.\<close>

datatype sql_status = SqlOk | PrepareFails | StepFailsAfter nat

fun step_ok :: "sql_status \<Rightarrow> bool" where
  "step_ok SqlOk \<longleftrightarrow> True"
| "step_ok PrepareFails \<longleftrightarrow> False"
| "step_ok (StepFailsAfter n) \<longleftrightarrow> 0 < n"

fun rows_read :: "sql_status \<Rightarrow> 'r list \<Rightarrow> 'r list" where
  "rows_read (StepFailsAfter n) rows = take n rows"
| "rows_read _ rows = rows"

text \<open>\<^verbatim>\<open>static_cast<int>(uint32_t)\<close> on binding, \<^verbatim>\<open>static_cast<uint32_t>(int)\<close> on reading.\<close>

definition bind_int :: "u32 \<Rightarrow> int" where "bind_int v = sint v"
definition column_u32 :: "int \<Rightarrow> u32" where "column_u32 v = word_of_int v"

text \<open>\<^verbatim>\<open>sqlite3_column_int\<close>: the low 32 bits, signed.\<close>

definition column_int :: "int \<Rightarrow> int" where "column_int v = sint (word_of_int v :: u32)"

lemma column_bind [simp]: "column_u32 (bind_int v) = v"
  by (simp add: column_u32_def bind_int_def)

lemma column_int_eq: "column_int v = bind_int (column_u32 v)"
  by (simp add: column_int_def bind_int_def column_u32_def)

lemma column_int_bind [simp]: "column_int (bind_int v) = bind_int v"
  by (simp add: column_int_eq)

lemma bind_int_inject [simp]: "bind_int v = bind_int w \<longleftrightarrow> v = w"
  by (metis column_bind)

section \<open>The store\<close>

record ReaderRow =
  rr_reader_id :: u32
  rr_current_key_version :: u32

record ReaderDoorRow =
  rd_reader_id :: u32
  rd_door_id :: u32

record DoorRoleRow =
  dr_door_id :: u32
  dr_role :: string

record CardRow =
  cr_card_hmac :: string
  cr_role :: string

record Database =
  db_cards :: "(string \<times> string) list"
  db_door_roles :: "((int \<times> string) \<times> unit) list"
  db_readers :: "(int \<times> int) list"
  db_reader_doors :: "((int \<times> int) \<times> unit) list"

text \<open>A freshly created database after \<^verbatim>\<open>initSchema\<close>; on an existing one it changes nothing.\<close>

definition initSchema :: "Database option \<Rightarrow> Database" where
  "initSchema d = (case d of None \<Rightarrow>
     \<lparr>db_cards = [], db_door_roles = [], db_readers = [], db_reader_doors = []\<rparr> | Some d \<Rightarrow> d)"

definition upsertCardHmac :: "sql_status \<Rightarrow> string \<Rightarrow> string \<Rightarrow> (Database, unit) prog" where
  "upsertCardHmac st cardHmacHex role d =
     (if st = PrepareFails then (Inl (RuntimeError ''prepare failed''), d)
      else if \<not> step_ok st then (Inl (RuntimeError ''upsertCardHmac failed''), d)
      else (Inr (), d\<lparr>db_cards := sql_upsert (c_str cardHmacHex) (c_str role) (db_cards d)\<rparr>))"

definition allowRole :: "sql_status \<Rightarrow> u32 \<Rightarrow> string \<Rightarrow> (Database, unit) prog" where
  "allowRole st doorId role d =
     (if st = PrepareFails then (Inl (RuntimeError ''prepare failed''), d)
      else if \<not> step_ok st then (Inl (RuntimeError ''allowRole failed''), d)
      else (Inr (), d\<lparr>db_door_roles := sql_insert_ignore (bind_int doorId, c_str role) () (db_door_roles d)\<rparr>))"

definition roleForCardHmac :: "sql_status \<Rightarrow> Database \<Rightarrow> string \<Rightarrow> string option result" where
  "roleForCardHmac st d cardHmacHex =
     (if st = PrepareFails then Inl (RuntimeError ''prepare failed'')
      else if \<not> step_ok st then Inr None
      else (case map_of (db_cards d) cardHmacHex of
              Some role \<Rightarrow> Inr (Some (c_str role))
            | None \<Rightarrow> Inr None))"

definition isAllowed :: "sql_status \<Rightarrow> Database \<Rightarrow> u32 \<Rightarrow> string \<Rightarrow> bool result" where
  "isAllowed st d doorId role =
     (if st = PrepareFails then Inl (RuntimeError ''prepare failed'')
      else Inr (step_ok st \<and> map_of (db_door_roles d) (bind_int doorId, role) \<noteq> None))"

definition upsertReader :: "sql_status \<Rightarrow> u32 \<Rightarrow> u32 \<Rightarrow> (Database, unit) prog" where
  "upsertReader st reader_id current_key_version d =
     (if st = PrepareFails then (Inl (RuntimeError ''prepare failed''), d)
      else if \<not> step_ok st then (Inl (RuntimeError ''upsert_reader failed''), d)
      else (Inr (), d\<lparr>db_readers := sql_upsert (bind_int reader_id) (bind_int current_key_version) (db_readers d)\<rparr>))"

definition currentKeyVersionForReader :: "sql_status \<Rightarrow> Database \<Rightarrow> u32 \<Rightarrow> u32 result" where
  "currentKeyVersionForReader st d reader_id =
     (if st = PrepareFails then Inl (RuntimeError ''prepare failed'')
      else if \<not> step_ok st then Inr 0
      else (case map_of (db_readers d) (bind_int reader_id) of
              Some v \<Rightarrow> if column_int v \<le> 0 then Inr 0 else Inr (column_u32 v)
            | None \<Rightarrow> Inr 0))"

text \<open>The foreign key of \<^verbatim>\<open>reader_doors\<close> is enforced (\<^verbatim>\<open>PRAGMA foreign_keys=ON\<close>), and
  \<^verbatim>\<open>OR IGNORE\<close> does not apply to it: the step of an insertion for an unknown reader fails.\<close>

definition allowDoorForReader :: "sql_status \<Rightarrow> u32 \<Rightarrow> u32 \<Rightarrow> (Database, unit) prog" where
  "allowDoorForReader st reader_id door_id d =
     (if st = PrepareFails then (Inl (RuntimeError ''prepare failed''), d)
      else if \<not> step_ok st \<or> bind_int reader_id \<notin> fst ` set (db_readers d)
      then (Inl (RuntimeError ''allowDoorForReader failed''), d)
      else (Inr (), d\<lparr>db_reader_doors :=
              sql_insert_ignore (bind_int reader_id, bind_int door_id) () (db_reader_doors d)\<rparr>))"

definition isReaderAllowedDoor :: "sql_status \<Rightarrow> Database \<Rightarrow> u32 \<Rightarrow> u32 \<Rightarrow> bool result" where
  "isReaderAllowedDoor st d reader_id door_id =
     (if st = PrepareFails then Inl (RuntimeError ''prepare failed'')
      else Inr (step_ok st \<and> map_of (db_reader_doors d) (bind_int reader_id, bind_int door_id) \<noteq> None))"

definition listReaders :: "sql_status \<Rightarrow> Database \<Rightarrow> ReaderRow list result" where
  "listReaders st d =
     (if st = PrepareFails then Inl (RuntimeError ''sqlite prepare failed'')
      else Inr (map (\<lambda>(r, v). \<lparr>rr_reader_id = column_u32 r, rr_current_key_version = column_u32 v\<rparr>) (rows_read st (sort_key fst (db_readers d)))))"

definition listReaderDoors :: "sql_status \<Rightarrow> Database \<Rightarrow> u32 \<Rightarrow> ReaderDoorRow list result" where
  "listReaderDoors st d reader_id =
     (let rows = map fst (db_reader_doors d);
          selected = (if reader_id = 0 then sort_key fst (sort_key snd rows)
                      else sort_key snd (filter (\<lambda>row. fst row = bind_int reader_id) rows))
      in if st = PrepareFails then Inl (RuntimeError ''sqlite prepare failed'')
         else Inr (map (\<lambda>(r, dr). \<lparr>rd_reader_id = column_u32 r, rd_door_id = column_u32 dr\<rparr>) (rows_read st selected)))"

definition listDoorRoles :: "sql_status \<Rightarrow> Database \<Rightarrow> u32 \<Rightarrow> DoorRoleRow list result" where
  "listDoorRoles st d door_id =
     (let rows = map fst (db_door_roles d);
          selected = (if door_id = 0 then sort_key fst (sort_key snd rows)
                      else sort_key snd (filter (\<lambda>row. fst row = bind_int door_id) rows))
      in if st = PrepareFails then Inl (RuntimeError ''sqlite prepare failed'')
         else Inr (map (\<lambda>(dr, role). \<lparr>dr_door_id = column_u32 dr, dr_role = c_str role\<rparr>) (rows_read st selected)))"

text \<open>\<^verbatim>\<open>LIMIT\<close> and \<^verbatim>\<open>OFFSET\<close> are bound as signed 64-bit integers; SQLite takes a negative limit
  as none and a negative offset as 0.\<close>

definition listCards :: "sql_status \<Rightarrow> Database \<Rightarrow> u64 \<Rightarrow> u64 \<Rightarrow> CardRow list result" where
  "listCards st d limit offset =
     (let ordered = drop (nat (sint offset)) (sort_key fst (db_cards d));
          selected = (if sint limit < 0 then ordered else take (nat (sint limit)) ordered)
      in if st = PrepareFails then Inl (RuntimeError ''sqlite prepare failed'')
         else Inr (map (\<lambda>(h, role). \<lparr>cr_card_hmac = c_str h, cr_role = c_str role\<rparr>) (rows_read st selected)))"

definition deleteReader :: "sql_status \<Rightarrow> u32 \<Rightarrow> (Database, unit) prog" where
  "deleteReader st reader_id d =
     (if st = PrepareFails then (Inl (RuntimeError ''sqlite prepare failed''), d)
      else if \<not> step_ok st then (Inl (RuntimeError ''deleteReader failed''), d)
      else (Inr (), d\<lparr>db_readers := sql_delete (\<lambda>r. r = bind_int reader_id) (db_readers d),
                      db_reader_doors := sql_delete (\<lambda>(r, _). r = bind_int reader_id) (db_reader_doors d)\<rparr>))"

definition revokeDoorForReader :: "sql_status \<Rightarrow> u32 \<Rightarrow> u32 \<Rightarrow> (Database, unit) prog" where
  "revokeDoorForReader st reader_id door_id d =
     (if st = PrepareFails then (Inl (RuntimeError ''sqlite prepare failed''), d)
      else if \<not> step_ok st then (Inl (RuntimeError ''revokeDoorForReader failed''), d)
      else (Inr (), d\<lparr>db_reader_doors :=
              sql_delete (\<lambda>k. k = (bind_int reader_id, bind_int door_id)) (db_reader_doors d)\<rparr>))"

definition revokeRole :: "sql_status \<Rightarrow> u32 \<Rightarrow> string \<Rightarrow> (Database, unit) prog" where
  "revokeRole st door_id role d =
     (if st = PrepareFails then (Inl (RuntimeError ''sqlite prepare failed''), d)
      else if \<not> step_ok st then (Inl (RuntimeError ''revokeRole failed''), d)
      else (Inr (), d\<lparr>db_door_roles := sql_delete (\<lambda>k. k = (bind_int door_id, role)) (db_door_roles d)\<rparr>))"

definition deleteCardHmac :: "sql_status \<Rightarrow> string \<Rightarrow> (Database, unit) prog" where
  "deleteCardHmac st card_hmac d =
     (if st = PrepareFails then (Inl (RuntimeError ''sqlite prepare failed''), d)
      else if \<not> step_ok st then (Inl (RuntimeError ''deleteCardHmac failed''), d)
      else (Inr (), d\<lparr>db_cards := sql_delete (\<lambda>h. h = card_hmac) (db_cards d)\<rparr>))"

section \<open>The interface of the engine\<close>

text \<open>\<^verbatim>\<open>IAccessStore\<close> as the engine uses it: four queries, each of which may throw.\<close>

record IAccessStore =
  st_roleForCardHmac :: "string \<Rightarrow> string option result"
  st_isAllowed :: "u32 \<Rightarrow> string \<Rightarrow> bool result"
  st_currentKeyVersionForReader :: "u32 \<Rightarrow> u32 result"
  st_isReaderAllowedDoor :: "u32 \<Rightarrow> u32 \<Rightarrow> bool result"

datatype store_query = RoleQuery | AllowedQuery | KeyVersionQuery | DoorQuery

definition SqliteAccessStore :: "(store_query \<Rightarrow> sql_status) \<Rightarrow> Database \<Rightarrow> IAccessStore" where
  "SqliteAccessStore st d =
     \<lparr>st_roleForCardHmac = roleForCardHmac (st RoleQuery) d,
      st_isAllowed = isAllowed (st AllowedQuery) d,
      st_currentKeyVersionForReader = currentKeyVersionForReader (st KeyVersionQuery) d,
      st_isReaderAllowedDoor = isReaderAllowedDoor (st DoorQuery) d\<rparr>"

section \<open>Administrative operations as steps\<close>

datatype store_op =
    UpsertCard string string
  | DeleteCard string
  | AllowRole u32 string
  | RevokeRole u32 string
  | UpsertReader u32 u32
  | DeleteReader u32
  | AllowDoor u32 u32
  | RevokeDoor u32 u32

fun exec_op :: "sql_status \<Rightarrow> store_op \<Rightarrow> (Database, unit) prog" where
  "exec_op st (UpsertCard h role) = upsertCardHmac st h role"
| "exec_op st (DeleteCard h) = deleteCardHmac st h"
| "exec_op st (AllowRole dr role) = allowRole st dr role"
| "exec_op st (RevokeRole dr role) = revokeRole st dr role"
| "exec_op st (UpsertReader r kv) = upsertReader st r kv"
| "exec_op st (DeleteReader r) = deleteReader st r"
| "exec_op st (AllowDoor r dr) = allowDoorForReader st r dr"
| "exec_op st (RevokeDoor r dr) = revokeDoorForReader st r dr"

fun exec_ops :: "(sql_status \<times> store_op) list \<Rightarrow> Database \<Rightarrow> Database" where
  "exec_ops [] d = d"
| "exec_ops ((st, p) # ps) d = exec_ops ps (snd (exec_op st p d))"

section \<open>The policy the tables stand for\<close>

record policy =
  po_role :: "string \<Rightarrow> string option"
  po_allowed :: "(u32 \<times> string) set"
  po_version :: "u32 \<Rightarrow> u32 option"
  po_doors :: "(u32 \<times> u32) set"

definition empty_policy :: policy where
  "empty_policy = \<lparr>po_role = (\<lambda>_. None), po_allowed = {}, po_version = (\<lambda>_. None), po_doors = {}\<rparr>"

fun spec_op :: "store_op \<Rightarrow> policy \<Rightarrow> policy" where
  "spec_op (UpsertCard h role) p = p\<lparr>po_role := (po_role p)(h \<mapsto> role)\<rparr>"
| "spec_op (DeleteCard h) p = p\<lparr>po_role := (po_role p)(h := None)\<rparr>"
| "spec_op (AllowRole dr role) p = p\<lparr>po_allowed := insert (dr, role) (po_allowed p)\<rparr>"
| "spec_op (RevokeRole dr role) p = p\<lparr>po_allowed := po_allowed p - {(dr, role)}\<rparr>"
| "spec_op (UpsertReader r kv) p = p\<lparr>po_version := (po_version p)(r \<mapsto> kv)\<rparr>"
| "spec_op (DeleteReader r) p =
     p\<lparr>po_version := (po_version p)(r := None), po_doors := {rd \<in> po_doors p. fst rd \<noteq> r}\<rparr>"
| "spec_op (AllowDoor r dr) p =
     (if po_version p r = None then p else p\<lparr>po_doors := insert (r, dr) (po_doors p)\<rparr>)"
| "spec_op (RevokeDoor r dr) p = p\<lparr>po_doors := po_doors p - {(r, dr)}\<rparr>"

definition policy_of :: "Database \<Rightarrow> policy" where
  "policy_of d =
     \<lparr>po_role = map_of (db_cards d),
      po_allowed = {(dr, role). map_of (db_door_roles d) (bind_int dr, role) \<noteq> None},
      po_version = (\<lambda>r. map_option column_u32 (map_of (db_readers d) (bind_int r))),
      po_doors = {(r, dr). map_of (db_reader_doors d) (bind_int r, bind_int dr) \<noteq> None}\<rparr>"

fun op_nul_free :: "store_op \<Rightarrow> bool" where
  "op_nul_free (UpsertCard h role) \<longleftrightarrow> nul \<notin> set h \<and> nul \<notin> set role"
| "op_nul_free (AllowRole dr role) \<longleftrightarrow> nul \<notin> set role"
| "op_nul_free _ \<longleftrightarrow> True"

text \<open>Invariant: keys are unique, every binding has its reader, roles of cards hold no NUL, and
  key versions are signed 32-bit values.\<close>

definition db_inv :: "Database \<Rightarrow> bool" where
  "db_inv d \<longleftrightarrow>
     primary_key (db_cards d) \<and> primary_key (db_door_roles d) \<and>
     primary_key (db_readers d) \<and> primary_key (db_reader_doors d) \<and>
     fst ` dom (map_of (db_reader_doors d)) \<subseteq> dom (map_of (db_readers d)) \<and>
     (\<forall>role \<in> ran (map_of (db_cards d)). nul \<notin> set role) \<and>
     (\<forall>v \<in> ran (map_of (db_readers d)). bind_int (column_u32 v) = v)"

lemmas op_defs = upsertCardHmac_def deleteCardHmac_def allowRole_def revokeRole_def
  upsertReader_def deleteReader_def allowDoorForReader_def revokeDoorForReader_def

lemma failed_op_no_effect: "\<not> step_ok st \<Longrightarrow> snd (exec_op st p d) = d"
  by (cases p; cases st) (simp_all add: op_defs)

lemma ran_put: "ran (m(k \<mapsto> v)) \<subseteq> insert v (ran m)"
  by (auto simp: ran_def)

lemma step_ok_prepares: "step_ok st \<Longrightarrow> st \<noteq> PrepareFails"
  by auto

lemma db_inv_exec_op: "db_inv d \<Longrightarrow> db_inv (snd (exec_op st p d))"
proof (cases "step_ok st")
  case True
  note prep = step_ok_prepares [OF True]
  note tbl_simps = tbl.unique_put tbl.unique_add tbl.unique_del tbl.find_put tbl.find_del
  assume inv: "db_inv d"
  show ?thesis
  proof (cases p)
    case (UpsertCard h role)
    have "nul \<notin> set x" if "x \<in> ran ((map_of (db_cards d))(c_str h \<mapsto> c_str role))" for x
      using subsetD [OF ran_put that] inv by (auto simp: db_inv_def)
    with UpsertCard inv True prep show ?thesis by (simp add: op_defs db_inv_def tbl_simps)
  next
    case (DeleteCard h)
    with inv True prep show ?thesis
      by (auto simp: op_defs db_inv_def tbl_simps ran_def split: if_splits)
  next
    case (UpsertReader r kv)
    have "bind_int (column_u32 x) = x"
      if "x \<in> ran ((map_of (db_readers d))(bind_int r \<mapsto> bind_int kv))" for x
      using subsetD [OF ran_put that] inv by (auto simp: db_inv_def)
    moreover have "fst ` dom (map_of (db_reader_doors d)) \<subseteq>
        dom (map_of (sql_upsert (bind_int r) (bind_int kv) (db_readers d)))"
      using inv by (simp add: db_inv_def tbl.dom_put subset_insertI2)
    ultimately show ?thesis
      using UpsertReader inv True prep by (simp add: op_defs db_inv_def tbl_simps)
  next
    case (DeleteReader r)
    with inv True prep show ?thesis
      by (fastforce simp: op_defs db_inv_def tbl_simps ran_def split: if_splits)
  next
    case (AllowDoor r dr)
    have "fst ` dom (map_of (sql_insert_ignore (bind_int r, bind_int dr) () (db_reader_doors d))) \<subseteq>
        dom (map_of (db_readers d))" if "bind_int r \<in> fst ` set (db_readers d)"
      using that inv by (simp add: db_inv_def tbl.dom_add in_keys domIff)
    with AllowDoor inv True prep show ?thesis by (simp add: op_defs db_inv_def tbl_simps)
  next
    case (RevokeDoor r dr)
    have "fst ` dom (map_of (sql_delete c (db_reader_doors d))) \<subseteq> dom (map_of (db_readers d))" for c
      using inv by (simp only: db_inv_def tbl.dom_del) blast
    with RevokeDoor inv True prep show ?thesis by (simp add: op_defs db_inv_def tbl.unique_del)
  qed (use inv True prep in \<open>simp_all add: op_defs db_inv_def tbl_simps\<close>)
qed (simp add: failed_op_no_effect)

lemma db_inv_exec_ops: "db_inv d \<Longrightarrow> db_inv (exec_ops ps d)"
  by (induction ps d rule: exec_ops.induct) (simp_all add: db_inv_exec_op)

lemma db_inv_init: "db_inv (initSchema None)"
  by (simp add: db_inv_def initSchema_def primary_key_def)

lemma policy_of_exec_op:
  assumes "step_ok st" and "op_nul_free p"
  shows "policy_of (snd (exec_op st p d)) = spec_op p (policy_of d)"
proof -
  note prep = step_ok_prepares [OF assms(1)]
  show ?thesis
    using assms prep
    by (cases p)
      (auto simp: op_defs policy_of_def c_str_id tbl.find_put tbl.find_add tbl.find_del fun_eq_iff
        in_keys)
qed

lemma policy_of_exec_ops:
  assumes "\<forall>(st, p) \<in> set ps. op_nul_free p"
  shows "policy_of (exec_ops ps d) =
    fold spec_op (map snd (filter (\<lambda>(st, p). step_ok st) ps)) (policy_of d)"
  using assms
proof (induction ps d rule: exec_ops.induct)
  case (2 st p ps d)
  then show ?case
    by (cases "step_ok st") (simp_all add: policy_of_exec_op failed_op_no_effect)
qed simp

lemma policy_of_init: "policy_of (initSchema None) = empty_policy"
  by (simp add: policy_of_def empty_policy_def initSchema_def)

text \<open>What the engine's queries answer on a database that satisfies the invariant.\<close>

definition policy_version :: "policy \<Rightarrow> u32 \<Rightarrow> u32" where
  "policy_version p r = (case po_version p r of None \<Rightarrow> 0 | Some v \<Rightarrow> if v < 2 ^ 31 then v else 0)"

lemma bind_int_pos: "bind_int v \<le> 0 \<longleftrightarrow> v = 0 \<or> 2 ^ 31 \<le> v"
proof (cases "uint v < 2 ^ 31")
  case True
  have "signed_take_bit 31 (uint v) = uint v"
    using signed_take_bit_int_eq_self [of 31 "uint v"] True uint_ge_0 [of v] by linarith
  then have "bind_int v = uint v" by (simp add: bind_int_def sint_uint)
  with True show ?thesis by (auto simp: word_le_def uint_0_iff order_le_less)
next
  case False
  moreover have "uint v < 2 * 2 ^ 31" using uint_lt2p [of v] by simp
  ultimately have "uint v div 2 ^ 31 = 1"
    by (intro int_div_pos_eq [where r = "uint v - 2 ^ 31"]) auto
  then have "bit v 31" using bit_uint_iff [of v 31] by (simp add: bit_iff_odd [of "uint v"])
  then have "sint v < 0" using bit_last_iff [of v] by simp
  then show ?thesis using False by (simp add: bind_int_def word_le_def)
qed

lemma store_queries:
  assumes "db_inv d"
  shows "roleForCardHmac SqlOk d h = Inr (po_role (policy_of d) h)"
    and "isAllowed SqlOk d dr role = Inr ((dr, role) \<in> po_allowed (policy_of d))"
    and "currentKeyVersionForReader SqlOk d r = Inr (policy_version (policy_of d) r)"
    and "isReaderAllowedDoor SqlOk d r dr = Inr ((r, dr) \<in> po_doors (policy_of d))"
proof -
  have "nul \<notin> set role" if "map_of (db_cards d) h = Some role" for role
    using that assms by (auto simp: db_inv_def dest: ranI)
  then show "roleForCardHmac SqlOk d h = Inr (po_role (policy_of d) h)"
    by (auto simp: roleForCardHmac_def policy_of_def c_str_id split: option.splits)
  have "column_int v \<le> 0 \<longleftrightarrow> column_u32 v = 0 \<or> 2 ^ 31 \<le> column_u32 v" for v
    by (simp add: column_int_eq bind_int_pos)
  then show "currentKeyVersionForReader SqlOk d r = Inr (policy_version (policy_of d) r)"
    by (auto simp: currentKeyVersionForReader_def policy_of_def policy_version_def not_less
        split: option.splits)
qed (auto simp: isAllowed_def isReaderAllowedDoor_def policy_of_def)

section \<open>Properties\<close>

text \<open>
  C27: the store implements the access policy. Start from an empty database and apply any
  administrative operations whose texts hold no NUL, some of which may fail in SQLite. Then each of
  the engine's four queries answers exactly what the policy says that results from the operations
  that succeeded: the last role given to a card, the pairs of door and role granted and not revoked
  since, the reader's last key version (0 for an unknown reader, or a version above
  \<open>2^31 - 1\<close>), and the bindings of readers to doors, which end with their reader.
\<close>

theorem store_implements_policy:
  assumes "\<forall>(st, p) \<in> set ps. op_nul_free p"
  shows "let d = exec_ops ps (initSchema None);
             pol = fold spec_op (map snd (filter (\<lambda>(st, p). step_ok st) ps)) empty_policy
         in roleForCardHmac SqlOk d h = Inr (po_role pol h) \<and>
            isAllowed SqlOk d dr role = Inr ((dr, role) \<in> po_allowed pol) \<and>
            currentKeyVersionForReader SqlOk d r = Inr (policy_version pol r) \<and>
            isReaderAllowedDoor SqlOk d r dr = Inr ((r, dr) \<in> po_doors pol)"
  using store_queries [OF db_inv_exec_ops [OF db_inv_init]] policy_of_exec_ops [OF assms]
  by (simp add: Let_def policy_of_init)

theorem store_implements_policy_witness:
  "(let ps = [(SqlOk, UpsertReader 1 3), (SqlOk, AllowDoor 1 9), (StepFailsAfter 0, DeleteReader 1),
              (SqlOk, AllowRole 9 ''staff''), (SqlOk, UpsertCard ''ab'' ''staff'')];
        d = exec_ops ps (initSchema None);
        pol = fold spec_op (map snd (filter (\<lambda>(st, p). step_ok st) ps)) empty_policy
    in roleForCardHmac SqlOk d ''ab'' = Inr (po_role pol ''ab'') \<and>
       isAllowed SqlOk d 9 ''staff'' = Inr ((9, ''staff'') \<in> po_allowed pol) \<and>
       currentKeyVersionForReader SqlOk d 1 = Inr (policy_version pol 1) \<and>
       isReaderAllowedDoor SqlOk d 1 9 = Inr ((1, 9) \<in> po_doors pol))"
proof -
  have "\<forall>(st, p) \<in> set [(SqlOk, UpsertReader 1 3), (SqlOk, AllowDoor 1 9),
      (StepFailsAfter 0, DeleteReader 1), (SqlOk, AllowRole 9 ''staff''),
      (SqlOk, UpsertCard ''ab'' ''staff'')]. op_nul_free p"
    by (simp add: nul_def char_of_def)
  from store_implements_policy [OF this] show ?thesis by (simp only: Let_def)
qed

text \<open>
  C28: every database that operations make from an empty one, whatever their texts and whether or
  not SQLite fails, satisfies the invariant: keys are unique in all four tables, every binding of a
  reader to a door has its reader in the table of readers, roles of cards end before a NUL, and key
  versions are values of the signed type they are read with.
\<close>

theorem store_invariant: "db_inv (exec_ops ps (initSchema None))"
  by (rule db_inv_exec_ops [OF db_inv_init])

text \<open>
  A key version written for a reader is read back exactly when it is below \<open>2^31\<close>; a larger
  one is stored as a negative number and the reader then counts as unknown.
\<close>

theorem key_version_roundtrip:
  "currentKeyVersionForReader SqlOk (snd (upsertReader SqlOk r kv d)) r =
    Inr (if kv < 2 ^ 31 then kv else 0)"
proof -
  have "bind_int kv \<le> 0 \<longleftrightarrow> kv = 0 \<or> \<not> kv < 2 ^ 31" using bind_int_pos [of kv] by (simp add: not_less)
  then show ?thesis
    by (cases "bind_int kv \<le> 0")
      (auto simp: currentKeyVersionForReader_def upsertReader_def tbl.find_put)
qed

text \<open>
  Granting a role whose name holds a NUL grants the part before it, and revoking the same name
  does not take the grant back: the one statement binds the C string, the other the whole view.
\<close>

theorem revoke_misses_nul_role:
  "let granted = snd (allowRole SqlOk 7 (''staff'' @ nul # ''x'') (initSchema None));
       revoked = snd (revokeRole SqlOk 7 (''staff'' @ nul # ''x'') granted)
   in isAllowed SqlOk revoked 7 ''staff'' = Inr True"
  by (simp add: Let_def allowRole_def revokeRole_def initSchema_def isAllowed_def
      sql_insert_ignore_def sql_delete_def c_str_def nul_def char_of_def)

end
