(* ===== verification/Frame_Handler.thy ===== *)
theory Frame_Handler
  imports Protocol_Frame Replay_Window Key_Manager Access_Store
begin

text \<open>
  \<^verbatim>\<open>access_core/src/frame_decryptor.cpp\<close> and \<^verbatim>\<open>handle_frame.cpp\<close>: the pipeline that turns raw bytes
  into a verdict and a plaintext. The state of the handler is the map of replay windows it shares
  with the engine; the clock value and libsodium are arguments, the store is its interface. Every
  check of the pipeline is a definition of its own, in the order of the code, and the pipeline is
  characterised twice: by what it accepts, and by how it changes the replay windows.
\<close>

section \<open>Configuration and results\<close>

record FrameHandlerConfig =
  fh_antiReplayEnabled :: bool
  fh_replayWindowSize :: u64
  fh_maxCtLen :: u32
  fh_maxSkewMs :: u64
  fh_allowPreviousKeyVersion :: bool
  fh_enforceReaderDoorBinding :: bool
  fh_keyDerivationMode :: string
  fh_aadMode :: string
  fh_pepperMode :: string
  fh_cipherMode :: string
  fh_nonceMode :: string

definition default_FrameHandlerConfig :: FrameHandlerConfig where
  "default_FrameHandlerConfig =
     \<lparr>fh_antiReplayEnabled = True, fh_replayWindowSize = 256, fh_maxCtLen = 4096, fh_maxSkewMs = 0,
      fh_allowPreviousKeyVersion = True, fh_enforceReaderDoorBinding = True,
      fh_keyDerivationMode = ''hkdf'', fh_aadMode = ''full'', fh_pepperMode = ''versioned'',
      fh_cipherMode = ''xchacha20'', fh_nonceMode = ''deterministic''\<rparr>"

record HandleResult =
  hr_allow :: bool
  hr_reason :: string
  hr_plaintext :: bytes
  hr_header :: Header

type_synonym ReplayWindowMap = "u32 \<Rightarrow> ReplayWindow option"

record FrameHandler =
  fh_keyManager :: KeyManager
  fh_store :: "IAccessStore option"
  fh_config :: FrameHandlerConfig

section \<open>FrameDecryptor\<close>

record DecryptorConfig =
  dcf_maxSkewMs :: u64
  dcf_aadMode :: string

record FrameDecryptor =
  fd_aead :: SecureAead
  fd_config :: DecryptorConfig

record DecryptResult =
  dr_success :: bool
  dr_error :: string
  dr_plaintext :: bytes

definition decryptFrame :: "sodium \<Rightarrow> FrameDecryptor \<Rightarrow> Frame \<Rightarrow> bytes result" where
  "decryptFrame so fd frame =
     (let aad = (if dcf_aadMode (fd_config fd) \<noteq> ''none'' then to_bytes (fr_header frame) else [])
      in openWithNonce so (fd_aead fd) (fr_ct frame) (fr_tag frame) aad (h_nonce (fr_header frame)))"

definition checkTimestamp :: "FrameDecryptor \<Rightarrow> u64 \<Rightarrow> u64 \<Rightarrow> string option" where
  "checkTimestamp fd now frameTimestamp =
     (if dcf_maxSkewMs (fd_config fd) = 0 then None
      else
        let diff = (if now \<ge> frameTimestamp then now - frameTimestamp else frameTimestamp - now)
        in if diff > dcf_maxSkewMs (fd_config fd)
           then Some (if now \<ge> frameTimestamp then ''too_old'' else ''too_future'')
           else None)"

definition decrypt :: "sodium \<Rightarrow> u64 \<Rightarrow> FrameDecryptor \<Rightarrow> Frame \<Rightarrow> DecryptResult" where
  "decrypt so now fd frame =
     (case decryptFrame so fd frame of
        Inl e \<Rightarrow> \<lparr>dr_success = False, dr_error = ''decrypt_failed'', dr_plaintext = []\<rparr>
      | Inr pt \<Rightarrow>
        (case checkTimestamp fd now (h_ts_unix_ms (fr_header frame)) of
           Some err \<Rightarrow> \<lparr>dr_success = False, dr_error = err, dr_plaintext = pt\<rparr>
         | None \<Rightarrow> \<lparr>dr_success = True, dr_error = [], dr_plaintext = pt\<rparr>))"

section \<open>FrameHandler\<close>

text \<open>\<^verbatim>\<open>what.find(s) != npos\<close>.\<close>

fun str_contains :: "string \<Rightarrow> string \<Rightarrow> bool" where
  "str_contains [] p \<longleftrightarrow> p = []"
| "str_contains (c # s) p \<longleftrightarrow> take (length p) (c # s) = p \<or> str_contains s p"

definition parseErrorToCode :: "string \<Rightarrow> string" where
  "parseErrorToCode what =
     (if str_contains what ''too small'' then ''frame_too_small''
      else if str_contains what ''bad magic'' then ''bad_magic''
      else if str_contains what ''bad version'' then ''bad_protocol_version''
      else if str_contains what ''ctLen exceeds'' then ''ciphertext_too_large''
      else if str_contains what ''length mismatch'' then ''frame_truncated''
      else if str_contains what ''trailing bytes'' then ''frame_trailing_bytes''
      else ''parse_error'')"

definition makeError :: "string \<Rightarrow> Header \<Rightarrow> HandleResult" where
  "makeError reason header =
     \<lparr>hr_allow = False, hr_reason = reason, hr_plaintext = [], hr_header = header\<rparr>"

definition fh_parseFrame :: "FrameHandler \<Rightarrow> bytes \<Rightarrow> HandleResult + Frame" where
  "fh_parseFrame fh frameBytes =
     (case parseFrame frameBytes (fh_maxCtLen (fh_config fh)) of
        Inr f \<Rightarrow> Inr f
      | Inl (RuntimeError what) \<Rightarrow> Inl (makeError (parseErrorToCode what) empty_header)
      | Inl _ \<Rightarrow> Inl (makeError ''parse_error'' empty_header))"

text \<open>The checks: \<open>None\<close> when passed. The store may throw, which \<^verbatim>\<open>handle\<close> does not catch.\<close>

definition validateReader :: "FrameHandler \<Rightarrow> Frame \<Rightarrow> (HandleResult option \<times> u32) result" where
  "validateReader fh frame =
     (case fh_store fh of
        None \<Rightarrow> Inr (Some (makeError ''no_store'' (fr_header frame)), 0)
      | Some store \<Rightarrow>
        bindR (st_currentKeyVersionForReader store (h_reader_id (fr_header frame))) (\<lambda>outKeyVersion.
          if outKeyVersion = 0
          then Inr (Some (makeError ''unknown_reader'' (fr_header frame)), outKeyVersion)
          else if fh_enforceReaderDoorBinding (fh_config fh)
          then bindR (st_isReaderAllowedDoor store (h_reader_id (fr_header frame)) (h_door_id (fr_header frame)))
            (\<lambda>ok. if \<not> ok
                  then Inr (Some (makeError ''reader_door_forbidden'' (fr_header frame)), outKeyVersion)
                  else Inr (None, outKeyVersion))
          else Inr (None, outKeyVersion)))"

definition validateKeyVersion :: "FrameHandler \<Rightarrow> Frame \<Rightarrow> u32 \<Rightarrow> HandleResult option" where
  "validateKeyVersion fh frame currentKv =
     (let kv = h_key_version (fr_header frame);
          acceptPrev = fh_allowPreviousKeyVersion (fh_config fh);
          keyOk = kv = currentKv \<or> acceptPrev \<and> currentKv > 1 \<and> kv + 1 = currentKv
      in if \<not> keyOk then Some (makeError ''bad_key_version'' (fr_header frame)) else None)"

definition window_size :: "FrameHandlerConfig \<Rightarrow> u64" where
  "window_size cfg = (if fh_replayWindowSize cfg = 0 then 1 else fh_replayWindowSize cfg)"

text \<open>\<^verbatim>\<open>try_emplace\<close>: the window of the reader, created when there is none.\<close>

definition getOrCreateWindow :: "FrameHandler \<Rightarrow> u32 \<Rightarrow> ReplayWindowMap \<Rightarrow> ReplayWindow \<times> ReplayWindowMap" where
  "getOrCreateWindow fh readerId ws =
     (case ws readerId of
        Some w \<Rightarrow> (w, ws)
      | None \<Rightarrow> let w = ReplayWindow_init (window_size (fh_config fh)) in (w, ws(readerId \<mapsto> w)))"

definition isReplay :: "ReplayWindow option \<Rightarrow> u64 \<Rightarrow> bool" where
  "isReplay w sq = (case w of None \<Rightarrow> False | Some w \<Rightarrow> rw_contains w sq)"

text \<open>The window handed on is the reader's entry of the map; \<open>None\<close> is the null pointer.\<close>

definition checkReplay ::
    "FrameHandler \<Rightarrow> Frame \<Rightarrow> ReplayWindowMap \<Rightarrow> HandleResult option \<times> ReplayWindow option \<times> ReplayWindowMap" where
  "checkReplay fh frame ws =
     (if \<not> fh_antiReplayEnabled (fh_config fh) then (None, None, ws)
      else
        let (w, ws) = getOrCreateWindow fh (h_reader_id (fr_header frame)) ws
        in if isReplay (Some w) (h_seq (fr_header frame))
           then (Some (makeError ''replay'' (fr_header frame)), Some w, ws)
           else (None, Some w, ws))"

definition deriveKey :: "sodium \<Rightarrow> FrameHandler \<Rightarrow> Frame \<Rightarrow> HandleResult + AeadKey" where
  "deriveKey so fh frame =
     (if fh_keyDerivationMode (fh_config fh) = ''direct''
      then Inr (masterAsAeadKey (fh_keyManager fh))
      else (case deriveAeadKey so (fh_keyManager fh) (h_reader_id (fr_header frame))
                   (h_key_version (fr_header frame)) of
              Inr k \<Rightarrow> Inr k
            | Inl _ \<Rightarrow> Inl (makeError ''key_derivation_failed'' (fr_header frame))))"

definition decryptExceptionToCode :: "string \<Rightarrow> string" where
  "decryptExceptionToCode what =
     (if str_contains what ''mac'' \<or> str_contains what ''tag'' \<or> str_contains what ''auth''
      then ''mac_verification_failed'' else ''decrypt_failed'')"

definition fh_cipher :: "FrameHandlerConfig \<Rightarrow> CipherMode" where
  "fh_cipher cfg = (if fh_cipherMode cfg = ''chacha20'' then ChaCha20Poly1305 else XChaCha20Poly1305)"

text \<open>The nonce prefix a cipher object draws at construction is not used when opening; it is the
  argument \<open>rnd\<close>. Nothing between construction and the result throws past the decryptor's own
  handler, so \<open>decryptExceptionToCode\<close> has no caller left in a run.\<close>

definition tryDecrypt ::
    "sodium \<Rightarrow> bytes \<Rightarrow> u64 \<Rightarrow> FrameHandler \<Rightarrow> Frame \<Rightarrow> ReplayWindow option \<Rightarrow> ReplayWindowMap \<Rightarrow>
     HandleResult \<times> ReplayWindowMap" where
  "tryDecrypt so rnd now fh frame window ws =
     (case deriveKey so fh frame of
        Inl err \<Rightarrow> (err, ws)
      | Inr aeadKey \<Rightarrow>
        let cfg = fh_config fh;
            aead = SecureAead_init rnd aeadKey (fh_cipher cfg);
            decryptor = \<lparr>fd_aead = aead, fd_config = \<lparr>dcf_maxSkewMs = fh_maxSkewMs cfg, dcf_aadMode = fh_aadMode cfg\<rparr>\<rparr>;
            dec = decrypt so now decryptor frame
        in if \<not> dr_success dec then (makeError (dr_error dec) (fr_header frame), ws)
           else
             let ws = (case window of
                   Some w \<Rightarrow> if fh_antiReplayEnabled cfg
                     then ws(h_reader_id (fr_header frame) \<mapsto> remember (h_seq (fr_header frame)) w) else ws
                 | None \<Rightarrow> ws)
             in (\<lparr>hr_allow = True, hr_reason = ''ok'', hr_plaintext = dr_plaintext dec,
                  hr_header = fr_header frame\<rparr>, ws))"

definition handle :: "sodium \<Rightarrow> bytes \<Rightarrow> u64 \<Rightarrow> FrameHandler \<Rightarrow> bytes \<Rightarrow> (ReplayWindowMap, HandleResult) prog" where
  "handle so rnd now fh frameBytes ws =
     (case fh_parseFrame fh frameBytes of
        Inl err \<Rightarrow> (Inr err, ws)
      | Inr frame \<Rightarrow>
        (case validateReader fh frame of
           Inl e \<Rightarrow> (Inl e, ws)
         | Inr (Some err, _) \<Rightarrow> (Inr err, ws)
         | Inr (None, currentKeyVersion) \<Rightarrow>
           (case validateKeyVersion fh frame currentKeyVersion of
              Some err \<Rightarrow> (Inr err, ws)
            | None \<Rightarrow>
              (case checkReplay fh frame ws of
                 (Some err, _, ws) \<Rightarrow> (Inr err, ws)
               | (None, window, ws) \<Rightarrow>
                 (case tryDecrypt so rnd now fh frame window ws of (r, ws) \<Rightarrow> (Inr r, ws))))))"

section \<open>What the pipeline accepts\<close>

definition key_version_ok :: "FrameHandlerConfig \<Rightarrow> u32 \<Rightarrow> u32 \<Rightarrow> bool" where
  "key_version_ok cfg currentKv kv \<longleftrightarrow>
     kv = currentKv \<or> fh_allowPreviousKeyVersion cfg \<and> currentKv > 1 \<and> kv + 1 = currentKv"

definition reader_ok :: "FrameHandler \<Rightarrow> Header \<Rightarrow> bool" where
  "reader_ok fh h \<longleftrightarrow> (\<exists>store kv. fh_store fh = Some store \<and>
     st_currentKeyVersionForReader store (h_reader_id h) = Inr kv \<and> kv \<noteq> 0 \<and>
     key_version_ok (fh_config fh) kv (h_key_version h) \<and>
     (fh_enforceReaderDoorBinding (fh_config fh) \<longrightarrow>
        st_isReaderAllowedDoor store (h_reader_id h) (h_door_id h) = Inr True))"

definition frame_key :: "sodium \<Rightarrow> FrameHandler \<Rightarrow> Header \<Rightarrow> AeadKey result" where
  "frame_key so fh h =
     (if fh_keyDerivationMode (fh_config fh) = ''direct'' then Inr (km_masterKey (fh_keyManager fh))
      else deriveAeadKey so (fh_keyManager fh) (h_reader_id h) (h_key_version h))"

definition frame_aad :: "FrameHandlerConfig \<Rightarrow> Header \<Rightarrow> bytes" where
  "frame_aad cfg h = (if fh_aadMode cfg \<noteq> ''none'' then to_bytes h else [])"

definition timely :: "u64 \<Rightarrow> u64 \<Rightarrow> u64 \<Rightarrow> bool" where
  "timely maxSkew now ts \<longleftrightarrow> maxSkew = 0 \<or> \<bar>int (unat now) - int (unat ts)\<bar> \<le> int (unat maxSkew)"

text \<open>The numbers a reader's window stands for; a reader without a window has an empty one.\<close>

definition window_for :: "FrameHandlerConfig \<Rightarrow> ReplayWindowMap \<Rightarrow> u32 \<Rightarrow> ReplayWindow" where
  "window_for cfg ws r = (case ws r of Some w \<Rightarrow> w | None \<Rightarrow> ReplayWindow_init (window_size cfg))"

definition fresh :: "FrameHandlerConfig \<Rightarrow> ReplayWindowMap \<Rightarrow> Header \<Rightarrow> bool" where
  "fresh cfg ws h \<longleftrightarrow>
     fh_antiReplayEnabled cfg \<longrightarrow> \<not> rw_contains (window_for cfg ws (h_reader_id h)) (h_seq h)"

definition opens_to :: "sodium \<Rightarrow> FrameHandler \<Rightarrow> Frame \<Rightarrow> bytes \<Rightarrow> bool" where
  "opens_to so fh f pt \<longleftrightarrow> (\<exists>k. frame_key so fh (fr_header f) = Inr k \<and>
     openWithNonce so (SecureAead_init [] k (fh_cipher (fh_config fh))) (fr_ct f) (fr_tag f)
       (frame_aad (fh_config fh) (fr_header f)) (h_nonce (fr_header f)) = Inr pt)"

text \<open>The bytes are the serialization of a frame with this header whose ciphertext and tag seal
  this plaintext under the reader's key, with the header as additional data.\<close>

definition sealed_for :: "sodium \<Rightarrow> FrameHandler \<Rightarrow> Header \<Rightarrow> bytes \<Rightarrow> bytes \<Rightarrow> bool" where
  "sealed_for so fh h pt bs \<longleftrightarrow> (\<exists>k ct tag. frame_key so fh h = Inr k \<and>
     sealWithNonce so (SecureAead_init [] k (fh_cipher (fh_config fh))) pt
       (frame_aad (fh_config fh) h) (h_nonce h) = Inr \<lparr>c_ct = ct, c_tag = tag, c_nonce = h_nonce h\<rparr> \<and>
     wf_header h \<and> length pt \<le> unat (fh_maxCtLen (fh_config fh)) \<and>
     bs = serialize \<lparr>fr_header = h, fr_ct = ct, fr_tag = tag\<rparr>)"

definition accepted :: "bytes \<Rightarrow> Header \<Rightarrow> HandleResult" where
  "accepted pt h = \<lparr>hr_allow = True, hr_reason = ''ok'', hr_plaintext = pt, hr_header = h\<rparr>"

lemma openWithNonce_prefix_irrelevant:
  "openWithNonce so (SecureAead_init rnd k m) ct tag aad nonce =
     openWithNonce so (SecureAead_init [] k m) ct tag aad nonce"
  by (simp add: openWithNonce_def decryptDetached_def SecureAead_init_def)

lemma makeError_allow [simp]: "hr_allow (makeError e h) = False" "hr_reason (makeError e h) = e"
    "hr_plaintext (makeError e h) = []" "hr_header (makeError e h) = h"
  by (simp_all add: makeError_def)

lemma makeError_not_accepted [simp]: "makeError e h \<noteq> accepted pt h'" "accepted pt h' \<noteq> makeError e h"
  by (simp_all add: makeError_def accepted_def)

lemma checkTimestamp_iff:
  "checkTimestamp fd now ts = None \<longleftrightarrow> timely (dcf_maxSkewMs (fd_config fd)) now ts"
proof (cases "ts \<le> now")
  case True
  then have "uint (now - ts) = uint now - uint ts" and "uint ts \<le> uint now"
    by (simp_all add: uint_sub_lem [THEN iffD1] word_le_def)
  with True show ?thesis
    by (auto simp: checkTimestamp_def Let_def timely_def word_less_def)
next
  case False
  then have "uint (ts - now) = uint ts - uint now" and "uint now \<le> uint ts"
    by (simp_all add: uint_sub_lem [THEN iffD1] word_le_def)
  with False show ?thesis
    by (auto simp: checkTimestamp_def Let_def timely_def word_less_def)
qed

lemma deriveKey_eq:
  "deriveKey so fh f = (case frame_key so fh (fr_header f) of
     Inr k \<Rightarrow> Inr k | Inl _ \<Rightarrow> Inl (makeError ''key_derivation_failed'' (fr_header f)))"
  by (simp add: deriveKey_def frame_key_def masterAsAeadKey_def)

lemma tryDecrypt_eq:
  "tryDecrypt so rnd now fh f window ws =
     (case frame_key so fh (fr_header f) of
        Inl _ \<Rightarrow> (makeError ''key_derivation_failed'' (fr_header f), ws)
      | Inr k \<Rightarrow>
        (case openWithNonce so (SecureAead_init [] k (fh_cipher (fh_config fh))) (fr_ct f) (fr_tag f)
                (frame_aad (fh_config fh) (fr_header f)) (h_nonce (fr_header f)) of
           Inl _ \<Rightarrow> (makeError ''decrypt_failed'' (fr_header f), ws)
         | Inr pt \<Rightarrow>
           if timely (fh_maxSkewMs (fh_config fh)) now (h_ts_unix_ms (fr_header f))
           then (accepted pt (fr_header f),
             case window of None \<Rightarrow> ws | Some w \<Rightarrow>
               if fh_antiReplayEnabled (fh_config fh)
               then ws(h_reader_id (fr_header f) \<mapsto> remember (h_seq (fr_header f)) w) else ws)
           else (makeError (if now \<ge> h_ts_unix_ms (fr_header f) then ''too_old'' else ''too_future'')
                   (fr_header f), ws)))"
proof (cases "frame_key so fh (fr_header f)")
  case (Inr k)
  let ?c = "fh_config fh"
  let ?fd = "\<lparr>fd_aead = SecureAead_init rnd k (fh_cipher ?c),
    fd_config = \<lparr>dcf_maxSkewMs = fh_maxSkewMs ?c, dcf_aadMode = fh_aadMode ?c\<rparr>\<rparr>"
  have opn: "decryptFrame so ?fd f = openWithNonce so (SecureAead_init [] k (fh_cipher ?c)) (fr_ct f)
      (fr_tag f) (frame_aad ?c (fr_header f)) (h_nonce (fr_header f))"
    by (simp add: decryptFrame_def frame_aad_def openWithNonce_prefix_irrelevant [of so rnd])
  have skew: "checkTimestamp ?fd now ts = (if timely (fh_maxSkewMs ?c) now ts then None
      else Some (if now \<ge> ts then ''too_old'' else ''too_future''))" for ts
    using checkTimestamp_iff [of ?fd now ts]
    by (auto simp: checkTimestamp_def Let_def split: if_splits)
  show ?thesis
    by (simp add: tryDecrypt_def deriveKey_eq Inr Let_def decrypt_def opn skew accepted_def split: sum.split)
qed (simp add: tryDecrypt_def deriveKey_eq)

lemma validateReader_passes:
  "validateReader fh f = Inr (None, kv) \<Longrightarrow> validateKeyVersion fh f kv = None \<Longrightarrow>
     reader_ok fh (fr_header f)"
  by (auto simp: validateReader_def validateKeyVersion_def reader_ok_def key_version_ok_def Let_def
      bindR_Inr_iff split: option.splits if_splits)

lemma reader_ok_passes:
  assumes "reader_ok fh (fr_header f)"
  obtains kv where "validateReader fh f = Inr (None, kv)" and "validateKeyVersion fh f kv = None"
  using assms
  by (auto simp: validateReader_def validateKeyVersion_def reader_ok_def key_version_ok_def Let_def)

lemma validateReader_error:
  "validateReader fh f = Inr (Some err, kv) \<Longrightarrow>
     \<exists>e. err = makeError e (fr_header f) \<and> e \<in> {''no_store'', ''unknown_reader'', ''reader_door_forbidden''}"
  by (auto simp: validateReader_def bindR_Inr_iff split: option.splits if_splits)

lemma validateKeyVersion_error:
  "validateKeyVersion fh f kv = Some err \<Longrightarrow> err = makeError ''bad_key_version'' (fr_header f)"
  by (auto simp: validateKeyVersion_def Let_def split: if_splits)

lemma checkReplay_eq:
  "checkReplay fh f ws =
     (let r = h_reader_id (fr_header f); w = window_for (fh_config fh) ws r in
      if \<not> fh_antiReplayEnabled (fh_config fh) then (None, None, ws)
      else if rw_contains w (h_seq (fr_header f))
      then (Some (makeError ''replay'' (fr_header f)), Some w, ws(r \<mapsto> w))
      else (None, Some w, ws(r \<mapsto> w)))"
  by (auto simp: checkReplay_def getOrCreateWindow_def window_for_def isReplay_def Let_def fun_upd_idem
      split: option.split)

lemma window_for_create [simp]:
  "window_for cfg (ws(r \<mapsto> window_for cfg ws r)) = window_for cfg ws"
  by (simp add: window_for_def fun_eq_iff)

lemma window_for_upd: "window_for cfg (ws(r \<mapsto> w)) = (window_for cfg ws)(r := w)"
  by (simp add: window_for_def fun_eq_iff)

text \<open>The windows after a frame: an accepted frame's number is remembered, nothing else changes.\<close>

definition windows_after :: "FrameHandlerConfig \<Rightarrow> Header \<Rightarrow> ReplayWindowMap \<Rightarrow> ReplayWindowMap" where
  "windows_after cfg h ws =
     (if fh_antiReplayEnabled cfg
      then ws(h_reader_id h \<mapsto> remember (h_seq h) (window_for cfg ws (h_reader_id h))) else ws)"

definition accepts :: "sodium \<Rightarrow> u64 \<Rightarrow> FrameHandler \<Rightarrow> ReplayWindowMap \<Rightarrow> bytes \<Rightarrow> Frame \<Rightarrow> bytes \<Rightarrow> bool" where
  "accepts so now fh ws bs f pt \<longleftrightarrow>
     parseFrame bs (fh_maxCtLen (fh_config fh)) = Inr f \<and> reader_ok fh (fr_header f) \<and>
     fresh (fh_config fh) ws (fr_header f) \<and> opens_to so fh f pt \<and>
     timely (fh_maxSkewMs (fh_config fh)) now (h_ts_unix_ms (fr_header f))"

lemma handle_accepts:
  assumes "accepts so now fh ws bs f pt"
  shows "handle so rnd now fh bs ws = (Inr (accepted pt (fr_header f)), windows_after (fh_config fh) (fr_header f) ws)"
proof -
  obtain kv where kv: "validateReader fh f = Inr (None, kv)" "validateKeyVersion fh f kv = None"
    using reader_ok_passes assms by (auto simp: accepts_def)
  obtain k where k: "frame_key so fh (fr_header f) = Inr k"
      "openWithNonce so (SecureAead_init [] k (fh_cipher (fh_config fh))) (fr_ct f) (fr_tag f)
       (frame_aad (fh_config fh) (fr_header f)) (h_nonce (fr_header f)) = Inr pt"
    using assms by (auto simp: accepts_def opens_to_def)
  show ?thesis
    using assms
    by (auto simp: accepts_def handle_def fh_parseFrame_def kv checkReplay_eq Let_def fresh_def
        tryDecrypt_eq k windows_after_def)
qed

definition reject_reasons :: "string set" where
  "reject_reasons = {''frame_too_small'', ''bad_magic'', ''bad_protocol_version'',
     ''ciphertext_too_large'', ''frame_truncated'', ''frame_trailing_bytes'',
     ''no_store'', ''unknown_reader'', ''reader_door_forbidden'', ''bad_key_version'', ''replay'',
     ''key_derivation_failed'', ''decrypt_failed'', ''too_old'', ''too_future''}"

lemma reasons_in [simp]:
  "''no_store'' \<in> reject_reasons" "''unknown_reader'' \<in> reject_reasons"
  "''reader_door_forbidden'' \<in> reject_reasons" "''bad_key_version'' \<in> reject_reasons"
  "''replay'' \<in> reject_reasons" "''key_derivation_failed'' \<in> reject_reasons"
  "''decrypt_failed'' \<in> reject_reasons" "''too_old'' \<in> reject_reasons" "''too_future'' \<in> reject_reasons"
  by (simp_all add: reject_reasons_def)

lemma parse_error_codes:
  "parseErrorToCode ''frame: too small'' = ''frame_too_small''"
  "parseErrorToCode ''frame: bad magic'' = ''bad_magic''"
  "parseErrorToCode ''frame: bad version'' = ''bad_protocol_version''"
  "parseErrorToCode ''frame: ctLen exceeds limit'' = ''ciphertext_too_large''"
  "parseErrorToCode ''frame: length mismatch'' = ''frame_truncated''"
  "parseErrorToCode ''frame: trailing bytes'' = ''frame_trailing_bytes''"
  by (simp_all add: parseErrorToCode_def)

lemma parse_spec_errors:
  "parse_spec bs m = Inl x \<Longrightarrow>
     \<exists>e \<in> {''frame: too small'', ''frame: bad magic'', ''frame: bad version'',
        ''frame: ctLen exceeds limit'', ''frame: length mismatch'', ''frame: trailing bytes''}.
       x = RuntimeError e"
  unfolding parse_spec_def Let_def bex_simps
  by (simp only: sum.inject sum.distinct simp_thms eq_commute [of _ x] split: if_split_asm)

lemma fh_parseFrame_error:
  assumes "fh_parseFrame fh bs = Inl err"
  shows "\<exists>e. err = makeError e empty_header \<and> e \<in> reject_reasons"
proof -
  obtain x where x: "parseFrame bs (fh_maxCtLen (fh_config fh)) = Inl x"
    using assms by (cases "parseFrame bs (fh_maxCtLen (fh_config fh))") (simp_all add: fh_parseFrame_def)
  then obtain e where "x = RuntimeError e" and e: "e \<in> {''frame: too small'', ''frame: bad magic'',
      ''frame: bad version'', ''frame: ctLen exceeds limit'', ''frame: length mismatch'', ''frame: trailing bytes''}"
    using parse_spec_errors by (metis parseFrame_eq_spec)
  then have "err = makeError (parseErrorToCode e) empty_header"
    using assms x by (simp add: fh_parseFrame_def)
  moreover have "parseErrorToCode e \<in> reject_reasons"
    using e by (elim insertE emptyE) (simp_all only: parse_error_codes, simp_all add: reject_reasons_def)
  ultimately show ?thesis by blast
qed

text \<open>The stages of \<^verbatim>\<open>handle\<close> that reject.\<close>

lemma handle_guard_error:
  assumes "fh_parseFrame fh bs = Inr f" and "validateReader fh f = Inr (err, kv)"
    and "err \<noteq> None \<or> validateKeyVersion fh f kv \<noteq> None"
  shows "\<exists>e h. handle so rnd now fh bs ws = (Inr (makeError e h), ws) \<and> e \<in> reject_reasons"
proof (cases err)
  case (Some x)
  then obtain e where "x = makeError e (fr_header f)" and "e \<in> reject_reasons"
    using validateReader_error [of fh f x kv] assms(2) by auto
  with Some assms(1,2) show ?thesis by (auto simp: handle_def)
next
  case None
  then obtain x where "validateKeyVersion fh f kv = Some x" using assms(3) by auto
  with validateKeyVersion_error [OF this] None assms(1,2) show ?thesis by (auto simp: handle_def)
qed

lemma handle_after_guards:
  assumes "fh_parseFrame fh bs = Inr f" and "validateReader fh f = Inr (None, kv)"
    and "validateKeyVersion fh f kv = None"
  shows "handle so rnd now fh bs ws = (case checkReplay fh f ws of
      (Some err, _, ws) \<Rightarrow> (Inr err, ws)
    | (None, window, ws) \<Rightarrow> (case tryDecrypt so rnd now fh f window ws of (r, ws) \<Rightarrow> (Inr r, ws)))"
  using assms by (simp add: handle_def)

lemma tryDecrypt_rejects:
  assumes "\<And>pt. opens_to so fh f pt \<Longrightarrow> \<not> timely (fh_maxSkewMs (fh_config fh)) now (h_ts_unix_ms (fr_header f))"
  shows "\<exists>e h. tryDecrypt so rnd now fh f window ws = (makeError e h, ws) \<and> e \<in> reject_reasons"
  using assms by (auto simp: tryDecrypt_eq opens_to_def split: sum.splits)

lemma handle_late_reject:
  assumes "fh_parseFrame fh bs = Inr f" and "validateReader fh f = Inr (None, kv)"
    and "validateKeyVersion fh f kv = None" and "\<nexists>f pt. accepts so now fh ws bs f pt"
  shows "\<exists>e h ws'. handle so rnd now fh bs ws = (Inr (makeError e h), ws') \<and> e \<in> reject_reasons \<and>
    window_for (fh_config fh) ws' = window_for (fh_config fh) ws"
proof (cases "fresh (fh_config fh) ws (fr_header f)")
  case False
  then show ?thesis
    by (auto simp: handle_after_guards [OF assms(1-3)] checkReplay_eq Let_def fresh_def)
next
  case True
  then have "\<exists>window ws'. checkReplay fh f ws = (None, window, ws') \<and>
      window_for (fh_config fh) ws' = window_for (fh_config fh) ws"
    by (cases "fh_antiReplayEnabled (fh_config fh)") (simp_all add: checkReplay_eq Let_def fresh_def)
  then obtain window ws' where cr: "checkReplay fh f ws = (None, window, ws')"
    and same: "window_for (fh_config fh) ws' = window_for (fh_config fh) ws" by blast
  have "parseFrame bs (fh_maxCtLen (fh_config fh)) = Inr f"
    using assms(1) by (auto simp: fh_parseFrame_def split: sum.splits exn.splits)
  with True assms(4) validateReader_passes [OF assms(2,3)]
  have "\<not> timely (fh_maxSkewMs (fh_config fh)) now (h_ts_unix_ms (fr_header f))" if "opens_to so fh f pt" for pt
    using that by (auto simp: accepts_def)
  then obtain e h where "tryDecrypt so rnd now fh f window ws' = (makeError e h, ws')"
    and "e \<in> reject_reasons" using tryDecrypt_rejects by meson
  then show ?thesis
    using same by (intro exI [of _ e] exI [of _ h] exI [of _ ws']) (simp add: handle_after_guards [OF assms(1-3)] cr)
qed

text \<open>Everything one call can do: the store throws and nothing has changed; the frame is rejected
  for one of the listed reasons and the windows stand for the same numbers; or it is accepted.\<close>

lemma handle_cases:
  obtains (throws) e where "handle so rnd now fh bs ws = (Inl e, ws)"
      and "\<exists>f. validateReader fh f = Inl e"
  | (rejects) e h ws' where "handle so rnd now fh bs ws = (Inr (makeError e h), ws')"
      and "e \<in> reject_reasons" and "window_for (fh_config fh) ws' = window_for (fh_config fh) ws"
      and "\<nexists>f pt. accepts so now fh ws bs f pt"
  | (accepts) f pt where "accepts so now fh ws bs f pt"
proof (cases "\<exists>f pt. accepts so now fh ws bs f pt")
  case True
  then show thesis using that(3) by blast
next
  case no: False
  note rejectI = that(2) [OF _ _ _ no]
  show thesis
  proof (cases "fh_parseFrame fh bs")
    case (Inl err)
    then show thesis
      using rejectI [of _ empty_header ws] fh_parseFrame_error [OF Inl] by (auto simp: handle_def)
  next
    case parsed: (Inr f)
    show thesis
    proof (cases "validateReader fh f")
      case (Inl e)
      then show thesis using that(1) [of e] parsed by (auto simp: handle_def)
    next
      case (Inr x)
      then obtain err kv where x: "validateReader fh f = Inr (err, kv)" by (cases x) simp
      show thesis
      proof (cases "err = None \<and> validateKeyVersion fh f kv = None")
        case True
        with handle_late_reject [OF parsed, of kv so now ws rnd] no x show thesis
          by (auto intro: rejectI)
      next
        case False
        with handle_guard_error [OF parsed x, of so rnd now ws] show thesis
          by (auto intro: rejectI)
      qed
    qed
  qed
qed

lemma accepts_unique: "accepts so now fh ws bs f pt \<Longrightarrow> accepts so now fh ws bs g q \<Longrightarrow> f = g \<and> pt = q"
  by (auto simp: accepts_def opens_to_def)

lemma accepted_eq [simp]: "accepted p h = accepted q g \<longleftrightarrow> p = q \<and> h = g"
    "hr_allow (accepted p h)" "hr_header (accepted p h) = h" "hr_plaintext (accepted p h) = p"
    "hr_reason (accepted p h) = ''ok''"
  by (auto simp: accepted_def)

lemma handle_allow_iff:
  "(\<exists>r. fst (handle so rnd now fh bs ws) = Inr r \<and> hr_allow r) \<longleftrightarrow> (\<exists>f pt. accepts so now fh ws bs f pt)"
  by (rule handle_cases [of so rnd now fh bs ws]) (auto simp: handle_accepts dest: accepts_unique)

lemma handle_accepted_iff:
  "fst (handle so rnd now fh bs ws) = Inr (accepted pt h) \<longleftrightarrow>
     (\<exists>f. accepts so now fh ws bs f pt \<and> fr_header f = h)"
  by (rule handle_cases [of so rnd now fh bs ws]) (auto simp: handle_accepts dest: accepts_unique)

lemma handle_allowD:
  assumes "fst (handle so rnd now fh bs ws) = Inr r" and "hr_allow r"
  obtains f pt where "accepts so now fh ws bs f pt" and "r = accepted pt (fr_header f)"
  using assms handle_allow_iff [of so rnd now fh bs ws] handle_accepts [of so now fh ws bs _ _ rnd] by auto

lemma handle_windows:
  "window_for (fh_config fh) (snd (handle so rnd now fh bs ws)) =
     (case fst (handle so rnd now fh bs ws) of
        Inr r \<Rightarrow> if hr_allow r then window_for (fh_config fh) (windows_after (fh_config fh) (hr_header r) ws)
                 else window_for (fh_config fh) ws
      | Inl _ \<Rightarrow> window_for (fh_config fh) ws)"
  by (rule handle_cases [of so rnd now fh bs ws]) (auto simp: handle_accepts)

lemma sealed_for_iff:
  assumes "sodium_spec so"
  shows "sealed_for so fh h pt bs \<longleftrightarrow>
    (\<exists>f. parseFrame bs (fh_maxCtLen (fh_config fh)) = Inr f \<and> fr_header f = h \<and> opens_to so fh f pt)"
proof
  assume "sealed_for so fh h pt bs"
  then obtain k ct tag where k: "frame_key so fh h = Inr k"
    and seal: "sealWithNonce so (SecureAead_init [] k (fh_cipher (fh_config fh))) pt
       (frame_aad (fh_config fh) h) (h_nonce h) = Inr \<lparr>c_ct = ct, c_tag = tag, c_nonce = h_nonce h\<rparr>"
    and wf: "wf_header h" and len: "length pt \<le> unat (fh_maxCtLen (fh_config fh))"
    and bs: "bs = serialize \<lparr>fr_header = h, fr_ct = ct, fr_tag = tag\<rparr>"
    by (auto simp: sealed_for_def)
  have "length ct = length pt \<and> length tag = 16"
    using sealWithNonce_ok [OF assms] seal by (metis Ciphertext.ext_inject sum.inject(2))
  with wf len have "parseFrame bs (fh_maxCtLen (fh_config fh)) = Inr \<lparr>fr_header = h, fr_ct = ct, fr_tag = tag\<rparr>"
    unfolding bs parseFrame_eq_spec by (intro parse_spec_serialize) (simp_all add: wf_frame_def)
  moreover have "opens_to so fh \<lparr>fr_header = h, fr_ct = ct, fr_tag = tag\<rparr> pt"
    using k seal_opens [OF assms seal] by (simp add: opens_to_def)
  ultimately show "\<exists>f. parseFrame bs (fh_maxCtLen (fh_config fh)) = Inr f \<and> fr_header f = h \<and> opens_to so fh f pt"
    by (metis Frame.select_convs(1))
next
  assume "\<exists>f. parseFrame bs (fh_maxCtLen (fh_config fh)) = Inr f \<and> fr_header f = h \<and> opens_to so fh f pt"
  then obtain f k where f: "parse_spec bs (fh_maxCtLen (fh_config fh)) = Inr f" "fr_header f = h"
    and k: "frame_key so fh h = Inr k"
    and opn: "openWithNonce so (SecureAead_init [] k (fh_cipher (fh_config fh))) (fr_ct f) (fr_tag f)
       (frame_aad (fh_config fh) h) (h_nonce h) = Inr pt"
    by (auto simp: opens_to_def parseFrame_eq_spec)
  have wf: "wf_frame f \<and> length (fr_ct f) \<le> unat (fh_maxCtLen (fh_config fh)) \<and> serialize f = bs"
    using f(1) by (rule parse_spec_sound)
  then have seal: "sealWithNonce so (SecureAead_init [] k (fh_cipher (fh_config fh))) pt
      (frame_aad (fh_config fh) h) (h_nonce h) = Inr \<lparr>c_ct = fr_ct f, c_tag = fr_tag f, c_nonce = h_nonce h\<rparr>"
    using opn by (intro open_sealed [OF assms]) (simp_all add: wf_frame_def)
  then have "length pt = length (fr_ct f)"
    using sealWithNonce_ok [OF assms] by (metis Ciphertext.ext_inject sum.inject(2))
  moreover have "bs = serialize \<lparr>fr_header = h, fr_ct = fr_ct f, fr_tag = fr_tag f\<rparr>"
    using wf f(2) by (cases f) simp
  ultimately show "sealed_for so fh h pt bs"
    using seal k wf f(2) unfolding sealed_for_def wf_frame_def by metis
qed

section \<open>Runs of the handler\<close>

text \<open>A call: what the store answers then, the random bytes, the clock and the frame.\<close>

type_synonym handler_call = "IAccessStore option \<times> bytes \<times> u64 \<times> bytes"

definition handle_call :: "sodium \<Rightarrow> FrameHandler \<Rightarrow> handler_call \<Rightarrow> (ReplayWindowMap, HandleResult) prog" where
  "handle_call so fh c = (case c of (store, rnd, now, bs) \<Rightarrow> handle so rnd now (fh\<lparr>fh_store := store\<rparr>) bs)"

fun handle_calls :: "sodium \<Rightarrow> FrameHandler \<Rightarrow> handler_call list \<Rightarrow> ReplayWindowMap \<Rightarrow> ReplayWindowMap" where
  "handle_calls so fh [] ws = ws"
| "handle_calls so fh (c # cs) ws = handle_calls so fh cs (snd (handle_call so fh c ws))"

definition windows_inv :: "FrameHandlerConfig \<Rightarrow> ReplayWindowMap \<Rightarrow> bool" where
  "windows_inv cfg ws \<longleftrightarrow>
     (\<forall>r. rw_inv (window_for cfg ws r) \<and> rw_window (window_for cfg ws r) = window_size cfg)"

lemma windows_inv_init: "windows_inv cfg (\<lambda>_. None)"
  by (simp add: windows_inv_def window_for_def ReplayWindow_init_def rw_inv_def)

text \<open>A call either leaves a reader's window or notes one number in it.\<close>

lemma handle_call_window:
  "\<exists>qs. length qs \<le> 1 \<and>
     window_for (fh_config fh) (snd (handle_call so fh c ws)) r = fold remember qs (window_for (fh_config fh) ws r)"
proof -
  obtain store rnd now bs where c: "c = (store, rnd, now, bs)" by (cases c) auto
  let ?fh = "fh\<lparr>fh_store := store\<rparr>" and ?w = "window_for (fh_config fh)"
  have one: "\<exists>qs. length qs \<le> 1 \<and> ?w (windows_after (fh_config fh) h ws) r = fold remember qs (?w ws r)" for h
    by (auto simp: windows_after_def window_for_upd intro: exI [of _ "[h_seq h]"] exI [of _ "[]"])
  show ?thesis
    using handle_windows [of ?fh so rnd now bs ws] one
    by (auto simp: c handle_call_def intro: exI [of _ "[]"] split: sum.splits if_splits)
qed

lemma handle_calls_window:
  "\<exists>qs. length qs \<le> length cs \<and>
     window_for (fh_config fh) (handle_calls so fh cs ws) r = fold remember qs (window_for (fh_config fh) ws r)"
proof (induction cs arbitrary: ws)
  case (Cons c cs)
  obtain ps where "length ps \<le> 1"
    and ps: "window_for (fh_config fh) (snd (handle_call so fh c ws)) r = fold remember ps (window_for (fh_config fh) ws r)"
    using handle_call_window by blast
  moreover obtain qs where "length qs \<le> length cs"
    and "window_for (fh_config fh) (handle_calls so fh cs (snd (handle_call so fh c ws))) r =
      fold remember qs (window_for (fh_config fh) (snd (handle_call so fh c ws)) r)"
    using Cons.IH by blast
  ultimately show ?case by (intro exI [of _ "ps @ qs"]) simp
qed simp

lemma windows_inv_calls: "windows_inv (fh_config fh) ws \<Longrightarrow> windows_inv (fh_config fh) (handle_calls so fh cs ws)"
proof -
  assume inv: "windows_inv (fh_config fh) ws"
  have "rw_inv (window_for (fh_config fh) (handle_calls so fh cs ws) r) \<and>
      rw_window (window_for (fh_config fh) (handle_calls so fh cs ws) r) = window_size (fh_config fh)" for r
  proof -
    obtain qs where "window_for (fh_config fh) (handle_calls so fh cs ws) r = fold remember qs (window_for (fh_config fh) ws r)"
      using handle_calls_window by blast
    moreover have "rw_inv (window_for (fh_config fh) ws r)" using inv by (simp add: windows_inv_def)
    ultimately show ?thesis
      using rwg.invar_run rwg.capacity_run [unfolded word_unat_eq_iff [symmetric]] inv
      by (simp add: windows_inv_def)
  qed
  then show ?thesis by (simp add: windows_inv_def)
qed

section \<open>A concrete installation\<close>

text \<open>One reader, one door and the concrete primitives, for the witnesses: the shared-key mode with
  default settings otherwise, and a frame of reader 1 with number 5.\<close>

definition demo_store :: IAccessStore where
  "demo_store = \<lparr>st_roleForCardHmac = (\<lambda>_. Inr (Some ''staff'')), st_isAllowed = (\<lambda>_ _. Inr True),
     st_currentKeyVersionForReader = (\<lambda>r. Inr (if r = 1 then 1 else 0)),
     st_isReaderAllowedDoor = (\<lambda>r d. Inr (r = 1 \<and> d = 7))\<rparr>"

definition demo_handler :: FrameHandler where
  "demo_handler = \<lparr>fh_keyManager = \<lparr>km_masterKey = replicate 32 1,
       km_cfg = \<lparr>kc_currentKeyVersion = 1, kc_allowPreviousKeyVersion = True\<rparr>\<rparr>,
     fh_store = Some demo_store,
     fh_config = default_FrameHandlerConfig\<lparr>fh_keyDerivationMode := ''direct''\<rparr>\<rparr>"

definition demo_header :: Header where
  "demo_header = empty_header\<lparr>h_reader_id := 1, h_door_id := 7, h_seq := 5, h_key_version := 1\<rparr>"

definition demo_frame :: "bytes \<Rightarrow> bytes" where
  "demo_frame pt = serialize \<lparr>fr_header = demo_header, fr_ct = pt,
     fr_tag = replicate 16 (toy_sum (replicate 32 1 @ take 24 (h_nonce demo_header) @ to_bytes demo_header @ pt))\<rparr>"

lemma demo_sealed: "length pt \<le> 4096 \<Longrightarrow> sealed_for toy_sodium demo_handler demo_header pt (demo_frame pt)"
  by (simp add: sealed_for_def frame_key_def demo_handler_def default_FrameHandlerConfig_def demo_frame_def
      sealWithNonce_def encryptDetached_def SecureAead_init_def fh_cipher_def toy_sodium_def
      toy_encrypt_def frame_aad_def demo_header_def empty_header_def wf_header_def)

lemma demo_reader_ok: "reader_ok demo_handler demo_header"
  by (simp add: reader_ok_def demo_handler_def demo_store_def demo_header_def empty_header_def
      key_version_ok_def default_FrameHandlerConfig_def)

lemma demo_accepts:
  assumes "length pt \<le> 4096" and "fresh (fh_config demo_handler) ws demo_header"
  shows "fst (handle toy_sodium rnd now demo_handler (demo_frame pt) ws) = Inr (accepted pt demo_header)"
  using demo_sealed [OF assms(1)] demo_reader_ok assms(2)
  by (auto simp: handle_accepted_iff accepts_def sealed_for_iff [OF toy_sodium_spec] timely_def
      demo_handler_def default_FrameHandlerConfig_def)

lemma fresh_init: "fresh cfg (\<lambda>_. None) h"
  by (simp add: fresh_def window_for_def ReplayWindow_init_def rw_contains_def isTooOld_def)

lemma no_second_acceptance:
  assumes "fh_antiReplayEnabled (fh_config fh)"
    and "ws = handle_calls so fh before (\<lambda>_. None)"
    and "fst (handle_call so fh c ws) = Inr r" and "hr_allow r"
    and "length cs < unat (window_size (fh_config fh))"
  shows "\<nexists>r'. fst (handle_call so fh c' (handle_calls so fh cs (snd (handle_call so fh c ws)))) = Inr r' \<and>
    hr_allow r' \<and> h_reader_id (hr_header r') = h_reader_id (hr_header r) \<and>
    h_seq (hr_header r') = h_seq (hr_header r)"
proof
  let ?w = "window_for (fh_config fh)" and ?r = "h_reader_id (hr_header r)" and ?q = "h_seq (hr_header r)"
  let ?ws' = "handle_calls so fh cs (snd (handle_call so fh c ws))"
  assume "\<exists>r'. fst (handle_call so fh c' ?ws') = Inr r' \<and> hr_allow r' \<and>
    h_reader_id (hr_header r') = ?r \<and> h_seq (hr_header r') = ?q"
  then obtain r' where r': "fst (handle_call so fh c' ?ws') = Inr r'" "hr_allow r'"
      "h_reader_id (hr_header r') = ?r" "h_seq (hr_header r') = ?q" by blast
  obtain st rnd now bs where c: "c = (st, rnd, now, bs)" by (cases c) auto
  obtain st' rnd' now' bs' where c': "c' = (st', rnd', now', bs')" by (cases c') auto
  have inv: "rw_inv (?w ws ?r)" and size: "rw_window (?w ws ?r) = window_size (fh_config fh)"
    using windows_inv_calls [OF windows_inv_init, of fh so before] by (simp_all add: assms(2) windows_inv_def)
  have new: "\<not> rw_contains (?w ws ?r) ?q"
    using assms(1,3,4) by (auto simp: c handle_call_def accepts_def fresh_def elim!: handle_allowD)
  have held: "\<not> rw_contains (?w ?ws' ?r) ?q"
    using r' assms(1) by (auto simp: c' handle_call_def accepts_def fresh_def elim!: handle_allowD)
  have noted: "?w (snd (handle_call so fh c ws)) ?r = remember ?q (?w ws ?r)"
    using handle_windows [of "fh\<lparr>fh_store := st\<rparr>" so rnd now bs ws] assms(1,3,4)
    by (simp add: c handle_call_def windows_after_def window_for_upd)
  obtain qs where "length qs \<le> length cs" and "?w ?ws' ?r = fold remember qs (remember ?q (?w ws ?r))"
    using handle_calls_window noted by metis
  with rwg.noted_stays_held [OF inv new, of qs] size assms(5) held show False by simp
qed

section \<open>Properties\<close>

text \<open>
  C14: the handler accepts exactly the authentic, authorised, fresh and timely frames. Its verdict on
  some bytes is allow, with a plaintext and a header, if and only if the bytes are the
  serialization of that header with a sealing of that plaintext under the key of the header's
  reader and version, with the header itself as additional data; the reader is known, its current
  or (where allowed) previous key version is named and it is bound to the door; its number is not
  in the replay window; and its time stamp is within the allowed skew of the clock.
\<close>

theorem handler_accepts_exactly_sealed:
  assumes "sodium_spec so"
  shows "fst (handle so rnd now fh bs ws) = Inr (accepted pt h) \<longleftrightarrow>
    sealed_for so fh h pt bs \<and> reader_ok fh h \<and> fresh (fh_config fh) ws h \<and>
    timely (fh_maxSkewMs (fh_config fh)) now (h_ts_unix_ms h)"
  unfolding handle_accepted_iff sealed_for_iff [OF assms] accepts_def by blast

theorem handler_accepts_exactly_sealed_witness:
  "fst (handle toy_sodium [] 0 demo_handler (demo_frame [1, 2, 3]) (\<lambda>_. None)) = Inr (accepted [1, 2, 3] demo_header) \<longleftrightarrow>
    sealed_for toy_sodium demo_handler demo_header [1, 2, 3] (demo_frame [1, 2, 3]) \<and>
    reader_ok demo_handler demo_header \<and> fresh (fh_config demo_handler) (\<lambda>_. None) demo_header \<and>
    timely (fh_maxSkewMs (fh_config demo_handler)) 0 (h_ts_unix_ms demo_header)"
  by (rule handler_accepts_exactly_sealed [OF toy_sodium_spec])

text \<open>
  C16: what the handler remembers. After any call the replay windows stand for the same numbers as
  before, except that an allowed frame's number is added to its reader's window when replay
  protection is on. Rejected frames, forged ones included, and calls that end in an exception of
  the store leave no trace.
\<close>

theorem handler_remembers_accepted_only:
  "window_for (fh_config fh) (snd (handle so rnd now fh bs ws)) =
     (case fst (handle so rnd now fh bs ws) of
        Inl _ \<Rightarrow> window_for (fh_config fh) ws
      | Inr r \<Rightarrow>
        if hr_allow r \<and> fh_antiReplayEnabled (fh_config fh)
        then (window_for (fh_config fh) ws)(h_reader_id (hr_header r) :=
               remember (h_seq (hr_header r)) (window_for (fh_config fh) ws (h_reader_id (hr_header r))))
        else window_for (fh_config fh) ws)"
  unfolding handle_windows [of fh so rnd now bs ws]
  by (simp add: windows_after_def window_for_upd split: sum.split)

text \<open>
  C15: no frame is accepted twice within the window. Let replay protection be on, and let a frame be
  allowed at any point of any run of the handler. Then, through all of the next calls as long as
  they are fewer than the window's size, whatever they are and whatever the store and the clock do,
  no frame that names the same reader and number is allowed.
\<close>

theorem accepted_once:
  assumes "fh_antiReplayEnabled (fh_config fh)"
    and "ws = handle_calls so fh before (\<lambda>_. None)"
    and "fst (handle_call so fh c ws) = Inr r" and "hr_allow r"
    and "length cs < unat (window_size (fh_config fh))"
  shows "\<nexists>r'. fst (handle_call so fh c' (handle_calls so fh cs (snd (handle_call so fh c ws)))) = Inr r' \<and>
    hr_allow r' \<and> h_reader_id (hr_header r') = h_reader_id (hr_header r) \<and>
    h_seq (hr_header r') = h_seq (hr_header r)"
  by (rule no_second_acceptance [OF assms])

theorem accepted_once_witness:
  "\<nexists>r'. fst (handle_call toy_sodium demo_handler (Some demo_store, [], 0, demo_frame [9])
      (handle_calls toy_sodium demo_handler [(None, [], 0, [])]
        (snd (handle_call toy_sodium demo_handler (Some demo_store, [], 0, demo_frame [9])
          (handle_calls toy_sodium demo_handler [] (\<lambda>_. None)))))) = Inr r' \<and>
    hr_allow r' \<and> h_reader_id (hr_header r') = h_reader_id (hr_header (accepted [9] demo_header)) \<and>
    h_seq (hr_header r') = h_seq (hr_header (accepted [9] demo_header))"
proof (rule accepted_once [where before = "[]"])
  have "demo_handler\<lparr>fh_store := Some demo_store\<rparr> = demo_handler" by (simp add: demo_handler_def)
  then show "fst (handle_call toy_sodium demo_handler (Some demo_store, [], 0, demo_frame [9])
      (handle_calls toy_sodium demo_handler [] (\<lambda>_. None))) = Inr (accepted [9] demo_header)"
    using demo_accepts [of "[9]" "\<lambda>_. None"] fresh_init by (simp add: handle_call_def)
qed (simp_all add: demo_handler_def default_FrameHandlerConfig_def window_size_def)

text \<open>
  C38: every outcome of the handler. It throws only what a query of the store threw; it allows with
  the reason \<open>ok\<close>; and it rejects with one of fifteen reasons and no plaintext. The reason
  \<open>mac_verification_failed\<close> is none of them: a failed authentication is reported as
  \<open>decrypt_failed\<close>.
\<close>

theorem handler_outcomes:
  "case fst (handle so rnd now fh bs ws) of
     Inl e \<Rightarrow> \<exists>f. validateReader fh f = Inl e
   | Inr r \<Rightarrow> if hr_allow r then hr_reason r = ''ok''
             else hr_reason r \<in> reject_reasons \<and> hr_reason r \<noteq> ''mac_verification_failed'' \<and>
                  hr_plaintext r = []"
proof -
  have "''mac_verification_failed'' \<notin> reject_reasons" by (simp add: reject_reasons_def)
  then have "e \<in> reject_reasons \<Longrightarrow> e \<noteq> ''mac_verification_failed''" for e by blast
  then show ?thesis
    by (rule_tac handle_cases [of so rnd now fh bs ws]) (auto simp: handle_accepts)
qed

end
