(* ===== verification/Config_Loader.thy ===== *)
theory Config_Loader
  imports Frame_Handler
begin

text \<open>
  \<^verbatim>\<open>config_loader/src/config.cpp\<close>: the configuration read from YAML. The YAML library is a parameter:
  the file as a node, the look-up of a key in a node, and the conversions of a node, each of which
  may throw. A section or key that is absent leaves the default of the struct.
\<close>

section \<open>The YAML library\<close>

record 'n yaml_lib =
  yl_load :: "string \<Rightarrow> string + 'n"
  yl_get :: "'n \<Rightarrow> string \<Rightarrow> 'n option result"
  yl_bool :: "'n \<Rightarrow> bool result"
  yl_u16 :: "'n \<Rightarrow> u16 result"
  yl_u32 :: "'n \<Rightarrow> u32 result"
  yl_u64 :: "'n \<Rightarrow> u64 result"
  yl_string :: "'n \<Rightarrow> string result"

text \<open>\<open>None\<close> is an undefined node.\<close>

definition readValue ::
    "'n yaml_lib \<Rightarrow> ('n \<Rightarrow> 'a result) \<Rightarrow> 'n option \<Rightarrow> string \<Rightarrow> 'a \<Rightarrow> 'a result" where
  "readValue yl as_T node key defaultValue =
     (case node of
        None \<Rightarrow> Inr defaultValue
      | Some n \<Rightarrow> bindR (yl_get yl n key) (\<lambda>v. case v of None \<Rightarrow> Inr defaultValue | Some v \<Rightarrow> as_T v))"

section \<open>The sections\<close>

record StorageConfig =
  sc_sqlitePath :: string

record AdminConfig =
  adm_bindHost :: string
  adm_port :: u16
  adm_adminToken :: string
  adm_hwSharedSecretHex :: string
  adm_maxUploadBytes :: u64
  adm_maxEvents :: u64
  adm_decisionMode :: string
  adm_decisionUrl :: string

record KeyManagementYaml =
  kmy_currentKeyVersion :: u32
  kmy_allowPreviousKeyVersion :: bool
  kmy_masterKeyPath :: string

record ExperimentConfig =
  ex_cipherMode :: string
  ex_nonceMode :: string
  ex_keyDerivationMode :: string
  ex_aadMode :: string
  ex_pepperMode :: string
  ex_auditChainEnabled :: bool
  ex_misuseDetectionEnabled :: bool
  ex_rollbackThreshold :: u64
  ex_tagFailStreakLimit :: u32

record Config =
  cf_frameHandler :: FrameHandlerConfig
  cf_storage :: StorageConfig
  cf_admin :: AdminConfig
  cf_keyManagement :: KeyManagementYaml
  cf_experiment :: ExperimentConfig

definition default_StorageConfig :: StorageConfig where
  "default_StorageConfig = \<lparr>sc_sqlitePath = ''data/access.db''\<rparr>"

definition default_AdminConfig :: AdminConfig where
  "default_AdminConfig =
     \<lparr>adm_bindHost = ''127.0.0.1'', adm_port = 8080, adm_adminToken = [], adm_hwSharedSecretHex = [],
      adm_maxUploadBytes = 20 * 1024 * 1024, adm_maxEvents = 1024, adm_decisionMode = ''local'',
      adm_decisionUrl = ''http://127.0.0.1:8081''\<rparr>"

definition default_KeyManagementYaml :: KeyManagementYaml where
  "default_KeyManagementYaml =
     \<lparr>kmy_currentKeyVersion = 1, kmy_allowPreviousKeyVersion = True,
      kmy_masterKeyPath = ''secrets/master_key.hex''\<rparr>"

definition default_ExperimentConfig :: ExperimentConfig where
  "default_ExperimentConfig =
     \<lparr>ex_cipherMode = ''xchacha20'', ex_nonceMode = ''deterministic'', ex_keyDerivationMode = ''hkdf'',
      ex_aadMode = ''full'', ex_pepperMode = ''versioned'', ex_auditChainEnabled = True,
      ex_misuseDetectionEnabled = False, ex_rollbackThreshold = 100, ex_tagFailStreakLimit = 5\<rparr>"

section \<open>The loaders\<close>

definition loadFrameHandler :: "'n yaml_lib \<Rightarrow> 'n option \<Rightarrow> FrameHandlerConfig result" where
  "loadFrameHandler yl node =
     (let cfg = default_FrameHandlerConfig in
      bindR (readValue yl (yl_bool yl) node ''anti_replay_enabled'' (fh_antiReplayEnabled cfg)) (\<lambda>v.
      let cfg = cfg\<lparr>fh_antiReplayEnabled := v\<rparr> in
      bindR (readValue yl (yl_u64 yl) node ''replay_window_size'' (fh_replayWindowSize cfg)) (\<lambda>v.
      let cfg = cfg\<lparr>fh_replayWindowSize := v\<rparr> in
      bindR (readValue yl (yl_u32 yl) node ''max_ct_len'' (fh_maxCtLen cfg)) (\<lambda>v.
      let cfg = cfg\<lparr>fh_maxCtLen := v\<rparr> in
      bindR (readValue yl (yl_u64 yl) node ''max_skew_ms'' (fh_maxSkewMs cfg)) (\<lambda>v.
      let cfg = cfg\<lparr>fh_maxSkewMs := v\<rparr> in
      bindR (readValue yl (yl_bool yl) node ''allow_previous_key_version'' (fh_allowPreviousKeyVersion cfg)) (\<lambda>v.
      let cfg = cfg\<lparr>fh_allowPreviousKeyVersion := v\<rparr> in
      bindR (readValue yl (yl_bool yl) node ''enforce_reader_door_binding'' (fh_enforceReaderDoorBinding cfg)) (\<lambda>v.
      let cfg = cfg\<lparr>fh_enforceReaderDoorBinding := v\<rparr> in
      if fh_antiReplayEnabled cfg \<and> fh_replayWindowSize cfg = 0
      then Inl (RuntimeError ''config: replay_window_size must be > 0 when anti_replay_enabled'')
      else Inr cfg)))))))"

definition loadStorage :: "'n yaml_lib \<Rightarrow> 'n option \<Rightarrow> StorageConfig result" where
  "loadStorage yl node =
     (let cfg = default_StorageConfig in
      bindR (readValue yl (yl_string yl) node ''sqlite_path'' (sc_sqlitePath cfg)) (\<lambda>v.
      Inr (cfg\<lparr>sc_sqlitePath := v\<rparr>)))"

definition loadAdmin :: "'n yaml_lib \<Rightarrow> 'n option \<Rightarrow> AdminConfig result" where
  "loadAdmin yl node =
     (let cfg = default_AdminConfig in
      bindR (readValue yl (yl_string yl) node ''bind_host'' (adm_bindHost cfg)) (\<lambda>v.
      let cfg = cfg\<lparr>adm_bindHost := v\<rparr> in
      bindR (readValue yl (yl_u16 yl) node ''port'' (adm_port cfg)) (\<lambda>v.
      let cfg = cfg\<lparr>adm_port := v\<rparr> in
      bindR (readValue yl (yl_string yl) node ''admin_token'' (adm_adminToken cfg)) (\<lambda>v.
      let cfg = cfg\<lparr>adm_adminToken := v\<rparr> in
      bindR (readValue yl (yl_string yl) node ''hw_shared_secret_hex'' (adm_hwSharedSecretHex cfg)) (\<lambda>v.
      let cfg = cfg\<lparr>adm_hwSharedSecretHex := v\<rparr> in
      bindR (readValue yl (yl_u64 yl) node ''max_upload_bytes'' (adm_maxUploadBytes cfg)) (\<lambda>v.
      let cfg = cfg\<lparr>adm_maxUploadBytes := v\<rparr> in
      bindR (readValue yl (yl_u64 yl) node ''max_events'' (adm_maxEvents cfg)) (\<lambda>v.
      let cfg = cfg\<lparr>adm_maxEvents := v\<rparr> in
      bindR (readValue yl (yl_string yl) node ''decision_mode'' (adm_decisionMode cfg)) (\<lambda>v.
      let cfg = cfg\<lparr>adm_decisionMode := v\<rparr> in
      bindR (readValue yl (yl_string yl) node ''decision_url'' (adm_decisionUrl cfg)) (\<lambda>v.
      Inr (cfg\<lparr>adm_decisionUrl := v\<rparr>))))))))))"

definition loadKeyManagement :: "'n yaml_lib \<Rightarrow> 'n option \<Rightarrow> KeyManagementYaml result" where
  "loadKeyManagement yl node =
     (let cfg = default_KeyManagementYaml in
      bindR (readValue yl (yl_u32 yl) node ''current_key_version'' (kmy_currentKeyVersion cfg)) (\<lambda>v.
      let cfg = cfg\<lparr>kmy_currentKeyVersion := v\<rparr> in
      bindR (readValue yl (yl_bool yl) node ''allow_previous_key_version'' (kmy_allowPreviousKeyVersion cfg)) (\<lambda>v.
      let cfg = cfg\<lparr>kmy_allowPreviousKeyVersion := v\<rparr> in
      bindR (readValue yl (yl_string yl) node ''master_key_path'' (kmy_masterKeyPath cfg)) (\<lambda>v.
      Inr (cfg\<lparr>kmy_masterKeyPath := v\<rparr>)))))"

definition loadExperiment :: "'n yaml_lib \<Rightarrow> 'n option \<Rightarrow> ExperimentConfig result" where
  "loadExperiment yl node =
     (let cfg = default_ExperimentConfig in
      bindR (readValue yl (yl_string yl) node ''cipher_mode'' (ex_cipherMode cfg)) (\<lambda>v.
      let cfg = cfg\<lparr>ex_cipherMode := v\<rparr> in
      bindR (readValue yl (yl_string yl) node ''nonce_mode'' (ex_nonceMode cfg)) (\<lambda>v.
      let cfg = cfg\<lparr>ex_nonceMode := v\<rparr> in
      bindR (readValue yl (yl_string yl) node ''key_derivation_mode'' (ex_keyDerivationMode cfg)) (\<lambda>v.
      let cfg = cfg\<lparr>ex_keyDerivationMode := v\<rparr> in
      bindR (readValue yl (yl_string yl) node ''aad_mode'' (ex_aadMode cfg)) (\<lambda>v.
      let cfg = cfg\<lparr>ex_aadMode := v\<rparr> in
      bindR (readValue yl (yl_string yl) node ''pepper_mode'' (ex_pepperMode cfg)) (\<lambda>v.
      let cfg = cfg\<lparr>ex_pepperMode := v\<rparr> in
      bindR (readValue yl (yl_bool yl) node ''audit_chain_enabled'' (ex_auditChainEnabled cfg)) (\<lambda>v.
      let cfg = cfg\<lparr>ex_auditChainEnabled := v\<rparr> in
      bindR (readValue yl (yl_bool yl) node ''misuse_detection_enabled'' (ex_misuseDetectionEnabled cfg)) (\<lambda>v.
      let cfg = cfg\<lparr>ex_misuseDetectionEnabled := v\<rparr> in
      bindR (readValue yl (yl_u64 yl) node ''rollback_threshold'' (ex_rollbackThreshold cfg)) (\<lambda>v.
      let cfg = cfg\<lparr>ex_rollbackThreshold := v\<rparr> in
      bindR (readValue yl (yl_u32 yl) node ''tag_fail_streak_limit'' (ex_tagFailStreakLimit cfg)) (\<lambda>v.
      Inr (cfg\<lparr>ex_tagFailStreakLimit := v\<rparr>)))))))))))"

definition loadFromYaml :: "'n yaml_lib \<Rightarrow> string \<Rightarrow> Config result" where
  "loadFromYaml yl path =
     (case yl_load yl path of
        Inl what \<Rightarrow> Inl (RuntimeError (''config: failed to load yaml: '' @ what))
      | Inr root \<Rightarrow>
        bindR (bindR (yl_get yl root ''frame_handler'') (loadFrameHandler yl)) (\<lambda>frameHandler.
        bindR (bindR (yl_get yl root ''storage'') (loadStorage yl)) (\<lambda>storage.
        bindR (bindR (yl_get yl root ''admin'') (loadAdmin yl)) (\<lambda>admin.
        bindR (bindR (yl_get yl root ''key_management'') (loadKeyManagement yl)) (\<lambda>keyManagement.
        bindR (bindR (yl_get yl root ''experiment'') (loadExperiment yl)) (\<lambda>experiment.
          Inr \<lparr>cf_frameHandler = frameHandler, cf_storage = storage, cf_admin = admin,
            cf_keyManagement = keyManagement, cf_experiment = experiment\<rparr>))))))"

section \<open>Behaviour\<close>

lemma readValue_absent [simp]: "readValue yl f None k d = Inr d"
  by (simp add: readValue_def)

lemma readValue_missing: "yl_get yl n k = Inr None \<Longrightarrow> readValue yl f (Some n) k d = Inr d"
  by (simp add: readValue_def)

text \<open>A configuration file without any of the five sections gives the defaults.\<close>

lemma loadFromYaml_empty:
  assumes "yl_load yl path = Inr root" and "\<And>k. yl_get yl root k = Inr None"
  shows "loadFromYaml yl path =
    Inr \<lparr>cf_frameHandler = default_FrameHandlerConfig, cf_storage = default_StorageConfig,
      cf_admin = default_AdminConfig, cf_keyManagement = default_KeyManagementYaml,
      cf_experiment = default_ExperimentConfig\<rparr>"
  using assms
  by (simp add: loadFromYaml_def loadFrameHandler_def loadStorage_def loadAdmin_def loadKeyManagement_def
      loadExperiment_def Let_def default_FrameHandlerConfig_def)

text \<open>A loaded configuration never has replay protection with an empty window.\<close>

lemma loadFrameHandler_window:
  "loadFrameHandler yl node = Inr cfg \<Longrightarrow> fh_antiReplayEnabled cfg \<Longrightarrow> fh_replayWindowSize cfg \<noteq> 0"
  by (auto simp: loadFrameHandler_def Let_def bindR_Inr_iff split: if_splits)

lemma loadFromYaml_window:
  "loadFromYaml yl path = Inr cfg \<Longrightarrow> fh_antiReplayEnabled (cf_frameHandler cfg) \<Longrightarrow>
     fh_replayWindowSize (cf_frameHandler cfg) \<noteq> 0"
  by (auto simp: loadFromYaml_def bindR_Inr_iff split: sum.splits dest: loadFrameHandler_window)

end
