(* ===== verification/Anomaly_Detector.thy ===== *)
theory Anomaly_Detector
  imports Access_Prelude
begin

text \<open>
  \<^verbatim>\<open>access_core/src/protocol_anomaly_detector.cpp\<close>: the per-reader runtime monitor of the R2
  profiles, with its quarantine. One definition per method; the mutex makes each method atomic, so
  a concurrent execution is a sequence of the events below. The locale \<open>keyed_monitor\<close> states
  what it means that readers do not influence each other, and is interpreted on the detector.
\<close>

section \<open>The class\<close>

datatype AnomalyType = seq_reuse | seq_rollback | nonce_mismatch | tag_fail_streak

fun anomalyTypeToString :: "AnomalyType \<Rightarrow> string" where
  "anomalyTypeToString seq_reuse = ''seq_reuse''"
| "anomalyTypeToString seq_rollback = ''seq_rollback''"
| "anomalyTypeToString nonce_mismatch = ''nonce_mismatch''"
| "anomalyTypeToString tag_fail_streak = ''tag_fail_streak''"

record DetectorConfig =
  dc_enabled :: bool
  dc_rollbackThreshold :: u64
  dc_tagFailStreakLimit :: u32

record QuarantineInfo =
  qi_ts_unix_ms :: u64
  qi_reason :: AnomalyType
  qi_detail :: string

record ReaderState =
  rs_maxSeenSeq :: u64
  rs_consecutiveTagFails :: u32
  rs_quarantine :: "QuarantineInfo option"

record ProtocolAnomalyDetector =
  ad_config :: DetectorConfig
  ad_readers :: "u32 \<rightharpoonup> ReaderState"

definition default_DetectorConfig :: DetectorConfig where
  "default_DetectorConfig =
     \<lparr>dc_enabled = False, dc_rollbackThreshold = 100, dc_tagFailStreakLimit = 5\<rparr>"

definition default_ReaderState :: ReaderState where
  "default_ReaderState =
     \<lparr>rs_maxSeenSeq = 0, rs_consecutiveTagFails = 0, rs_quarantine = None\<rparr>"

definition ProtocolAnomalyDetector_init :: "DetectorConfig \<Rightarrow> ProtocolAnomalyDetector" where
  "ProtocolAnomalyDetector_init config = \<lparr>ad_config = config, ad_readers = Map.empty\<rparr>"

text \<open>\<^verbatim>\<open>_readers[readerId]\<close>: the reader's state, created with defaults when absent; the callers
  write the state back.\<close>

definition getState :: "u32 \<Rightarrow> ProtocolAnomalyDetector \<Rightarrow> ReaderState" where
  "getState readerId d =
     (case ad_readers d readerId of None \<Rightarrow> default_ReaderState | Some st \<Rightarrow> st)"

definition putState :: "u32 \<Rightarrow> ReaderState \<Rightarrow> ProtocolAnomalyDetector \<Rightarrow> ProtocolAnomalyDetector" where
  "putState readerId st d = d\<lparr>ad_readers := (ad_readers d)(readerId \<mapsto> st)\<rparr>"

definition doQuarantine :: "AnomalyType \<Rightarrow> u64 \<Rightarrow> string \<Rightarrow> ReaderState \<Rightarrow> ReaderState" where
  "doQuarantine reason tsMs detail st =
     st\<lparr>rs_quarantine := Some \<lparr>qi_ts_unix_ms = tsMs, qi_reason = reason, qi_detail = detail\<rparr>\<rparr>"

definition isQuarantined :: "ProtocolAnomalyDetector \<Rightarrow> u32 \<Rightarrow> bool" where
  "isQuarantined d readerId =
     (case ad_readers d readerId of None \<Rightarrow> False | Some st \<Rightarrow> rs_quarantine st \<noteq> None)"

definition quarantineInfo :: "ProtocolAnomalyDetector \<Rightarrow> u32 \<Rightarrow> QuarantineInfo option" where
  "quarantineInfo d readerId =
     (case ad_readers d readerId of None \<Rightarrow> None | Some st \<Rightarrow> rs_quarantine st)"

definition reportReplay ::
    "u32 \<Rightarrow> u64 \<Rightarrow> u64 \<Rightarrow> ProtocolAnomalyDetector \<Rightarrow> AnomalyType \<times> ProtocolAnomalyDetector" where
  "reportReplay readerId sq tsMs d =
     (let st = getState readerId d;
          st = doQuarantine seq_reuse tsMs (''seq='' @ to_string sq) st
      in (seq_reuse, putState readerId st d))"

definition reportSeq ::
    "u32 \<Rightarrow> u64 \<Rightarrow> u64 \<Rightarrow> ProtocolAnomalyDetector \<Rightarrow> AnomalyType option \<times> ProtocolAnomalyDetector" where
  "reportSeq readerId sq tsMs d =
     (let st = getState readerId d in
      if rs_maxSeenSeq st > 0 \<and> sq + dc_rollbackThreshold (ad_config d) < rs_maxSeenSeq st
      then (Some seq_rollback,
            putState readerId
              (doQuarantine seq_rollback tsMs
                (''seq='' @ to_string sq @ '' maxSeen='' @ to_string (rs_maxSeenSeq st)) st) d)
      else (None,
            putState readerId
              (if sq > rs_maxSeenSeq st then st\<lparr>rs_maxSeenSeq := sq\<rparr> else st) d))"

definition reportNonceMismatch ::
    "u32 \<Rightarrow> u64 \<Rightarrow> ProtocolAnomalyDetector \<Rightarrow> AnomalyType \<times> ProtocolAnomalyDetector" where
  "reportNonceMismatch readerId tsMs d =
     (let st = getState readerId d;
          st = doQuarantine nonce_mismatch tsMs '''' st
      in (nonce_mismatch, putState readerId st d))"

definition reportTagFailure ::
    "u32 \<Rightarrow> u64 \<Rightarrow> ProtocolAnomalyDetector \<Rightarrow> AnomalyType option \<times> ProtocolAnomalyDetector" where
  "reportTagFailure readerId tsMs d =
     (let st = getState readerId d;
          st = st\<lparr>rs_consecutiveTagFails := rs_consecutiveTagFails st + 1\<rparr> in
      if rs_consecutiveTagFails st \<ge> dc_tagFailStreakLimit (ad_config d)
      then (Some tag_fail_streak,
            putState readerId
              (doQuarantine tag_fail_streak tsMs
                (''streak='' @ to_string (rs_consecutiveTagFails st)) st) d)
      else (None, putState readerId st d))"

definition reportSuccess :: "u32 \<Rightarrow> u64 \<Rightarrow> ProtocolAnomalyDetector \<Rightarrow> ProtocolAnomalyDetector" where
  "reportSuccess readerId sq d =
     (let st = getState readerId d;
          st = st\<lparr>rs_consecutiveTagFails := 0\<rparr>;
          st = (if sq > rs_maxSeenSeq st then st\<lparr>rs_maxSeenSeq := sq\<rparr> else st)
      in putState readerId st d)"

definition unquarantine :: "u32 \<Rightarrow> ProtocolAnomalyDetector \<Rightarrow> bool \<times> ProtocolAnomalyDetector" where
  "unquarantine readerId d =
     (case ad_readers d readerId of
        None \<Rightarrow> (False, d)
      | Some st \<Rightarrow>
          if rs_quarantine st = None then (False, d)
          else (True, putState readerId
                  (st\<lparr>rs_quarantine := None, rs_consecutiveTagFails := 0\<rparr>) d))"

text \<open>\<^verbatim>\<open>sodium_memcmp\<close> on the first \<open>len\<close> bytes of the two arrays.\<close>

definition nonceEqual :: "bytes \<Rightarrow> bytes \<Rightarrow> nat \<Rightarrow> bool" where
  "nonceEqual received expected len \<longleftrightarrow> take len received = take len expected"

section \<open>Sequences of events\<close>

datatype detector_event =
    ReportReplay u32 u64 u64
  | ReportSeq u32 u64 u64
  | ReportNonceMismatch u32 u64
  | ReportTagFailure u32 u64
  | ReportSuccess u32 u64
  | Unquarantine u32

fun event_reader :: "detector_event \<Rightarrow> u32" where
  "event_reader (ReportReplay r _ _) = r"
| "event_reader (ReportSeq r _ _) = r"
| "event_reader (ReportNonceMismatch r _) = r"
| "event_reader (ReportTagFailure r _) = r"
| "event_reader (ReportSuccess r _) = r"
| "event_reader (Unquarantine r) = r"

fun detector_step :: "detector_event \<Rightarrow> ProtocolAnomalyDetector \<Rightarrow> ProtocolAnomalyDetector" where
  "detector_step (ReportReplay r q t) d = snd (reportReplay r q t d)"
| "detector_step (ReportSeq r q t) d = snd (reportSeq r q t d)"
| "detector_step (ReportNonceMismatch r t) d = snd (reportNonceMismatch r t d)"
| "detector_step (ReportTagFailure r t) d = snd (reportTagFailure r t d)"
| "detector_step (ReportSuccess r q) d = reportSuccess r q d"
| "detector_step (Unquarantine r) d = snd (unquarantine r d)"

inductive detector_reachable :: "DetectorConfig \<Rightarrow> ProtocolAnomalyDetector \<Rightarrow> bool"
  for config :: DetectorConfig where
  fresh: "detector_reachable config (ProtocolAnomalyDetector_init config)"
| event: "detector_reachable config d \<Longrightarrow> detector_reachable config (detector_step e d)"

lemmas detector_defs =
  reportReplay_def reportSeq_def reportNonceMismatch_def reportTagFailure_def reportSuccess_def
  unquarantine_def getState_def putState_def doQuarantine_def Let_def

lemma report_config [frame_simps, simp]:
  "ad_config (snd (reportReplay r q t d)) = ad_config d"
  "ad_config (snd (reportSeq r q t d)) = ad_config d"
  "ad_config (snd (reportNonceMismatch r t d)) = ad_config d"
  "ad_config (snd (reportTagFailure r t d)) = ad_config d"
  "ad_config (reportSuccess r q d) = ad_config d"
  "ad_config (snd (unquarantine r d)) = ad_config d"
  by (simp_all add: detector_defs split: option.splits)

lemma detector_step_config [frame_simps, simp]: "ad_config (detector_step e d) = ad_config d"
  by (cases e) simp_all

lemma isQuarantined_getState: "isQuarantined d r \<longleftrightarrow> rs_quarantine (getState r d) \<noteq> None"
  by (simp add: isQuarantined_def getState_def default_ReaderState_def split: option.splits)

lemma getState_putState: "getState r (putState r' st d) = (if r = r' then st else getState r d)"
  by (simp add: getState_def putState_def)

lemma ad_config_putState [simp]: "ad_config (putState r st d) = ad_config d"
  by (simp add: putState_def)

section \<open>Isolation of readers\<close>

locale keyed_monitor =
  fixes step :: "'e \<Rightarrow> 's \<Rightarrow> 's"
    and key :: "'e \<Rightarrow> 'k"
    and view :: "'s \<Rightarrow> 'k \<Rightarrow> 'v"
  assumes step_other: "key e \<noteq> k \<Longrightarrow> view (step e s) k = view s k"
    and step_own: "view s k = view t k \<Longrightarrow> key e = k \<Longrightarrow> view (step e s) k = view (step e t) k"
begin

lemma run_other: "(\<And>e. e \<in> set es \<Longrightarrow> key e \<noteq> k) \<Longrightarrow> view (fold step es s) k = view s k"
  by (induction es arbitrary: s) (simp_all add: step_other)

text \<open>What a key's view becomes depends on that key's own events only.\<close>

lemma run_own:
  "view s k = view t k \<Longrightarrow>
     view (fold step es s) k = view (fold step (filter (\<lambda>e. key e = k) es) t) k"
proof (induction es arbitrary: s t)
  case (Cons e es)
  show ?case
  proof (cases "key e = k")
    case True
    with Cons.prems have "view (step e s) k = view (step e t) k" by (rule step_own)
    from Cons.IH [OF this] True show ?thesis by simp
  next
    case False
    then have "view (step e s) k = view t k" using Cons.prems by (simp add: step_other)
    from Cons.IH [OF this] False show ?thesis by simp
  qed
qed simp

end

interpretation det: keyed_monitor detector_step event_reader "\<lambda>d r. (ad_config d, ad_readers d r)"
proof unfold_locales
  fix e r d d'
  show "event_reader e \<noteq> r \<Longrightarrow>
      (ad_config (detector_step e d), ad_readers (detector_step e d) r) = (ad_config d, ad_readers d r)"
    by (cases e) (auto simp: detector_defs split: option.splits)
  show "(ad_config d, ad_readers d r) = (ad_config d', ad_readers d' r) \<Longrightarrow> event_reader e = r \<Longrightarrow>
      (ad_config (detector_step e d), ad_readers (detector_step e d) r) =
      (ad_config (detector_step e d'), ad_readers (detector_step e d') r)"
    by (cases e) (auto simp: detector_defs split: option.splits)
qed

section \<open>Invariants\<close>

lemma quarantine_step:
  "isQuarantined d r \<Longrightarrow> e \<noteq> Unquarantine r \<Longrightarrow> isQuarantined (detector_step e d) r"
  by (cases e) (auto simp: isQuarantined_def detector_defs split: option.splits)

lemma quarantine_run:
  "isQuarantined d r \<Longrightarrow> Unquarantine r \<notin> set es \<Longrightarrow> isQuarantined (fold detector_step es d) r"
  by (induction es arbitrary: d) (auto simp: quarantine_step)

lemma maxSeen_step: "rs_maxSeenSeq (getState r d) \<le> rs_maxSeenSeq (getState r (detector_step e d))"
  by (cases e) (auto simp: detector_defs split: option.splits)

text \<open>A reader that is not quarantined has a failure streak below the limit.\<close>

definition streak_below_limit :: "ProtocolAnomalyDetector \<Rightarrow> bool" where
  "streak_below_limit d \<longleftrightarrow> (\<forall>r. \<not> isQuarantined d r \<longrightarrow>
     rs_consecutiveTagFails (getState r d) = 0 \<or>
     rs_consecutiveTagFails (getState r d) < dc_tagFailStreakLimit (ad_config d))"

lemma streak_step:
  assumes "streak_below_limit d" shows "streak_below_limit (detector_step e d)"
  unfolding streak_below_limit_def
proof (intro allI impI)
  fix r assume nq: "\<not> isQuarantined (detector_step e d) r"
  let ?lim = "dc_tagFailStreakLimit (ad_config (detector_step e d))"
  show "rs_consecutiveTagFails (getState r (detector_step e d)) = 0 \<or>
      rs_consecutiveTagFails (getState r (detector_step e d)) < ?lim"
  proof (cases "event_reader e = r")
    case False
    then have "ad_readers (detector_step e d) r = ad_readers d r" using det.step_other by fastforce
    then show ?thesis
      using assms nq by (simp add: streak_below_limit_def isQuarantined_def getState_def)
  next
    case True
    then show ?thesis
      using assms nq unfolding streak_below_limit_def isQuarantined_getState
      by (cases e) (auto simp: reportReplay_def reportSeq_def reportNonceMismatch_def
          reportTagFailure_def reportSuccess_def unquarantine_def getState_putState doQuarantine_def
          Let_def not_le split: if_splits option.splits)
  qed
qed

lemma reachable_streak: "detector_reachable config d \<Longrightarrow> streak_below_limit d"
proof (induction rule: detector_reachable.induct)
  case fresh
  show ?case
    by (simp add: streak_below_limit_def getState_def ProtocolAnomalyDetector_init_def
        default_ReaderState_def)
next
  case (event d e)
  from event.IH show ?case by (rule streak_step)
qed

lemma reachable_config: "detector_reachable config d \<Longrightarrow> ad_config d = config"
  by (induction rule: detector_reachable.induct) (simp_all add: ProtocolAnomalyDetector_init_def)

section \<open>The tag failure streak\<close>

abbreviation streak_limit :: "ProtocolAnomalyDetector \<Rightarrow> nat" where
  "streak_limit d \<equiv> max 1 (unat (dc_tagFailStreakLimit (ad_config d)))"

lemma tagFailure_step:
  fixes t :: u64
  assumes "\<not> isQuarantined d r" and "unat (rs_consecutiveTagFails (getState r d)) < streak_limit d"
  defines "d' \<equiv> detector_step (ReportTagFailure r t) d"
  shows "unat (rs_consecutiveTagFails (getState r d')) = unat (rs_consecutiveTagFails (getState r d)) + 1"
    and "isQuarantined d' r \<longleftrightarrow> streak_limit d \<le> unat (rs_consecutiveTagFails (getState r d)) + 1"
proof -
  let ?f = "rs_consecutiveTagFails (getState r d)"
  have "unat (dc_tagFailStreakLimit (ad_config d)) < 2 ^ 32"
    using unsigned_less [of "dc_tagFailStreakLimit (ad_config d)"] by simp
  with assms(2) have "unat ?f + 1 < 2 ^ 32" by simp
  then have f: "unat (?f + 1) = unat ?f + 1" by (simp add: unat_word_ariths)
  moreover have "rs_quarantine (getState r d) = None" using assms(1) by (simp add: isQuarantined_getState)
  ultimately show "unat (rs_consecutiveTagFails (getState r d')) = unat ?f + 1"
    and "isQuarantined d' r \<longleftrightarrow> streak_limit d \<le> unat ?f + 1"
    by (auto simp: d'_def reportTagFailure_def Let_def getState_putState doQuarantine_def
        isQuarantined_getState word_le_nat_alt)
qed

lemma tagFailure_run:
  assumes "\<not> isQuarantined d r" and "unat (rs_consecutiveTagFails (getState r d)) < streak_limit d"
  shows "isQuarantined (fold detector_step (map (ReportTagFailure r) ts) d) r \<longleftrightarrow>
    streak_limit d \<le> unat (rs_consecutiveTagFails (getState r d)) + length ts"
  using assms
proof (induction ts arbitrary: d)
  case (Cons t ts)
  let ?d = "detector_step (ReportTagFailure r t) d"
  note step = tagFailure_step [OF Cons.prems, of t]
  have lim: "streak_limit ?d = streak_limit d" by simp
  show ?case
  proof (cases "isQuarantined ?d r")
    case True
    then have "isQuarantined (fold detector_step (map (ReportTagFailure r) ts) ?d) r"
      by (rule quarantine_run) auto
    moreover have "streak_limit d \<le> unat (rs_consecutiveTagFails (getState r d)) + length (t # ts)"
      using True step(2) by simp
    ultimately show ?thesis by simp
  next
    case False
    with step lim have "unat (rs_consecutiveTagFails (getState r ?d)) < streak_limit ?d" by simp
    from Cons.IH [OF False this] step(1) lim show ?thesis by simp
  qed
qed auto

section \<open>Properties\<close>

text \<open>
  C35: quarantine is sticky. Whatever the reader and the other readers do afterwards, a
  quarantined reader stays quarantined until an administrator unquarantines that reader.
\<close>

theorem quarantine_sticky:
  assumes "isQuarantined d r" and "Unquarantine r \<notin> set es"
  shows "isQuarantined (fold detector_step es d) r"
  using assms by (rule quarantine_run)

theorem quarantine_sticky_witness:
  "isQuarantined (fold detector_step [ReportSuccess 7 9, Unquarantine 8]
     (snd (reportReplay 7 3 1000 (ProtocolAnomalyDetector_init default_DetectorConfig)))) 7"
  by (rule quarantine_sticky) (simp_all add: isQuarantined_def detector_defs)

text \<open>
  Readers are isolated. The state the detector keeps for a reader after any sequence of
  events is the one it would have after that reader's own events alone.
\<close>

theorem readers_isolated:
  "ad_readers (fold detector_step es d) r =
   ad_readers (fold detector_step (filter (\<lambda>e. event_reader e = r) es) d) r"
  using det.run_own [of d r d es] by simp

text \<open>
  C36: exactly the configured number of consecutive failures quarantines. From a reader that is
  not quarantined and has no failures pending, \<open>k\<close> authentication failures in a row lead to
  quarantine if and only if \<open>k\<close> reaches the limit (a limit of 0 acts as 1); the 32-bit counter
  never wraps on the way.
\<close>

theorem tag_fail_streak_exact:
  assumes "\<not> isQuarantined d r" and "rs_consecutiveTagFails (getState r d) = 0"
  shows "isQuarantined (fold detector_step (map (ReportTagFailure r) ts) d) r \<longleftrightarrow>
    max 1 (unat (dc_tagFailStreakLimit (ad_config d))) \<le> length ts"
  using tagFailure_run [OF assms(1), of ts] assms(2) by simp

theorem tag_fail_streak_exact_witness:
  "isQuarantined (fold detector_step (map (ReportTagFailure 1) [10, 20, 30, 40, 50])
     (ProtocolAnomalyDetector_init default_DetectorConfig)) 1 \<longleftrightarrow>
   max 1 (unat (dc_tagFailStreakLimit
     (ad_config (ProtocolAnomalyDetector_init default_DetectorConfig)))) \<le> length [10, 20, 30, 40, 50 :: u64]"
  by (rule tag_fail_streak_exact)
    (simp_all add: isQuarantined_def getState_def ProtocolAnomalyDetector_init_def default_ReaderState_def)

text \<open>
  C37: the rollback rule. When the sum of the frame's number and the threshold fits 64 bits, the
  detector reports a rollback exactly for numbers more than the threshold below the largest one
  seen, and then the reader is quarantined; otherwise the reader's quarantine state is unchanged
  and the largest number seen becomes the maximum of the two.
\<close>

theorem rollback_exact:
  assumes "unat q + unat (dc_rollbackThreshold (ad_config d)) < 2 ^ 64"
    and "reportSeq r q t d = (res, d')"
  shows "if unat q + unat (dc_rollbackThreshold (ad_config d)) < unat (rs_maxSeenSeq (getState r d))
    then res = Some seq_rollback \<and> isQuarantined d' r
    else res = None \<and> quarantineInfo d' r = quarantineInfo d r \<and>
      rs_maxSeenSeq (getState r d') = max q (rs_maxSeenSeq (getState r d))"
proof -
  have "unat (q + dc_rollbackThreshold (ad_config d)) = unat q + unat (dc_rollbackThreshold (ad_config d))"
    using assms(1) by (simp add: unat_word_ariths)
  moreover have "quarantineInfo d r = rs_quarantine (getState r d)" for d
    by (simp add: quarantineInfo_def getState_def default_ReaderState_def split: option.splits)
  ultimately show ?thesis
    using assms(2)
    by (auto simp: reportSeq_def Let_def getState_putState doQuarantine_def isQuarantined_getState
        word_less_nat_alt max_def word_le_nat_alt split: if_splits)
qed

theorem rollback_exact_witness:
  "if unat (5 :: u64) + unat (dc_rollbackThreshold (ad_config
        (ProtocolAnomalyDetector_init default_DetectorConfig))) <
      unat (rs_maxSeenSeq (getState 1 (ProtocolAnomalyDetector_init default_DetectorConfig)))
   then fst (reportSeq 1 5 0 (ProtocolAnomalyDetector_init default_DetectorConfig)) = Some seq_rollback \<and>
     isQuarantined (snd (reportSeq 1 5 0 (ProtocolAnomalyDetector_init default_DetectorConfig))) 1
   else fst (reportSeq 1 5 0 (ProtocolAnomalyDetector_init default_DetectorConfig)) = None \<and>
     quarantineInfo (snd (reportSeq 1 5 0 (ProtocolAnomalyDetector_init default_DetectorConfig))) 1 =
       quarantineInfo (ProtocolAnomalyDetector_init default_DetectorConfig) 1 \<and>
     rs_maxSeenSeq (getState 1 (snd (reportSeq 1 5 0 (ProtocolAnomalyDetector_init default_DetectorConfig)))) =
       max 5 (rs_maxSeenSeq (getState 1 (ProtocolAnomalyDetector_init default_DetectorConfig)))"
  by (rule rollback_exact)
    (simp_all add: ProtocolAnomalyDetector_init_def default_DetectorConfig_def)

text \<open>
  The 64-bit addition of the rollback rule wraps. A reader whose number moves forward from
  1000 to the largest 64-bit value, with the default threshold, is quarantined as a rollback.
\<close>

theorem rollback_wraps:
  "fst (reportSeq 1 0xFFFFFFFFFFFFFFFF 0
     (snd (reportSeq 1 1000 0 (ProtocolAnomalyDetector_init default_DetectorConfig)))) = Some seq_rollback"
  by (simp add: detector_defs ProtocolAnomalyDetector_init_def default_DetectorConfig_def
      default_ReaderState_def)

end
