(* ===== verification/Event_Bus.thy ===== *)
theory Event_Bus
  imports Access_Prelude
begin

text \<open>
  \<^verbatim>\<open>runtime_events/src/event_bus.cpp\<close>: the bounded buffer of runtime events the admin UI polls.
  The buffer is refined to the history of all pushed events, numbered from 1, of which it holds the
  last \<open>maxEvents\<close>. The locale \<open>total_sink\<close> is what the producers of events and of audit entries
  rely on: recording an event does not throw and keeps the sink usable.
\<close>

section \<open>The interface of a sink\<close>

locale total_sink =
  fixes emit :: "'e \<Rightarrow> ('s, 'a) prog"
    and invar :: "'s \<Rightarrow> bool"
    and recorded :: "'s \<Rightarrow> 'r list"
    and entry :: "'s \<Rightarrow> 'e \<Rightarrow> 'r"
  assumes emit_total: "invar s \<Longrightarrow> \<exists>x. fst (emit e s) = Inr x"
    and invar_emit: "invar s \<Longrightarrow> invar (snd (emit e s))"
    and recorded_emit: "invar s \<Longrightarrow> \<exists>xs. recorded (snd (emit e s)) = xs @ [entry s e]"
begin

lemma emitE:
  assumes "invar s"
  obtains x s' where "emit e s = (Inr x, s')" and "invar s'" and "last (recorded s') = entry s e"
proof -
  obtain x where "fst (emit e s) = Inr x" using emit_total [OF assms] by blast
  moreover obtain xs where "recorded (snd (emit e s)) = xs @ [entry s e]"
    using recorded_emit [OF assms] by blast
  ultimately show ?thesis
    using invar_emit [OF assms, of e] that [of x "snd (emit e s)"] by (cases "emit e s") simp
qed

lemma emit_then:
  assumes "invar s" shows "bindM (emit e) (\<lambda>_. m) s = m (snd (emit e s))"
proof -
  obtain x s' where "emit e s = (Inr x, s')" by (rule emitE [OF assms])
  then show ?thesis by (simp add: bindM_apply)
qed

lemma emit_all: "invar s \<Longrightarrow> invar (fold (\<lambda>e s. snd (emit e s)) es s)"
  by (induction es arbitrary: s) (simp_all add: invar_emit)

end

section \<open>The class\<close>

record Event =
  ev_id :: u64
  ev_ts_unix_ms :: u64
  ev_kind :: string
  ev_message :: string
  ev_reader_id :: u32
  ev_door_id :: u32
  ev_seq :: u64
  ev_allow :: bool
  ev_reason :: string

record EventBus =
  eb_max :: u64
  eb_events :: "Event list"
  eb_lastId :: u64

definition default_Event :: Event where
  "default_Event = \<lparr>ev_id = 0, ev_ts_unix_ms = 0, ev_kind = [], ev_message = [], ev_reader_id = 0,
     ev_door_id = 0, ev_seq = 0, ev_allow = False, ev_reason = []\<rparr>"

definition EventBus_init :: "u64 \<Rightarrow> EventBus" where
  "EventBus_init maxEvents = \<lparr>eb_max = maxEvents, eb_events = [], eb_lastId = 0\<rparr>"

text \<open>\<^verbatim>\<open>pop_front\<close> on an empty deque has no defined behaviour.\<close>

definition push :: "Event \<Rightarrow> (EventBus, u64) prog" where
  "push e bus =
     (let bus = bus\<lparr>eb_lastId := eb_lastId bus + 1\<rparr>;
          e = e\<lparr>ev_id := eb_lastId bus\<rparr>
      in if length (eb_events bus) \<ge> unat (eb_max bus)
         then (if eb_events bus = [] then (Inl UndefinedBehaviour, bus)
               else (let bus = bus\<lparr>eb_events := tl (eb_events bus)\<rparr>;
                         bus = bus\<lparr>eb_events := eb_events bus @ [e]\<rparr>
                     in (Inr (eb_lastId bus), bus)))
         else (let bus = bus\<lparr>eb_events := eb_events bus @ [e]\<rparr> in (Inr (eb_lastId bus), bus)))"

fun collectAfter :: "u64 \<Rightarrow> nat \<Rightarrow> Event list \<Rightarrow> Event list \<Rightarrow> Event list" where
  "collectAfter afterId limit [] out = out"
| "collectAfter afterId limit (e # es) out =
     (if ev_id e > afterId
      then (let out = out @ [e] in if length out \<ge> limit then out else collectAfter afterId limit es out)
      else collectAfter afterId limit es out)"

text \<open>\<^verbatim>\<open>reserve\<close> throws above the maximal size of a vector, an implementation constant.\<close>

definition getAfter :: "nat \<Rightarrow> EventBus \<Rightarrow> u64 \<Rightarrow> nat \<Rightarrow> Event list result" where
  "getAfter vectorMax bus afterId limit =
     (if limit > vectorMax then Inl LengthError
      else Inr (collectAfter afterId limit (eb_events bus) []))"

definition lastId :: "EventBus \<Rightarrow> u64" where
  "lastId bus = eb_lastId bus"

section \<open>The history of a bus\<close>

definition bus_inv :: "EventBus \<Rightarrow> bool" where
  "bus_inv bus \<longleftrightarrow> 0 < eb_max bus \<and> length (eb_events bus) \<le> unat (eb_max bus)"

definition number_events :: "Event list \<Rightarrow> Event list" where
  "number_events es = map (\<lambda>i. (es ! i)\<lparr>ev_id := of_nat (Suc i)\<rparr>) [0..<length es]"

definition bus_of :: "u64 \<Rightarrow> Event list \<Rightarrow> EventBus \<Rightarrow> bool" where
  "bus_of mx hist bus \<longleftrightarrow> eb_max bus = mx \<and> eb_lastId bus = of_nat (length hist) \<and>
     eb_events bus = lastn (unat mx) (number_events hist)"

fun push_all :: "Event list \<Rightarrow> EventBus \<Rightarrow> EventBus" where
  "push_all [] bus = bus"
| "push_all (e # es) bus = push_all es (snd (push e bus))"

lemma length_number_events [simp]: "length (number_events es) = length es"
  by (simp add: number_events_def)

lemma number_events_snoc:
  "number_events (es @ [e]) = number_events es @ [e\<lparr>ev_id := of_nat (Suc (length es))\<rparr>]"
  by (simp add: number_events_def nth_append cong: map_cong)

lemma push_eq:
  assumes "bus_inv bus"
  shows "push e bus = (Inr (eb_lastId bus + 1),
    bus\<lparr>eb_lastId := eb_lastId bus + 1,
        eb_events := lastn (unat (eb_max bus)) (eb_events bus @ [e\<lparr>ev_id := eb_lastId bus + 1\<rparr>])\<rparr>)"
proof -
  have "0 < unat (eb_max bus)" and len: "length (eb_events bus) \<le> unat (eb_max bus)"
    using assms by (simp_all add: bus_inv_def word_less_nat_alt)
  moreover have "lastn (unat (eb_max bus)) (eb_events bus) = eb_events bus" using len by simp
  ultimately show ?thesis by (auto simp: push_def Let_def lastn_snoc)
qed

interpretation bus_sink: total_sink push bus_inv eb_events "\<lambda>bus e. e\<lparr>ev_id := eb_lastId bus + 1\<rparr>"
proof unfold_locales
  fix bus e assume inv: "bus_inv bus"
  then have "0 < unat (eb_max bus)" by (simp add: bus_inv_def word_less_nat_alt)
  then show "\<exists>xs. eb_events (snd (push e bus)) = xs @ [e\<lparr>ev_id := eb_lastId bus + 1\<rparr>]"
    by (simp add: push_eq [OF inv] lastn_def)
  show "\<exists>x. fst (push e bus) = Inr x" by (simp add: push_eq [OF inv])
  show "bus_inv (snd (push e bus))" using inv by (simp add: push_eq [OF inv] bus_inv_def)
qed

lemma bus_of_inv: "bus_of mx hist bus \<Longrightarrow> 0 < mx \<Longrightarrow> bus_inv bus"
  by (simp add: bus_of_def bus_inv_def)

lemma bus_of_push:
  assumes "bus_of mx hist bus" and "0 < mx"
  shows "bus_of mx (hist @ [e]) (snd (push e bus))"
  using assms(1)
  by (simp add: push_eq [OF bus_of_inv [OF assms]] bus_of_def number_events_snoc lastn_snoc add.commute)

lemma bus_of_push_all:
  "bus_of mx hist bus \<Longrightarrow> 0 < mx \<Longrightarrow> bus_of mx (hist @ es) (push_all es bus)"
proof (induction es arbitrary: hist bus)
  case (Cons e es)
  from Cons.IH [OF bus_of_push [OF Cons.prems, of e] Cons.prems(2)] show ?case by simp
qed simp

lemma collectAfter_eq:
  "collectAfter a limit es out =
     (case filter (\<lambda>e. a < ev_id e) es of [] \<Rightarrow> out
      | e # rest \<Rightarrow> out @ e # take (limit - Suc (length out)) rest)"
proof (induction es arbitrary: out)
  case (Cons e es)
  then show ?case
    by (auto simp: Let_def take_Cons' Suc_le_eq not_less split: list.splits)
qed simp

lemma getAfter_eq:
  assumes "limit \<le> vectorMax"
  shows "getAfter vectorMax bus a limit =
    Inr (take (max 1 limit) (filter (\<lambda>e. a < ev_id e) (eb_events bus)))"
  using assms
  by (cases limit) (auto simp: getAfter_def collectAfter_eq max_def split: list.splits)

text \<open>The entries newer than \<open>a\<close> are a suffix of the history.\<close>

lemma filter_number_events:
  assumes "length hist < 2 ^ 64"
  shows "filter (\<lambda>e. a < ev_id e) (lastn n (number_events hist)) =
    drop (max (unat a) (length hist - n)) (number_events hist)"
proof -
  let ?N = "number_events hist" and ?k = "length hist - n"
  have key: "a < ev_id (?N ! i) \<longleftrightarrow> unat a \<le> i" if "i < length hist" for i
  proof -
    have "ev_id (?N ! i) = of_nat (Suc i)" using that by (simp add: number_events_def)
    moreover have "unat (of_nat (Suc i) :: u64) = Suc i"
      using that assms by (simp add: unat_of_nat take_bit_nat_eq_self del: of_nat_Suc)
    ultimately show ?thesis by (simp add: word_less_nat_alt less_Suc_eq_le)
  qed
  have "filter (\<lambda>e. a < ev_id e) (drop k ?N) = drop (max (unat a) k) ?N" if "k \<le> length hist" for k
    using that
  proof (induction k rule: inc_induct)
    case base
    then show ?case by simp
  next
    case (step k)
    then have "drop k ?N = ?N ! k # drop (Suc k) ?N" by (simp add: Cons_nth_drop_Suc)
    moreover have "max (unat a) (Suc k) = max (unat a) k" if "\<not> unat a \<le> k" using that by simp
    ultimately show ?case
      using step key [of k] by (cases "unat a \<le> k") (simp_all add: max_absorb2)
  qed
  then show ?thesis by (simp add: lastn_def)
qed

section \<open>Properties\<close>

text \<open>
  C39: a poller sees the event stream in order, without gaps of the bus's making. After any events
  have been pushed into a fresh bus of positive capacity (fewer than \<open>2^64\<close> of them), the ids are
  1, 2, 3, ..., and \<^verbatim>\<open>getAfter(a, limit)\<close> returns the longest admissible prefix of the stream
  behind the \<open>a\<close>-th event: it starts at event \<open>a + 1\<close>, or at the oldest of the last
  \<open>maxEvents\<close> events where that one is gone, and stops after \<open>limit\<close> events, but never before one.
\<close>

theorem poll_reads_stream:
  assumes "0 < mx" and "length es < 2 ^ 64" and "limit \<le> vectorMax"
  shows "getAfter vectorMax (push_all es (EventBus_init mx)) a limit =
      Inr (take (max 1 limit) (drop (max (unat a) (length es - unat mx)) (number_events es))) \<and>
    lastId (push_all es (EventBus_init mx)) = of_nat (length es) \<and>
    length (eb_events (push_all es (EventBus_init mx))) = min (unat mx) (length es)"
proof -
  have "bus_of mx [] (EventBus_init mx)"
    by (simp add: bus_of_def EventBus_init_def number_events_def)
  from bus_of_push_all [OF this assms(1), of es]
  have "bus_of mx es (push_all es (EventBus_init mx))" by simp
  then show ?thesis
    using filter_number_events [OF assms(2)]
    by (simp add: getAfter_eq [OF assms(3)] bus_of_def lastId_def)
qed

theorem poll_reads_stream_witness:
  "(let es = [default_Event, default_Event\<lparr>ev_seq := 7\<rparr>, default_Event] in
    getAfter 1000 (push_all es (EventBus_init 2)) 1 5 =
      Inr (take (max 1 5) (drop (max (unat (1 :: u64)) (length es - unat (2 :: u64))) (number_events es))) \<and>
    lastId (push_all es (EventBus_init 2)) = of_nat (length es) \<and>
    length (eb_events (push_all es (EventBus_init 2))) = min (unat (2 :: u64)) (length es))"
  unfolding Let_def by (rule poll_reads_stream) simp_all

text \<open>
  Two boundary cases of the bus. A poll with limit 0 returns an event whenever there is a newer
  one, and a bus constructed with capacity 0 pops from an empty deque at its first event.
\<close>

theorem bus_boundary_cases:
  "getAfter vectorMax (snd (push e (EventBus_init 4))) 0 0 = Inr [e\<lparr>ev_id := 1\<rparr>] \<and>
   fst (push e (EventBus_init 0)) = Inl UndefinedBehaviour"
  by (simp add: getAfter_def push_def EventBus_init_def Let_def)

end
