(* ===== verification/Audit_Events.thy ===== *)
theory Audit_Events
  imports Event_Bus
begin

text \<open>
  \<^verbatim>\<open>access_decision/audit.hpp\<close>: the audit event, the interface of an audit log (an \<^verbatim>\<open>append\<close> that may
  throw) and its in-memory implementation.
\<close>

record AuditEvent =
  ae_ts_unix_ms :: u64
  ae_reader_id :: u32
  ae_door_id :: u32
  ae_seq :: u64
  ae_allow :: bool
  ae_reason :: string
  ae_card_id :: string
  ae_action :: string

text \<open>\<^verbatim>\<open>IAuditLog\<close>: the state is that of the implementation.\<close>

record 'a IAuditLog =
  al_append :: "AuditEvent \<Rightarrow> ('a, unit) prog"

type_synonym InMemoryAuditLog = "AuditEvent list"

definition InMemoryAuditLog_append :: "AuditEvent \<Rightarrow> (InMemoryAuditLog, unit) prog" where
  "InMemoryAuditLog_append e events = (Inr (), events @ [e])"

definition in_memory_audit :: "InMemoryAuditLog IAuditLog" where
  "in_memory_audit = \<lparr>al_append = InMemoryAuditLog_append\<rparr>"

interpretation mem_audit: total_sink InMemoryAuditLog_append "\<lambda>_. True" "\<lambda>events. events" "\<lambda>_ e. e"
  by unfold_locales (simp_all add: InMemoryAuditLog_append_def)

end
