(* ===== verification/Json_Data.thy ===== *)
theory Json_Data
  imports Access_Prelude "HOL-Library.List_Lexorder" "HOL-Library.Char_ord"
begin

text \<open>
  JSON values and the JSON library (nlohmann), which is a parameter: its parser, its two printers
  and the texts of its exceptions. The accessors the sources use are defined here with all their
  outcomes, conversions of numbers to fixed-width integers included.
\<close>

section \<open>Values\<close>

text \<open>
  The members of an object are listed in the order of their keys, as in the library's map. A number
  with a fraction or an exponent, or beyond the 64-bit integers, is represented by its value
  truncated towards zero: the code takes nothing else from it.
\<close>

datatype json =
    JNull
  | JBool bool
  | JInt int
  | JFloat int
  | JString string
  | JArray "json list"
  | JObject "(string \<times> json) list"

text \<open>The parser gives the value or the message of its exception; printing (compactly, or indented)
  throws on text that is not UTF-8. \<open>jl_what\<close> is the message of the exception that an access
  with a key throws on a value.\<close>

record json_lib =
  jl_parse :: "string \<Rightarrow> string + json"
  jl_dump :: "json \<Rightarrow> string result"
  jl_pretty :: "json \<Rightarrow> string result"
  jl_what :: "string \<Rightarrow> json \<Rightarrow> string"

text \<open>What the library builds: keys in order and integers of 64 bits.\<close>

fun json_canonical :: "json \<Rightarrow> bool" where
  "json_canonical (JInt i) \<longleftrightarrow> - (2 ^ 63) \<le> i \<and> i < 2 ^ 64"
| "json_canonical (JArray js) \<longleftrightarrow> (\<forall>j\<in>set js. json_canonical j)"
| "json_canonical (JObject fs) \<longleftrightarrow>
     sorted_wrt (<) (map fst fs) \<and> (\<forall>f\<in>set fs. json_canonical (snd f))"
| "json_canonical _ \<longleftrightarrow> True"

text \<open>Documented behaviour: what is printed parses back.\<close>

definition json_spec :: "json_lib \<Rightarrow> bool" where
  "json_spec jl \<longleftrightarrow> (\<forall>j s. json_canonical j \<longrightarrow> jl_dump jl j = Inr s \<longrightarrow> jl_parse jl s = Inr j)"

section \<open>Access\<close>

fun json_field :: "json \<Rightarrow> string \<Rightarrow> json option" where
  "json_field (JObject fs) k = map_of fs k"
| "json_field _ k = None"

fun json_is_object :: "json \<Rightarrow> bool" where
  "json_is_object (JObject _) = True"
| "json_is_object _ = False"

text \<open>\<^verbatim>\<open>j.contains(k)\<close> and \<^verbatim>\<open>j.at(k)\<close>.\<close>

definition json_contains :: "json \<Rightarrow> string \<Rightarrow> bool" where
  "json_contains j k \<longleftrightarrow> json_field j k \<noteq> None"

definition json_throw :: "json_lib \<Rightarrow> string \<Rightarrow> json \<Rightarrow> 'a result" where
  "json_throw jl k j = Inl (RuntimeError (jl_what jl k j))"

definition json_at :: "json_lib \<Rightarrow> string \<Rightarrow> json \<Rightarrow> json result" where
  "json_at jl k j = (case json_field j k of Some v \<Rightarrow> Inr v | None \<Rightarrow> json_throw jl k j)"

text \<open>\<^verbatim>\<open>get<std::string>\<close>, \<^verbatim>\<open>get<bool>\<close>.\<close>

fun json_string :: "json_lib \<Rightarrow> json \<Rightarrow> string result" where
  "json_string jl (JString s) = Inr s"
| "json_string jl j = json_throw jl [] j"

fun json_bool :: "json_lib \<Rightarrow> json \<Rightarrow> bool result" where
  "json_bool jl (JBool b) = Inr b"
| "json_bool jl j = json_throw jl [] j"

text \<open>
  \<^verbatim>\<open>get<uint32_t>\<close> and \<^verbatim>\<open>get<uint64_t>\<close>: integers are converted modulo the width, without a range
  check; a floating-point value outside the range has no defined conversion. The 32-bit conversion
  takes booleans too, the 64-bit one (the library's own number type) does not.
\<close>

fun json_u32 :: "json_lib \<Rightarrow> json \<Rightarrow> u32 result" where
  "json_u32 jl (JInt i) = Inr (word_of_int i)"
| "json_u32 jl (JFloat i) = (if 0 \<le> i \<and> i < 2 ^ 32 then Inr (word_of_int i) else Inl UndefinedBehaviour)"
| "json_u32 jl (JBool b) = Inr (if b then 1 else 0)"
| "json_u32 jl j = json_throw jl [] j"

fun json_u64 :: "json_lib \<Rightarrow> json \<Rightarrow> u64 result" where
  "json_u64 jl (JInt i) = Inr (word_of_int i)"
| "json_u64 jl (JFloat i) = (if 0 \<le> i \<and> i < 2 ^ 64 then Inr (word_of_int i) else Inl UndefinedBehaviour)"
| "json_u64 jl j = json_throw jl [] j"

text \<open>\<^verbatim>\<open>j.value(k, default)\<close>: throws when \<open>j\<close> is no object or the value has the wrong type.\<close>

definition json_value :: "json_lib \<Rightarrow> (json \<Rightarrow> 'a result) \<Rightarrow> string \<Rightarrow> 'a \<Rightarrow> json \<Rightarrow> 'a result" where
  "json_value jl get k d j =
     (if \<not> json_is_object j then json_throw jl k j
      else case json_field j k of Some v \<Rightarrow> get v | None \<Rightarrow> Inr d)"

definition JNat :: "nat \<Rightarrow> json" where "JNat n = JInt (int n)"
definition JWord :: "'a::len word \<Rightarrow> json" where "JWord w = JInt (uint w)"

lemma json_u_of_word [simp]:
  "json_u32 jl (JWord (v :: u32)) = Inr v" "json_u64 jl (JWord (q :: u64)) = Inr q"
  by (simp_all add: JWord_def)

lemma json_at_field [simp]: "json_field j k = Some v \<Longrightarrow> json_at jl k j = Inr v"
  by (simp add: json_at_def)

end
