(* ===== verification/Access_Policy.thy ===== *)
theory Access_Policy
  imports Key_Manager Json_Data
begin

text \<open>
  The small parts of \<^verbatim>\<open>access_decision\<close>: the in-memory policy (\<^verbatim>\<open>policy.cpp\<close>), the hashing of card
  identifiers (\<^verbatim>\<open>card_id_hasher.cpp\<close>) and the JSON payload of a frame (\<^verbatim>\<open>payload.cpp\<close>), over the
  JSON library of \<open>Json_Data\<close>.
\<close>

section \<open>AccessPolicy\<close>

record AccessPolicy =
  ap_cardToRole :: "string \<Rightarrow> string option"
  ap_doorAllowedRoles :: "u32 \<Rightarrow> string set option"

definition AccessPolicy_init :: AccessPolicy where
  "AccessPolicy_init = \<lparr>ap_cardToRole = (\<lambda>_. None), ap_doorAllowedRoles = (\<lambda>_. None)\<rparr>"

text \<open>\<^verbatim>\<open>emplace\<close> does nothing when the key is present; \<^verbatim>\<open>operator[]\<close> creates an empty set.\<close>

definition policy_addCard :: "string \<Rightarrow> string \<Rightarrow> AccessPolicy \<Rightarrow> AccessPolicy" where
  "policy_addCard cardId role p =
     (case ap_cardToRole p cardId of
        Some _ \<Rightarrow> p
      | None \<Rightarrow> p\<lparr>ap_cardToRole := (ap_cardToRole p)(cardId \<mapsto> role)\<rparr>)"

definition policy_allowRole :: "u32 \<Rightarrow> string \<Rightarrow> AccessPolicy \<Rightarrow> AccessPolicy" where
  "policy_allowRole doorId role p =
     (let roles = (case ap_doorAllowedRoles p doorId of Some s \<Rightarrow> s | None \<Rightarrow> {})
      in p\<lparr>ap_doorAllowedRoles := (ap_doorAllowedRoles p)(doorId \<mapsto> insert role roles)\<rparr>)"

definition policy_roleForCard :: "AccessPolicy \<Rightarrow> string \<Rightarrow> string" where
  "policy_roleForCard p cardId =
     (case ap_cardToRole p cardId of None \<Rightarrow> [] | Some role \<Rightarrow> role)"

definition policy_isAllowed :: "AccessPolicy \<Rightarrow> u32 \<Rightarrow> string \<Rightarrow> bool" where
  "policy_isAllowed p doorId role =
     (case ap_doorAllowedRoles p doorId of None \<Rightarrow> False | Some roles \<Rightarrow> role \<in> roles)"

lemma roleForCard_addCard:
  "policy_roleForCard (policy_addCard c role p) c' =
     (if c' = c \<and> ap_cardToRole p c = None then role else policy_roleForCard p c')"
  by (auto simp: policy_roleForCard_def policy_addCard_def split: option.splits)

lemma ap_cardToRole_addCard:
  "ap_cardToRole (policy_addCard c role p) c' =
     (if c' = c \<and> ap_cardToRole p c = None then Some role else ap_cardToRole p c')"
  by (auto simp: policy_addCard_def split: option.splits)

lemma isAllowed_allowRole:
  "policy_isAllowed (policy_allowRole dr role p) dr' role' \<longleftrightarrow>
     dr' = dr \<and> role' = role \<or> policy_isAllowed p dr' role'"
  by (auto simp: policy_isAllowed_def policy_allowRole_def Let_def split: option.splits)

lemma doorRoles_addCard: "ap_doorAllowedRoles (policy_addCard c role p) = ap_doorAllowedRoles p"
  by (simp add: policy_addCard_def split: option.splits)

section \<open>CardIdHasher\<close>

record CardIdHasher =
  ch_pepper :: bytes

definition CardIdHasher_init :: "bytes \<Rightarrow> CardIdHasher" where
  "CardIdHasher_init pepperKey = \<lparr>ch_pepper = pepperKey\<rparr>"

definition hmacHex :: "sodium \<Rightarrow> CardIdHasher \<Rightarrow> string \<Rightarrow> string result" where
  "hmacHex so ch cardId =
     (if cardId = [] then Inl (RuntimeError ''cardId empty'')
      else Inr (toHex (hmac_sha256 so (ch_pepper ch) (bytes_of_string cardId))))"

section \<open>The payload\<close>

record AccessRequest =
  rq_cardId :: string
  rq_action :: string

text \<open>\<^verbatim>\<open>json.contains(k) && json[k].is_string()\<close>, then \<^verbatim>\<open>get<std::string>\<close>.\<close>

definition string_field :: "json \<Rightarrow> string \<Rightarrow> string option" where
  "string_field j k = (case json_field j k of Some (JString s) \<Rightarrow> Some s | _ \<Rightarrow> None)"

definition parseAccessRequestJson :: "json_lib \<Rightarrow> string \<Rightarrow> AccessRequest result" where
  "parseAccessRequestJson jl jsonText =
     (case jl_parse jl jsonText of
        Inl what \<Rightarrow> Inl (RuntimeError (''payload: invalid json: '' @ what))
      | Inr j \<Rightarrow>
        if \<not> json_is_object j then Inl (RuntimeError ''payload: json must be object'')
        else (case string_field j ''card_id'' of
          None \<Rightarrow> Inl (RuntimeError ''payload: missing/invalid card_id'')
        | Some cid \<Rightarrow> (case string_field j ''action'' of
            None \<Rightarrow> Inl (RuntimeError ''payload: missing/invalid action'')
          | Some act \<Rightarrow>
              if cid = [] then Inl (RuntimeError ''payload: card_id empty'')
              else if act = [] then Inl (RuntimeError ''payload: action empty'')
              else Inr \<lparr>rq_cardId = cid, rq_action = act\<rparr>)))"

lemma parseAccessRequest_nonempty:
  "parseAccessRequestJson jl t = Inr rq \<Longrightarrow> rq_cardId rq \<noteq> [] \<and> rq_action rq \<noteq> []"
  by (auto simp: parseAccessRequestJson_def split: sum.splits option.splits if_splits)

lemma parseAccessRequest_object:
  assumes "jl_parse jl t = Inr (JObject fs)"
    and "map_of fs ''card_id'' = Some (JString cid)" and "map_of fs ''action'' = Some (JString act)"
    and "cid \<noteq> []" and "act \<noteq> []"
  shows "parseAccessRequestJson jl t = Inr \<lparr>rq_cardId = cid, rq_action = act\<rparr>"
  using assms by (simp add: parseAccessRequestJson_def string_field_def)

section \<open>Properties\<close>

text \<open>
  The in-memory policy keeps the first role a card was given, however often it is added again,
  and allows a door to a role exactly when that pair was granted.
\<close>

theorem memory_policy_semantics:
  "let p = fold (\<lambda>(dr, role). policy_allowRole dr role) grants
             (fold (\<lambda>(c, role). policy_addCard c role) cards AccessPolicy_init)
   in policy_roleForCard p c = (case map_of cards c of None \<Rightarrow> [] | Some role \<Rightarrow> role) \<and>
      (policy_isAllowed p dr role \<longleftrightarrow> (dr, role) \<in> set grants)"
proof -
  have cards: "ap_cardToRole (fold (\<lambda>(c, role). policy_addCard c role) cards p) c =
      (case ap_cardToRole p c of Some role \<Rightarrow> Some role | None \<Rightarrow> map_of cards c)" for p
    by (induction cards arbitrary: p) (auto simp: ap_cardToRole_addCard split: option.splits)
  have keep: "ap_cardToRole (fold (\<lambda>(dr, role). policy_allowRole dr role) grants p) = ap_cardToRole p" for p
    by (induction grants arbitrary: p) (auto simp: policy_allowRole_def Let_def)
  have doors: "policy_isAllowed (fold (\<lambda>(dr, role). policy_allowRole dr role) grants p) dr role \<longleftrightarrow>
      (dr, role) \<in> set grants \<or> policy_isAllowed p dr role" for p
  proof (induction grants arbitrary: p)
    case (Cons g gs)
    obtain x y where g: "g = (x, y)" by (cases g)
    show ?case unfolding g fold_Cons comp_def prod.case Cons.IH isAllowed_allowRole by auto
  qed simp
  have none: "ap_doorAllowedRoles (fold (\<lambda>(c, role). policy_addCard c role) cards p) = ap_doorAllowedRoles p" for p
    by (induction cards arbitrary: p) (simp_all add: case_prod_beta doorRoles_addCard)
  show ?thesis
    unfolding Let_def doors
    by (simp add: policy_roleForCard_def keep cards policy_isAllowed_def none)
      (simp add: AccessPolicy_init_def)
qed

text \<open>
  A card's stored identifier is 64 hexadecimal digits, and the identifiers of two different
  cards are different unless the two cards are a collision of HMAC-SHA-256 under the pepper.
\<close>

theorem card_hash_separates:
  assumes "sodium_spec so" and "hmacHex so ch a = Inr x" and "hmacHex so ch b = Inr y" and "a \<noteq> b"
  shows "length x = 64 \<and> length y = 64 \<and>
    (x = y \<longrightarrow> hmac_collision so (ch_pepper ch, bytes_of_string a) (ch_pepper ch, bytes_of_string b))"
  using assms(2-4) sodium_hmac_length [OF assms(1)]
  by (auto simp: hmacHex_def hmac_collision_def km_hex.toHex_inject split: if_splits)

theorem card_hash_separates_witness:
  "(let ch = \<lparr>ch_pepper = replicate 32 5\<rparr>;
        x = toHex (hmac_sha256 toy_sodium (ch_pepper ch) (bytes_of_string ''A1''));
        y = toHex (hmac_sha256 toy_sodium (ch_pepper ch) (bytes_of_string ''A2''))
    in length x = 64 \<and> length y = 64 \<and>
    (x = y \<longrightarrow> hmac_collision toy_sodium (ch_pepper ch, bytes_of_string ''A1'')
      (ch_pepper ch, bytes_of_string ''A2'')))"
  unfolding Let_def
  by (rule card_hash_separates [OF toy_sodium_spec, where a = "''A1''" and b = "''A2''"])
    (simp_all add: hmacHex_def)

end
