(* ===== verification/Decision_Engine.thy ===== *)
theory Decision_Engine
  imports Frame_Handler Anomaly_Detector Audit_Events Access_Policy
begin

text \<open>
  \<^verbatim>\<open>access_decision/src/engine.cpp\<close>: the decision engine. Its methods are state transformers over
  everything they reach: the replay windows, the anomaly detector, the audit log, the event bus
  and the clock, each of the three objects behind a pointer being optional as in the code. The
  engine is refined to a pure verdict: one function of the handler's result, the detector and the
  store, which says what is decided, what is audited and which events the detector sees.
\<close>

section \<open>State and environment\<close>

text \<open>What does not change during a call: the primitives, the JSON library, the random bytes of the
  cipher object and the clock, whose \<open>n\<close>-th reading is \<open>en_clock n\<close>.\<close>

record engine_env =
  en_sodium :: sodium
  en_json :: json_lib
  en_rnd :: bytes
  en_clock :: "nat \<Rightarrow> u64"

record 'a DecisionEngine =
  de_store :: "IAccessStore option"
  de_hasher :: CardIdHasher
  de_audit :: "'a IAuditLog"
  de_keyManager :: KeyManager
  de_frameHandlerCfg :: FrameHandlerConfig

text \<open>The objects the engine points to, \<open>None\<close> for a null pointer, and the number of clock readings
  so far.\<close>

record 'a engine_state =
  es_windows :: ReplayWindowMap
  es_detector :: "ProtocolAnomalyDetector option"
  es_audit :: "'a option"
  es_events :: "EventBus option"
  es_ticks :: nat

record DecisionResult =
  de_allow :: bool
  de_reason :: string

definition nowUnixMs :: "engine_env \<Rightarrow> ('a engine_state, u64) prog" where
  "nowUnixMs env s = (Inr (en_clock env (es_ticks s)), s\<lparr>es_ticks := Suc (es_ticks s)\<rparr>)"

text \<open>\<^verbatim>\<open>_events->push(ev)\<close>, for a bus that is there.\<close>

definition push_event :: "Event \<Rightarrow> ('a engine_state, unit) prog" where
  "push_event ev s =
     (case es_events s of
        None \<Rightarrow> (Inr (), s)
      | Some bus \<Rightarrow>
        (case push ev bus of
           (Inl e, bus) \<Rightarrow> (Inl e, s\<lparr>es_events := Some bus\<rparr>)
         | (Inr _, bus) \<Rightarrow> (Inr (), s\<lparr>es_events := Some bus\<rparr>)))"

definition when_events :: "('a engine_state, unit) prog \<Rightarrow> ('a engine_state, unit) prog" where
  "when_events m s = (if es_events s = None then (Inr (), s) else m s)"

text \<open>A method of the detector, for a detector that is there.\<close>

definition on_detector ::
    "(ProtocolAnomalyDetector \<Rightarrow> 'b \<times> ProtocolAnomalyDetector) \<Rightarrow> 'b \<Rightarrow> ('a engine_state, 'b) prog" where
  "on_detector f dflt s =
     (case es_detector s of
        None \<Rightarrow> (Inr dflt, s)
      | Some d \<Rightarrow> (case f d of (x, d) \<Rightarrow> (Inr x, s\<lparr>es_detector := Some d\<rparr>)))"

section \<open>Methods\<close>

definition make_audit_event :: "Header \<Rightarrow> bool \<Rightarrow> string \<Rightarrow> string \<Rightarrow> string \<Rightarrow> AuditEvent" where
  "make_audit_event header allow reason cardId action =
     \<lparr>ae_ts_unix_ms = h_ts_unix_ms header, ae_reader_id = h_reader_id header,
      ae_door_id = h_door_id header, ae_seq = h_seq header, ae_allow = allow, ae_reason = reason,
      ae_card_id = cardId, ae_action = action\<rparr>"

definition verdict_word :: "bool \<Rightarrow> string" where
  "verdict_word allow = (if allow then ''ALLOW '' else ''DENY '')"

definition logAuditEvent ::
    "engine_env \<Rightarrow> 'a DecisionEngine \<Rightarrow> Header \<Rightarrow> bool \<Rightarrow> string \<Rightarrow> string \<Rightarrow> string \<Rightarrow> ('a engine_state, unit) prog" where
  "logAuditEvent env eng header allow reason cardId action s =
     (case es_audit s of
        None \<Rightarrow> (Inr (), s)
      | Some a \<Rightarrow>
        (case al_append (de_audit eng) (make_audit_event header allow reason cardId action) a of
           (Inl e, a) \<Rightarrow> (Inl e, s\<lparr>es_audit := Some a\<rparr>)
         | (Inr _, a) \<Rightarrow>
           when_events (bindM (nowUnixMs env) (\<lambda>t.
             push_event (default_Event\<lparr>ev_ts_unix_ms := t, ev_kind := ''audit'',
               ev_message := ''audit append: '' @ verdict_word allow @ reason,
               ev_reader_id := h_reader_id header, ev_door_id := h_door_id header,
               ev_seq := h_seq header, ev_allow := allow, ev_reason := reason\<rparr>)))
             (s\<lparr>es_audit := Some a\<rparr>)))"

definition createDeniedResult :: "string \<Rightarrow> DecisionResult" where
  "createDeniedResult reason = \<lparr>de_allow = False, de_reason = reason\<rparr>"

definition publishFrameEvent :: "engine_env \<Rightarrow> nat \<Rightarrow> ('a engine_state, unit) prog" where
  "publishFrameEvent env frameSize =
     when_events (bindM (nowUnixMs env) (\<lambda>t.
       push_event (default_Event\<lparr>ev_ts_unix_ms := t, ev_kind := ''frame'',
         ev_message := ''frame received, bytes='' @ nat_to_string frameSize\<rparr>)))"

definition publishDecisionEvent :: "engine_env \<Rightarrow> HandleResult \<Rightarrow> ('a engine_state, unit) prog" where
  "publishDecisionEvent env frameResult =
     when_events (bindM (nowUnixMs env) (\<lambda>t.
       push_event (default_Event\<lparr>ev_ts_unix_ms := t, ev_kind := ''decision'',
         ev_reader_id := h_reader_id (hr_header frameResult),
         ev_door_id := h_door_id (hr_header frameResult), ev_seq := h_seq (hr_header frameResult),
         ev_allow := hr_allow frameResult, ev_reason := hr_reason frameResult,
         ev_message := ''frame handler: '' @ verdict_word (hr_allow frameResult) @ hr_reason frameResult\<rparr>)))"

definition publishAnomalyEvent :: "engine_env \<Rightarrow> u32 \<Rightarrow> AnomalyType \<Rightarrow> string \<Rightarrow> ('a engine_state, unit) prog" where
  "publishAnomalyEvent env readerId type detail =
     when_events (bindM (nowUnixMs env) (\<lambda>t.
       push_event (default_Event\<lparr>ev_ts_unix_ms := t, ev_kind := ''anomaly'', ev_reader_id := readerId,
         ev_message := ''anomaly: '' @ anomalyTypeToString type @ (if detail \<noteq> [] then '' '' @ detail else []),
         ev_reason := anomalyTypeToString type\<rparr>)))"

text \<open>The card's identifier under the static, the current or the previous pepper, and its role.\<close>

definition resolveCardHmac ::
    "engine_env \<Rightarrow> 'a DecisionEngine \<Rightarrow> IAccessStore \<Rightarrow> string \<Rightarrow> u32 \<Rightarrow> (string \<times> string option) result" where
  "resolveCardHmac env eng store cardId currentKv =
     (let so = en_sodium env; km = de_keyManager eng; cfg = de_frameHandlerCfg eng in
      if fh_pepperMode cfg = ''static''
      then bindR (deriveCardPepper so km 1) (\<lambda>pepper.
           bindR (hmacHex so (CardIdHasher_init pepper) cardId) (\<lambda>cardHmac.
           bindR (st_roleForCardHmac store cardHmac) (\<lambda>roleOut. Inr (cardHmac, roleOut))))
      else
        bindR (deriveCardPepper so km currentKv) (\<lambda>pepperCur.
        bindR (hmacHex so (CardIdHasher_init pepperCur) cardId) (\<lambda>cardHmac.
        bindR (st_roleForCardHmac store cardHmac) (\<lambda>roleOut.
          if roleOut = None \<and> fh_allowPreviousKeyVersion cfg \<and> currentKv > 1
          then bindR (deriveCardPepper so km (currentKv - 1)) (\<lambda>pepperPrev.
               bindR (hmacHex so (CardIdHasher_init pepperPrev) cardId) (\<lambda>cardHmacPrev.
               bindR (st_roleForCardHmac store cardHmacPrev) (\<lambda>roleOut.
                 if roleOut \<noteq> None then Inr (cardHmacPrev, roleOut) else Inr (cardHmac, roleOut))))
          else Inr (cardHmac, roleOut)))))"

definition checkRoleAccess :: "IAccessStore \<Rightarrow> u32 \<Rightarrow> string \<Rightarrow> DecisionResult result" where
  "checkRoleAccess store doorId role =
     bindR (st_isAllowed store doorId role) (\<lambda>ok.
       if \<not> ok then Inr \<lparr>de_allow = False, de_reason = ''forbidden''\<rparr>
       else Inr \<lparr>de_allow = True, de_reason = ''ok''\<rparr>)"

definition checkAccessPolicy ::
    "engine_env \<Rightarrow> 'a DecisionEngine \<Rightarrow> HandleResult \<Rightarrow> AccessRequest \<Rightarrow> ('a engine_state, DecisionResult) prog" where
  "checkAccessPolicy env eng frameResult request =
     (let header = hr_header frameResult;
          deny = (\<lambda>reason. bindM (logAuditEvent env eng header False reason [] [])
                    (\<lambda>_. returnM (createDeniedResult reason)))
      in if rq_action request \<noteq> ''open'' then deny ''bad_action''
         else (case de_store eng of
           None \<Rightarrow> deny ''no_store''
         | Some store \<Rightarrow>
           bindM (liftR (st_currentKeyVersionForReader store (h_reader_id header))) (\<lambda>currentKv.
             if currentKv = 0 then deny ''unknown_reader''
             else bindM (liftR (resolveCardHmac env eng store (rq_cardId request) currentKv)) (\<lambda>(cardHmac, roleOpt).
               case roleOpt of
                 None \<Rightarrow> bindM (logAuditEvent env eng header False ''unknown_card'' cardHmac (rq_action request))
                           (\<lambda>_. returnM (createDeniedResult ''unknown_card''))
               | Some role \<Rightarrow>
                   bindM (liftR (checkRoleAccess store (h_door_id header) role)) (\<lambda>result.
                   bindM (logAuditEvent env eng header (de_allow result) (de_reason result) cardHmac (rq_action request))
                     (\<lambda>_. returnM result))))))"

text \<open>The nonce the deterministic strategy expects for a header.\<close>

definition expected_nonce :: "engine_env \<Rightarrow> 'a DecisionEngine \<Rightarrow> Header \<Rightarrow> bytes result" where
  "expected_nonce env eng header =
     bindR (deriveNonceKey (en_sodium env) (de_keyManager eng) (h_reader_id header) (h_key_version header))
       (\<lambda>nonceKey.
         let ctxHeader = header\<lparr>h_nonce := replicate 24 0\<rparr>;
             context = to_bytes ctxHeader
         in Inr (HmacNonceGenerator_generate (en_sodium env) nonceKey (fh_cipher (de_frameHandlerCfg eng)) context))"

definition engine_handler :: "'a DecisionEngine \<Rightarrow> FrameHandler" where
  "engine_handler eng =
     \<lparr>fh_keyManager = de_keyManager eng, fh_store = de_store eng, fh_config = de_frameHandlerCfg eng\<rparr>"

definition run_handler :: "engine_env \<Rightarrow> 'a DecisionEngine \<Rightarrow> bytes \<Rightarrow> ('a engine_state, HandleResult) prog" where
  "run_handler env eng frameBytes =
     bindM (nowUnixMs env) (\<lambda>now s.
       case handle (en_sodium env) (en_rnd env) now (engine_handler eng) frameBytes (es_windows s) of
         (r, ws) \<Rightarrow> (r, s\<lparr>es_windows := ws\<rparr>))"

definition detector_active :: "'a engine_state \<Rightarrow> bool" where
  "detector_active s = (case es_detector s of None \<Rightarrow> False | Some d \<Rightarrow> dc_enabled (ad_config d))"

definition detector_quarantined :: "'a engine_state \<Rightarrow> u32 \<Rightarrow> bool" where
  "detector_quarantined s r = (case es_detector s of None \<Rightarrow> False | Some d \<Rightarrow> isQuarantined d r)"

text \<open>The end every quarantine branch shares.\<close>

definition deny_quarantined :: "engine_env \<Rightarrow> 'a DecisionEngine \<Rightarrow> HandleResult \<Rightarrow> ('a engine_state, DecisionResult) prog" where
  "deny_quarantined env eng frameResult =
     bindM (logAuditEvent env eng (hr_header frameResult) False ''quarantined'' [] []) (\<lambda>_.
     bindM (publishDecisionEvent env frameResult) (\<lambda>_.
     returnM (createDeniedResult ''quarantined'')))"

text \<open>The stages of \<^verbatim>\<open>handleFrameBytes\<close>, from the last to the first.\<close>

definition after_acceptance :: "engine_env \<Rightarrow> 'a DecisionEngine \<Rightarrow> HandleResult \<Rightarrow> ('a engine_state, DecisionResult) prog" where
  "after_acceptance env eng frameResult =
     (case parseAccessRequestJson (en_json env) (string_of_bytes (hr_plaintext frameResult)) of
        Inl _ \<Rightarrow> bindM (logAuditEvent env eng (hr_header frameResult) False ''bad_payload'' [] [])
                   (\<lambda>_. returnM (createDeniedResult ''bad_payload''))
      | Inr request \<Rightarrow> checkAccessPolicy env eng frameResult request)"

definition track_rejection :: "engine_env \<Rightarrow> HandleResult \<Rightarrow> ('a engine_state, unit) prog" where
  "track_rejection env frameResult =
     (let readerId = h_reader_id (hr_header frameResult) in
      if hr_reason frameResult = ''replay''
      then bindM (nowUnixMs env) (\<lambda>t.
           bindM (on_detector (reportReplay readerId (h_seq (hr_header frameResult)) t) seq_reuse) (\<lambda>anomaly.
           publishAnomalyEvent env readerId anomaly []))
      else if hr_reason frameResult = ''mac_verification_failed'' \<or> hr_reason frameResult = ''decrypt_failed''
      then bindM (nowUnixMs env) (\<lambda>t.
           bindM (on_detector (reportTagFailure readerId t) None) (\<lambda>anomaly.
             case anomaly of None \<Rightarrow> returnM () | Some a \<Rightarrow> publishAnomalyEvent env readerId a []))
      else returnM ())"

definition after_monitor :: "engine_env \<Rightarrow> 'a DecisionEngine \<Rightarrow> bool \<Rightarrow> HandleResult \<Rightarrow> ('a engine_state, DecisionResult) prog" where
  "after_monitor env eng detectorActive frameResult =
     (let header = hr_header frameResult in
      bindM (publishDecisionEvent env frameResult) (\<lambda>_.
        if \<not> hr_allow frameResult
        then bindM (if detectorActive then track_rejection env frameResult else returnM ()) (\<lambda>_.
             bindM (logAuditEvent env eng header False (hr_reason frameResult) [] []) (\<lambda>_.
             returnM (createDeniedResult (hr_reason frameResult))))
        else bindM (if detectorActive
                    then on_detector (\<lambda>d. ((), reportSuccess (h_reader_id header) (h_seq header) d)) ()
                    else returnM ()) (\<lambda>_.
             after_acceptance env eng frameResult)))"

definition check_nonce :: "engine_env \<Rightarrow> 'a DecisionEngine \<Rightarrow> bool \<Rightarrow> HandleResult \<Rightarrow> ('a engine_state, DecisionResult) prog" where
  "check_nonce env eng detectorActive frameResult =
     (let header = hr_header frameResult; readerId = h_reader_id header; cfg = de_frameHandlerCfg eng in
      if detectorActive \<and> fh_nonceMode cfg = ''deterministic''
      then bindM (liftR (expected_nonce env eng header)) (\<lambda>expected.
             if \<not> nonceEqual (h_nonce header) expected (nonceLenFor (fh_cipher cfg))
             then bindM (nowUnixMs env) (\<lambda>t.
                  bindM (on_detector (reportNonceMismatch readerId t) nonce_mismatch) (\<lambda>_.
                  bindM (publishAnomalyEvent env readerId nonce_mismatch []) (\<lambda>_.
                  deny_quarantined env eng frameResult)))
             else after_monitor env eng detectorActive frameResult)
      else after_monitor env eng detectorActive frameResult)"

definition check_rollback :: "engine_env \<Rightarrow> 'a DecisionEngine \<Rightarrow> bool \<Rightarrow> HandleResult \<Rightarrow> ('a engine_state, DecisionResult) prog" where
  "check_rollback env eng detectorActive frameResult =
     (let header = hr_header frameResult; readerId = h_reader_id header in
      if detectorActive \<and> h_seq header > 0
      then bindM (nowUnixMs env) (\<lambda>t.
           bindM (on_detector (reportSeq readerId (h_seq header) t) None) (\<lambda>anomaly.
             case anomaly of
               Some a \<Rightarrow> bindM (publishAnomalyEvent env readerId a []) (\<lambda>_. deny_quarantined env eng frameResult)
             | None \<Rightarrow> check_nonce env eng detectorActive frameResult))
      else check_nonce env eng detectorActive frameResult)"

definition after_handler :: "engine_env \<Rightarrow> 'a DecisionEngine \<Rightarrow> nat \<Rightarrow> HandleResult \<Rightarrow> ('a engine_state, DecisionResult) prog" where
  "after_handler env eng frameSize frameResult s =
     (let readerId = h_reader_id (hr_header frameResult);
          detectorActive = detector_active s
      in bindM (publishFrameEvent env frameSize) (\<lambda>_ s.
           if detectorActive \<and> detector_quarantined s readerId
           then deny_quarantined env eng frameResult s
           else check_rollback env eng detectorActive frameResult s) s)"

definition handleFrameBytes :: "engine_env \<Rightarrow> 'a DecisionEngine \<Rightarrow> bytes \<Rightarrow> ('a engine_state, DecisionResult) prog" where
  "handleFrameBytes env eng frameBytes =
     bindM (run_handler env eng frameBytes) (after_handler env eng (length frameBytes))"

section \<open>The verdict\<close>

text \<open>What the policy says about an authenticated request: the result, and the card identifier and
  action of the audit entry.\<close>

definition policy_verdict ::
    "engine_env \<Rightarrow> 'a DecisionEngine \<Rightarrow> Header \<Rightarrow> AccessRequest \<Rightarrow> (DecisionResult \<times> string \<times> string) result" where
  "policy_verdict env eng h rq =
     (if rq_action rq \<noteq> ''open'' then Inr (createDeniedResult ''bad_action'', [], [])
      else (case de_store eng of
        None \<Rightarrow> Inr (createDeniedResult ''no_store'', [], [])
      | Some store \<Rightarrow>
        bindR (st_currentKeyVersionForReader store (h_reader_id h)) (\<lambda>kv.
          if kv = 0 then Inr (createDeniedResult ''unknown_reader'', [], [])
          else bindR (resolveCardHmac env eng store (rq_cardId rq) kv) (\<lambda>(cardHmac, roleOpt).
            case roleOpt of
              None \<Rightarrow> Inr (createDeniedResult ''unknown_card'', cardHmac, rq_action rq)
            | Some role \<Rightarrow> bindR (checkRoleAccess store (h_door_id h) role)
                (\<lambda>res. Inr (res, cardHmac, rq_action rq))))))"

text \<open>What the monitor says about a header: the reader is in quarantine, its number rolls back, or
  its nonce is not the one the strategy prescribes.\<close>

definition rolls_back :: "ProtocolAnomalyDetector \<Rightarrow> Header \<Rightarrow> bool" where
  "rolls_back d h \<longleftrightarrow> 0 < h_seq h \<and> fst (reportSeq (h_reader_id h) (h_seq h) 0 d) \<noteq> None"

definition nonce_refused :: "engine_env \<Rightarrow> 'a DecisionEngine \<Rightarrow> Header \<Rightarrow> bool" where
  "nonce_refused env eng h \<longleftrightarrow> fh_nonceMode (de_frameHandlerCfg eng) = ''deterministic'' \<and>
     (\<exists>n. expected_nonce env eng h = Inr n \<and>
       \<not> nonceEqual (h_nonce h) n (nonceLenFor (fh_cipher (de_frameHandlerCfg eng))))"

definition monitor_refuses :: "engine_env \<Rightarrow> 'a DecisionEngine \<Rightarrow> ProtocolAnomalyDetector option \<Rightarrow> Header \<Rightarrow> bool" where
  "monitor_refuses env eng od h \<longleftrightarrow> (\<exists>d. od = Some d \<and> dc_enabled (ad_config d) \<and>
     (isQuarantined d (h_reader_id h) \<or> rolls_back d h \<or> nonce_refused env eng h))"

definition late_verdict :: "engine_env \<Rightarrow> 'a DecisionEngine \<Rightarrow> HandleResult \<Rightarrow> (DecisionResult \<times> string \<times> string) result" where
  "late_verdict env eng hr =
     (if \<not> hr_allow hr then Inr (createDeniedResult (hr_reason hr), [], [])
      else (case parseAccessRequestJson (en_json env) (string_of_bytes (hr_plaintext hr)) of
              Inl _ \<Rightarrow> Inr (createDeniedResult ''bad_payload'', [], [])
            | Inr rq \<Rightarrow> policy_verdict env eng (hr_header hr) rq))"

definition verdict ::
    "engine_env \<Rightarrow> 'a DecisionEngine \<Rightarrow> ProtocolAnomalyDetector option \<Rightarrow> HandleResult \<Rightarrow>
     (DecisionResult \<times> string \<times> string) result" where
  "verdict env eng od hr =
     (if monitor_refuses env eng od (hr_header hr) then Inr (createDeniedResult ''quarantined'', [], [])
      else late_verdict env eng hr)"

text \<open>The events the monitor sees for one frame, with the clock readings \<open>t\<close> and \<open>u\<close>.\<close>

definition late_events :: "HandleResult \<Rightarrow> u64 \<Rightarrow> detector_event list" where
  "late_events hr u =
     (let r = h_reader_id (hr_header hr); q = h_seq (hr_header hr) in
      if hr_allow hr then [ReportSuccess r q]
      else if hr_reason hr = ''replay'' then [ReportReplay r q u]
      else if hr_reason hr = ''mac_verification_failed'' \<or> hr_reason hr = ''decrypt_failed''
      then [ReportTagFailure r u]
      else [])"

definition nonce_events :: "engine_env \<Rightarrow> 'a DecisionEngine \<Rightarrow> HandleResult \<Rightarrow> u64 \<Rightarrow> detector_event list" where
  "nonce_events env eng hr u =
     (if nonce_refused env eng (hr_header hr) then [ReportNonceMismatch (h_reader_id (hr_header hr)) u]
      else late_events hr u)"

definition seq_events :: "HandleResult \<Rightarrow> u64 \<Rightarrow> detector_event list" where
  "seq_events hr t =
     (if 0 < h_seq (hr_header hr) then [ReportSeq (h_reader_id (hr_header hr)) (h_seq (hr_header hr)) t] else [])"

definition monitor_events ::
    "engine_env \<Rightarrow> 'a DecisionEngine \<Rightarrow> HandleResult \<Rightarrow> u64 \<Rightarrow> u64 \<Rightarrow> ProtocolAnomalyDetector \<Rightarrow> detector_event list" where
  "monitor_events env eng hr t u d =
     (if \<not> dc_enabled (ad_config d) \<or> isQuarantined d (h_reader_id (hr_header hr)) then []
      else if rolls_back d (hr_header hr) then seq_events hr t
      else seq_events hr t @ nonce_events env eng hr u)"

definition audit_after ::
    "'a DecisionEngine \<Rightarrow> Header \<Rightarrow> DecisionResult \<times> string \<times> string \<Rightarrow> 'a option \<Rightarrow> 'a option" where
  "audit_after eng h v = (case v of (res, card_id, act) \<Rightarrow>
     map_option (\<lambda>a. snd (al_append (de_audit eng)
       (make_audit_event h (de_allow res) (de_reason res) card_id act) a)))"

section \<open>Running the engine\<close>

text \<open>What a caller can observe apart from the event bus and the clock.\<close>

definition core :: "'a engine_state \<Rightarrow> ReplayWindowMap \<times> ProtocolAnomalyDetector option \<times> 'a option" where
  "core s = (es_windows s, es_detector s, es_audit s)"

definition bus_ok :: "'a engine_state \<Rightarrow> bool" where
  "bus_ok s \<longleftrightarrow> (\<forall>bus. es_events s = Some bus \<longrightarrow> bus_inv bus)"

definition audit_ok :: "'a DecisionEngine \<Rightarrow> 'a option \<Rightarrow> bool" where
  "audit_ok eng oa \<longleftrightarrow> (\<forall>a e. oa = Some a \<longrightarrow> fst (al_append (de_audit eng) e a) = Inr ())"

text \<open>\<open>yields m s P\<close>: run in \<open>s\<close>, the program ends with a result and a core that satisfy \<open>P\<close>, and
  the bus stays usable.\<close>

definition yields ::
    "('a engine_state, 'b) prog \<Rightarrow> 'a engine_state \<Rightarrow>
     ('b result \<Rightarrow> ReplayWindowMap \<times> ProtocolAnomalyDetector option \<times> 'a option \<Rightarrow> bool) \<Rightarrow> bool" where
  "yields m s P \<longleftrightarrow> bus_ok (snd (m s)) \<and> P (fst (m s)) (core (snd (m s)))"

lemma yields_bind:
  assumes "yields m s Q"
    and "\<And>x s'. Q (Inr x) (core s') \<Longrightarrow> bus_ok s' \<Longrightarrow> yields (f x) s' P"
    and "\<And>e c. Q (Inl e) c \<Longrightarrow> P (Inl e) c"
  shows "yields (bindM m f) s P"
proof (cases "m s")
  case (Pair r s')
  then show ?thesis using assms by (cases r) (simp_all add: yields_def bindM_apply)
qed

lemma yields_return [simp]: "yields (returnM x) s P \<longleftrightarrow> bus_ok s \<and> P (Inr x) (core s)"
  by (simp add: yields_def)

lemma yields_mono: "yields m s Q \<Longrightarrow> (\<And>r c. Q r c \<Longrightarrow> P r c) \<Longrightarrow> yields m s P"
  by (simp add: yields_def)

definition silent :: "('a engine_state, unit) prog \<Rightarrow> bool" where
  "silent m \<longleftrightarrow> (\<forall>s. bus_ok s \<longrightarrow> yields m s (\<lambda>r c. r = Inr () \<and> c = core s))"

lemma silentD:
  "silent m \<Longrightarrow> bus_ok s \<Longrightarrow> core s = c \<Longrightarrow> yields m s (\<lambda>r c'. r = Inr () \<and> c' = c)"
  by (auto simp: silent_def)

lemma silent_push_event: "silent (push_event ev)"
  unfolding silent_def
proof (intro allI impI)
  fix s :: "'a engine_state" assume ok: "bus_ok s"
  show "yields (push_event ev) s (\<lambda>r c. r = Inr () \<and> c = core s)"
  proof (cases "es_events s")
    case None
    with ok show ?thesis by (simp add: yields_def push_event_def)
  next
    case (Some bus)
    with ok have "bus_inv bus" by (simp add: bus_ok_def)
    then obtain x bus' where "push ev bus = (Inr x, bus')" and "bus_inv bus'"
      by (rule bus_sink.emitE)
    with Some show ?thesis by (simp add: yields_def push_event_def core_def bus_ok_def)
  qed
qed

lemma yields_now: "bus_ok s \<Longrightarrow> yields (nowUnixMs env) s (\<lambda>r c. (\<exists>t. r = Inr t) \<and> c = core s)"
  by (simp add: yields_def nowUnixMs_def core_def bus_ok_def)

lemma silent_when_events:
  assumes "\<And>t. silent (m t)"
  shows "silent (when_events (bindM (nowUnixMs env) m))"
  unfolding silent_def
proof (intro allI impI)
  fix s :: "'a engine_state" assume ok: "bus_ok s"
  have "yields (bindM (nowUnixMs env) m) s (\<lambda>r c. r = Inr () \<and> c = core s)"
    by (rule yields_bind [OF yields_now [OF ok]]) (use assms in \<open>auto intro: silentD\<close>)
  with ok show "yields (when_events (bindM (nowUnixMs env) m)) s (\<lambda>r c. r = Inr () \<and> c = core s)"
    by (simp add: yields_def when_events_def)
qed

lemmas silent_events = silent_when_events [OF silent_push_event]

lemma silent_publish:
  "silent (publishFrameEvent env n)" "silent (publishDecisionEvent env hr)"
  "silent (publishAnomalyEvent env r ty detail)"
  by (simp_all only: publishFrameEvent_def publishDecisionEvent_def publishAnomalyEvent_def silent_events)

lemma yields_silent:
  assumes "silent m" and "bus_ok s" and "\<And>s'. core s' = core s \<Longrightarrow> bus_ok s' \<Longrightarrow> yields f s' P"
  shows "yields (bindM m (\<lambda>_. f)) s P"
  by (rule yields_bind [of m s "\<lambda>r c. r = Inr () \<and> c = core s"]) (use assms in \<open>auto simp: silent_def\<close>)

lemma yields_log:
  assumes "bus_ok s" and "audit_ok eng (es_audit s)"
  shows "yields (logAuditEvent env eng h allow reason card_id act) s
    (\<lambda>r c. r = Inr () \<and> c = (es_windows s, es_detector s,
       audit_after eng h (\<lparr>de_allow = allow, de_reason = reason\<rparr>, card_id, act) (es_audit s)))"
proof (cases "es_audit s")
  case None
  with assms show ?thesis by (simp add: yields_def logAuditEvent_def core_def audit_after_def)
next
  case (Some a)
  let ?e = "make_audit_event h allow reason card_id act"
  obtain a' where a': "al_append (de_audit eng) ?e a = (Inr (), a')"
    using assms(2) Some unfolding audit_ok_def by (metis prod.collapse)
  have "bus_ok (s\<lparr>es_audit := Some a'\<rparr>)" using assms(1) by (simp add: bus_ok_def)
  with silent_events [unfolded silent_def, rule_format, OF this]
  show ?thesis by (simp add: yields_def logAuditEvent_def Some a' core_def audit_after_def)
qed

text \<open>How a stage ends: with the verdict's exception and no change, or with its result and one audit
  entry.\<close>

fun decided ::
    "'a DecisionEngine \<Rightarrow> Header \<Rightarrow> (DecisionResult \<times> string \<times> string) result \<Rightarrow>
     ReplayWindowMap \<times> ProtocolAnomalyDetector option \<times> 'a option \<Rightarrow>
     DecisionResult result \<Rightarrow> ReplayWindowMap \<times> ProtocolAnomalyDetector option \<times> 'a option \<Rightarrow> bool" where
  "decided eng h (Inl e) c0 r c \<longleftrightarrow> r = Inl e \<and> c = c0"
| "decided eng h (Inr v) (w, d, a) r c \<longleftrightarrow> r = Inr (fst v) \<and> c = (w, d, audit_after eng h v a)"

lemma bindM_liftR: "bindM (liftR x) f = (case x of Inl e \<Rightarrow> throwM e | Inr y \<Rightarrow> f y)"
  by (rule ext) (simp add: bindM_apply throwM_def split: sum.split)

lemma yields_throw [simp]: "yields (throwM e) s P \<longleftrightarrow> bus_ok s \<and> P (Inl e) (core s)"
  by (simp add: yields_def)

lemma yields_log_return:
  assumes "bus_ok s" and "audit_ok eng (es_audit s)"
  shows "yields (bindM (logAuditEvent env eng h (de_allow res) (de_reason res) cid act) (\<lambda>_. returnM res)) s
    (decided eng h (Inr (res, cid, act)) (core s))"
  by (rule yields_bind [OF yields_log [OF assms]]) (auto simp: core_def audit_after_def)

lemma yields_deny:
  assumes "bus_ok s" and "audit_ok eng (es_audit s)"
  shows "yields (bindM (logAuditEvent env eng h False reason cid act) (\<lambda>_. returnM (createDeniedResult reason))) s
    (decided eng h (Inr (createDeniedResult reason, cid, act)) (core s))"
  using yields_log_return [OF assms, of env h "createDeniedResult reason"]
  by (simp add: createDeniedResult_def)

lemma yields_checkAccessPolicy:
  assumes "bus_ok s" and "audit_ok eng (es_audit s)"
  shows "yields (checkAccessPolicy env eng hr rq) s
    (decided eng (hr_header hr) (policy_verdict env eng (hr_header hr) rq) (core s))"
  unfolding checkAccessPolicy_def policy_verdict_def Let_def bindM_liftR
  by (auto simp: assms(1) bindR_def split: option.split sum.split
      intro!: yields_deny [OF assms] yields_log_return [OF assms])

lemma yields_after_acceptance:
  assumes "bus_ok s" and "audit_ok eng (es_audit s)"
  shows "yields (after_acceptance env eng hr) s
    (decided eng (hr_header hr)
      (case parseAccessRequestJson (en_json env) (string_of_bytes (hr_plaintext hr)) of
         Inl _ \<Rightarrow> Inr (createDeniedResult ''bad_payload'', [], [])
       | Inr rq \<Rightarrow> policy_verdict env eng (hr_header hr) rq) (core s))"
  unfolding after_acceptance_def
  by (auto split: sum.split intro!: yields_deny [OF assms] yields_checkAccessPolicy [OF assms])

lemma yields_deny_quarantined:
  assumes "bus_ok s" and "audit_ok eng (es_audit s)"
  shows "yields (deny_quarantined env eng hr) s
    (decided eng (hr_header hr) (Inr (createDeniedResult ''quarantined'', [], [])) (core s))"
  unfolding deny_quarantined_def
  by (rule yields_bind [OF yields_log [OF assms]])
    (auto intro!: yields_silent [OF silent_publish(2)] simp: core_def createDeniedResult_def)

lemma yields_on_detector:
  assumes "bus_ok s" and "es_detector s = Some d"
  shows "yields (on_detector f x) s (\<lambda>r c. r = Inr (fst (f d)) \<and> c = (es_windows s, Some (snd (f d)), es_audit s))"
  using assms by (simp add: yields_def on_detector_def core_def bus_ok_def case_prod_beta)

text \<open>Reading the clock and reporting to the monitor.\<close>

lemma yields_report:
  assumes "bus_ok s" and "core s = (w, Some d, a)"
    and "\<And>t s'. core s' = (w, Some (snd (f t d)), a) \<Longrightarrow> bus_ok s' \<Longrightarrow> yields (k (fst (f t d))) s' P"
  shows "yields (bindM (nowUnixMs env) (\<lambda>t. bindM (on_detector (f t) x) k)) s P"
proof (rule yields_bind [OF yields_now [OF assms(1)]], clarsimp)
  fix t s' assume s': "core s' = core s" "bus_ok s'"
  then have "es_detector s' = Some d" and c: "es_windows s' = w" "es_audit s' = a"
    using assms(2) by (simp_all add: core_def)
  from yields_on_detector [OF s'(2) this(1), of "f t" x]
  show "yields (bindM (on_detector (f t) x) k) s' P"
    by (rule yields_bind) (auto simp: c assms(3))
qed simp

lemma yields_track_rejection:
  assumes "bus_ok s" and "core s = (w, Some d, a)" and "\<not> hr_allow hr"
  shows "yields (track_rejection env hr) s
    (\<lambda>r c. r = Inr () \<and> (\<exists>u. c = (w, Some (fold detector_step (late_events hr u) d), a)))"
proof -
  let ?r = "h_reader_id (hr_header hr)" and ?q = "h_seq (hr_header hr)"
  let ?P = "\<lambda>r c. r = Inr () \<and> (\<exists>u. c = (w, Some (fold detector_step (late_events hr u) d), a))"
  have pub: "yields (publishAnomalyEvent env r ty detail) s' ?P"
    if "core s' = (w, Some d', a)" "bus_ok s'" "\<exists>u. d' = fold detector_step (late_events hr u) d"
    for r ty detail s' d'
    by (rule yields_mono [OF silentD [OF silent_publish(3) that(2,1)]]) (use that(3) in auto)
  consider "hr_reason hr = ''replay''" | "hr_reason hr \<noteq> ''replay''"
      "hr_reason hr = ''mac_verification_failed'' \<or> hr_reason hr = ''decrypt_failed''"
    | "hr_reason hr \<noteq> ''replay''" "\<not> (hr_reason hr = ''mac_verification_failed'' \<or> hr_reason hr = ''decrypt_failed'')"
    by blast
  then show ?thesis
  proof cases
    case 1
    then have eq: "track_rejection env hr = bindM (nowUnixMs env) (\<lambda>t.
        bindM (on_detector (reportReplay ?r ?q t) seq_reuse) (\<lambda>anomaly. publishAnomalyEvent env ?r anomaly []))"
      and ev: "late_events hr u = [ReportReplay ?r ?q u]" for u
      using assms(3) by (simp_all add: track_rejection_def late_events_def Let_def)
    show ?thesis unfolding eq by (rule yields_report [OF assms(1,2)], erule pub) (auto simp: ev)
  next
    case 2
    then have eq: "track_rejection env hr = bindM (nowUnixMs env) (\<lambda>t.
        bindM (on_detector (reportTagFailure ?r t) None) (\<lambda>anomaly.
          case anomaly of None \<Rightarrow> returnM () | Some a \<Rightarrow> publishAnomalyEvent env ?r a []))"
      and ev: "late_events hr u = [ReportTagFailure ?r u]" for u
      using assms(3) by (simp_all add: track_rejection_def late_events_def Let_def)
    have "yields (case anomaly of None \<Rightarrow> returnM () | Some a \<Rightarrow> publishAnomalyEvent env ?r a []) s' ?P"
      if "core s' = (w, Some (snd (reportTagFailure ?r t d)), a)" "bus_ok s'" for anomaly t s'
      using that pub [OF that] by (auto simp: ev split: option.split)
    then show ?thesis unfolding eq by (rule yields_report [OF assms(1,2)])
  next
    case 3
    with assms show ?thesis by (simp add: track_rejection_def late_events_def Let_def)
  qed
qed

lemma core_audit: "core s = (w, od, a) \<Longrightarrow> es_audit s = a"
  by (simp add: core_def)

lemma yields_final:
  assumes "core s = (w, od, a)" and "bus_ok s" and "audit_ok eng a"
  shows "yields (bindM (logAuditEvent env eng h False reason cid act) (\<lambda>_. returnM (createDeniedResult reason))) s
      (decided eng h (Inr (createDeniedResult reason, cid, act)) (w, od, a))"
    and "yields (after_acceptance env eng hr) s (decided eng (hr_header hr)
      (case parseAccessRequestJson (en_json env) (string_of_bytes (hr_plaintext hr)) of
         Inl _ \<Rightarrow> Inr (createDeniedResult ''bad_payload'', [], [])
       | Inr rq \<Rightarrow> policy_verdict env eng (hr_header hr) rq) (w, od, a))"
    and "yields (deny_quarantined env eng hr) s
      (decided eng (hr_header hr) (Inr (createDeniedResult ''quarantined'', [], [])) (w, od, a))"
  using yields_deny [OF assms(2), of eng env h reason cid act]
    yields_after_acceptance [OF assms(2), of eng env hr]
    yields_deny_quarantined [OF assms(2), of eng env hr] assms(3)
  by (simp_all add: core_audit [OF assms(1)] assms(1))

lemma yields_after_monitor_off:
  assumes "core s = (w, od, a)" and "bus_ok s" and "audit_ok eng a"
  shows "yields (after_monitor env eng False hr) s
    (decided eng (hr_header hr) (late_verdict env eng hr) (w, od, a))"
  unfolding after_monitor_def Let_def
proof (rule yields_silent [OF silent_publish(2) assms(2)])
  fix s' assume "core s' = core s" "bus_ok s'"
  with assms have s': "core s' = (w, od, a)" "bus_ok s'" by simp_all
  have bind: "bindM (if False then m else returnM ()) f = f ()" for m :: "('a engine_state, unit) prog" and f
    by (rule ext) (simp add: bindM_apply)
  show "yields (if \<not> hr_allow hr
      then bindM (if False then track_rejection env hr else returnM ()) (\<lambda>_.
        bindM (logAuditEvent env eng (hr_header hr) False (hr_reason hr) [] []) (\<lambda>_.
        returnM (createDeniedResult (hr_reason hr))))
      else bindM (if False then on_detector (\<lambda>d. ((), reportSuccess (h_reader_id (hr_header hr)) (h_seq (hr_header hr)) d)) ()
             else returnM ()) (\<lambda>_. after_acceptance env eng hr)) s'
    (decided eng (hr_header hr) (late_verdict env eng hr) (w, od, a))"
    unfolding bind using yields_final [OF s' assms(3)] by (simp add: late_verdict_def)
qed

lemma yields_after_monitor_on:
  assumes "core s = (w, Some d, a)" and "bus_ok s" and "audit_ok eng a"
  shows "yields (after_monitor env eng True hr) s (\<lambda>r c. \<exists>u.
    decided eng (hr_header hr) (late_verdict env eng hr) (w, Some (fold detector_step (late_events hr u) d), a) r c)"
  unfolding after_monitor_def Let_def if_True
proof (rule yields_silent [OF silent_publish(2) assms(2)])
  let ?h = "hr_header hr"
  fix s' assume "core s' = core s" "bus_ok s'"
  with assms have s': "core s' = (w, Some d, a)" "bus_ok s'" by simp_all
  show "yields (if \<not> hr_allow hr
      then bindM (track_rejection env hr) (\<lambda>_.
        bindM (logAuditEvent env eng ?h False (hr_reason hr) [] []) (\<lambda>_.
        returnM (createDeniedResult (hr_reason hr))))
      else bindM (on_detector (\<lambda>d. ((), reportSuccess (h_reader_id ?h) (h_seq ?h) d)) ())
             (\<lambda>_. after_acceptance env eng hr)) s'
    (\<lambda>r c. \<exists>u. decided eng ?h (late_verdict env eng hr) (w, Some (fold detector_step (late_events hr u) d), a) r c)"
  proof (cases "hr_allow hr")
    case False
    have "yields (bindM (track_rejection env hr) (\<lambda>_.
        bindM (logAuditEvent env eng ?h False (hr_reason hr) [] []) (\<lambda>_.
        returnM (createDeniedResult (hr_reason hr))))) s'
      (\<lambda>r c. \<exists>u. decided eng ?h (late_verdict env eng hr) (w, Some (fold detector_step (late_events hr u) d), a) r c)"
      by (rule yields_bind [OF yields_track_rejection [OF s'(2,1) False]], clarsimp,
          rule yields_mono [OF yields_final(1) [OF _ _ assms(3)]])
        (use False in \<open>auto simp: late_verdict_def\<close>)
    with False show ?thesis by simp
  next
    case True
    have d: "es_detector s' = Some d" using s'(1) by (simp add: core_def)
    have "yields (bindM (on_detector (\<lambda>d. ((), reportSuccess (h_reader_id ?h) (h_seq ?h) d)) ())
        (\<lambda>_. after_acceptance env eng hr)) s'
      (\<lambda>r c. \<exists>u. decided eng ?h (late_verdict env eng hr) (w, Some (fold detector_step (late_events hr u) d), a) r c)"
      by (rule yields_bind [OF yields_on_detector [OF s'(2) d]],
          rule yields_mono [OF yields_final(2) [where a = a, OF _ _ assms(3)]])
        (use True s'(1) in \<open>auto simp: late_verdict_def late_events_def core_def\<close>)
    with True show ?thesis by simp
  qed
qed

lemma yields_check_nonce_on:
  assumes "sodium_spec (en_sodium env)"
    and "core s = (w, Some d, a)" and "bus_ok s" and "audit_ok eng a"
  shows "yields (check_nonce env eng True hr) s (\<lambda>r c. \<exists>u. decided eng (hr_header hr)
    (if nonce_refused env eng (hr_header hr) then Inr (createDeniedResult ''quarantined'', [], [])
     else late_verdict env eng hr) (w, Some (fold detector_step (nonce_events env eng hr u) d), a) r c)"
proof -
  let ?h = "hr_header hr" and ?cfg = "de_frameHandlerCfg eng"
  obtain k where "deriveNonceKey (en_sodium env) (de_keyManager eng) (h_reader_id ?h) (h_key_version ?h) = Inr k"
    by (rule deriveNonceKey_ok [OF assms(1)])
  then obtain n where n: "expected_nonce env eng ?h = Inr n" by (simp add: expected_nonce_def Let_def)
  show ?thesis
  proof (cases "nonce_refused env eng ?h")
    case True
    then have bad: "fh_nonceMode ?cfg = ''deterministic''" "\<not> nonceEqual (h_nonce ?h) n (nonceLenFor (fh_cipher ?cfg))"
      by (auto simp: nonce_refused_def n)
    have end_ok: "yields (bindM (publishAnomalyEvent env r nonce_mismatch []) (\<lambda>_. deny_quarantined env eng hr)) s'
        (\<lambda>r c. \<exists>u. decided eng ?h (Inr (createDeniedResult ''quarantined'', [], []))
          (w, Some (fold detector_step (nonce_events env eng hr u) d), a) r c)"
      if "core s' = (w, Some (snd (reportNonceMismatch (h_reader_id ?h) t d)), a)" "bus_ok s'" for s' r t
      by (rule yields_silent [OF silent_publish(3) that(2)],
          rule yields_mono [OF yields_final(3) [OF trans [OF _ that(1)] _ assms(4)]])
        (use True in \<open>auto simp: nonce_events_def\<close>)
    have eq: "check_nonce env eng True hr = bindM (nowUnixMs env) (\<lambda>t.
        bindM (on_detector (reportNonceMismatch (h_reader_id ?h) t) nonce_mismatch) (\<lambda>_.
        bindM (publishAnomalyEvent env (h_reader_id ?h) nonce_mismatch []) (\<lambda>_. deny_quarantined env eng hr)))"
      using bad by (simp add: check_nonce_def Let_def n bindM_liftR)
    show ?thesis unfolding eq if_P [OF True]
      by (rule yields_report [OF assms(3,2)]) (rule end_ok)
  next
    case False
    then have eq: "check_nonce env eng True hr = after_monitor env eng True hr"
      by (auto simp: check_nonce_def Let_def n bindM_liftR nonce_refused_def)
    have ev: "nonce_events env eng hr u = late_events hr u" for u
      using False by (simp add: nonce_events_def)
    show ?thesis unfolding eq ev if_not_P [OF False]
      by (rule yields_after_monitor_on [OF assms(2-4)])
  qed
qed

lemma reportSeq_result: "fst (reportSeq r q t d) = fst (reportSeq r q 0 d)"
  by (simp add: reportSeq_def Let_def)

lemma yields_check_rollback_on:
  assumes "sodium_spec (en_sodium env)"
    and "core s = (w, Some d, a)" and "bus_ok s" and "audit_ok eng a"
  shows "yields (check_rollback env eng True hr) s (\<lambda>r c. \<exists>t u. decided eng (hr_header hr)
    (if rolls_back d (hr_header hr) \<or> nonce_refused env eng (hr_header hr)
     then Inr (createDeniedResult ''quarantined'', [], []) else late_verdict env eng hr)
    (w, Some (fold detector_step (if rolls_back d (hr_header hr) then seq_events hr t
       else seq_events hr t @ nonce_events env eng hr u) d), a) r c)" (is "yields _ _ ?P")
proof (cases "0 < h_seq (hr_header hr)")
  case True
  let ?h = "hr_header hr"
  have eq: "check_rollback env eng True hr = bindM (nowUnixMs env) (\<lambda>t.
      bindM (on_detector (reportSeq (h_reader_id ?h) (h_seq ?h) t) None) (\<lambda>anomaly.
        case anomaly of
          Some a \<Rightarrow> bindM (publishAnomalyEvent env (h_reader_id ?h) a []) (\<lambda>_. deny_quarantined env eng hr)
        | None \<Rightarrow> check_nonce env eng True hr))"
    using True by (simp add: check_rollback_def Let_def)
  show ?thesis unfolding eq
  proof (rule yields_report [OF assms(3,2)])
    fix t and s' :: "'a engine_state"
    assume s': "core s' = (w, Some (snd (reportSeq (h_reader_id ?h) (h_seq ?h) t d)), a)" "bus_ok s'"
    have ev: "seq_events hr t = [ReportSeq (h_reader_id ?h) (h_seq ?h) t]" for t
      using True by (simp add: seq_events_def)
    show "yields (case fst (reportSeq (h_reader_id ?h) (h_seq ?h) t d) of
        Some a \<Rightarrow> bindM (publishAnomalyEvent env (h_reader_id ?h) a []) (\<lambda>_. deny_quarantined env eng hr)
      | None \<Rightarrow> check_nonce env eng True hr) s' ?P"
    proof (cases "fst (reportSeq (h_reader_id ?h) (h_seq ?h) t d)")
      case None
      then have nb: "\<not> rolls_back d ?h" using reportSeq_result [of _ _ t] by (simp add: rolls_back_def)
      show ?thesis
        unfolding None option.case
        by (rule yields_mono [OF yields_check_nonce_on [OF assms(1) s' assms(4)]], rule exI [of _ t])
          (simp add: ev nb)
    next
      case (Some x)
      then have rb: "rolls_back d ?h" using True reportSeq_result [of _ _ t] by (simp add: rolls_back_def)
      show ?thesis
        unfolding Some option.case
        by (rule yields_silent [OF silent_publish(3) s'(2)],
            rule yields_mono [OF yields_final(3) [OF trans [OF _ s'(1)] _ assms(4)]])
          (use rb in \<open>auto simp: ev intro!: exI [of _ t]\<close>)
    qed
  qed
next
  case False
  then have eq: "check_rollback env eng True hr = check_nonce env eng True hr"
    and ev: "seq_events hr t = []" and nb: "\<not> rolls_back d (hr_header hr)" for t
    by (simp_all add: check_rollback_def Let_def seq_events_def rolls_back_def)
  show ?thesis unfolding eq
    by (rule yields_mono [OF yields_check_nonce_on [OF assms]]) (use nb in \<open>auto simp: ev\<close>)
qed

text \<open>The monitored part of a call, with the monitor off or in its state \<open>d\<close>.\<close>

abbreviation monitored ::
    "engine_env \<Rightarrow> 'a DecisionEngine \<Rightarrow> bool \<Rightarrow> HandleResult \<Rightarrow> ('a engine_state, DecisionResult) prog" where
  "monitored env eng active hr \<equiv> \<lambda>s.
     if active \<and> detector_quarantined s (h_reader_id (hr_header hr)) then deny_quarantined env eng hr s
     else check_rollback env eng active hr s"

abbreviation decided_by where
  "decided_by env eng hr ws od oa \<equiv> \<lambda>r c. \<exists>t u. decided eng (hr_header hr) (verdict env eng od hr)
     (ws, map_option (\<lambda>d. fold detector_step (monitor_events env eng hr t u d) d) od, oa) r c"

lemma yields_unmonitored:
  assumes s': "core s' = (ws, od, oa)" "bus_ok s'" and "audit_ok eng oa"
    and off: "\<And>d. od = Some d \<Longrightarrow> \<not> dc_enabled (ad_config d)"
  shows "yields (monitored env eng False hr) s' (decided_by env eng hr ws od oa)"
proof -
  have "\<not> monitor_refuses env eng od (hr_header hr)"
    and ev: "od = Some d \<Longrightarrow> monitor_events env eng hr t u d = []" for d t u
    using off by (auto simp: monitor_refuses_def monitor_events_def)
  then have v: "verdict env eng od hr = late_verdict env eng hr"
    and d: "map_option (\<lambda>d. fold detector_step (monitor_events env eng hr t u d) d) od = od" for t u
    by (auto simp: verdict_def intro: option.map_ident_strong)
  have "check_rollback env eng False hr = after_monitor env eng False hr"
    by (simp add: check_rollback_def check_nonce_def Let_def)
  then show ?thesis
    using yields_after_monitor_off [OF s' assms(3)] by (simp add: yields_def v d)
qed

lemma yields_monitored:
  assumes "sodium_spec (en_sodium env)" and s': "core s' = (ws, Some d, oa)" "bus_ok s'" and audit: "audit_ok eng oa"
    and enabled: "dc_enabled (ad_config d)"
  shows "yields (monitored env eng True hr) s' (decided_by env eng hr ws (Some d) oa)"
proof (cases "isQuarantined d (h_reader_id (hr_header hr))")
  case True
  with s'(1) have "detector_quarantined s' (h_reader_id (hr_header hr))"
    by (simp add: detector_quarantined_def core_def)
  moreover have "verdict env eng (Some d) hr = Inr (createDeniedResult ''quarantined'', [], [])"
    and "monitor_events env eng hr t u d = []" for t u
    using True enabled by (auto simp: verdict_def monitor_refuses_def monitor_events_def)
  ultimately show ?thesis
    using yields_final(3) [OF s' audit, of env hr] by (simp add: yields_def)
next
  case False
  let ?h = "hr_header hr"
  have "\<not> detector_quarantined s' (h_reader_id ?h)" using False s'(1) by (simp add: detector_quarantined_def core_def)
  moreover have "verdict env eng (Some d) hr =
      (if rolls_back d ?h \<or> nonce_refused env eng ?h then Inr (createDeniedResult ''quarantined'', [], [])
       else late_verdict env eng hr)"
    using False enabled by (simp add: verdict_def monitor_refuses_def)
  moreover have "monitor_events env eng hr t u d = (if rolls_back d ?h then seq_events hr t
      else seq_events hr t @ nonce_events env eng hr u)" for t u
    using False enabled by (simp add: monitor_events_def)
  ultimately show ?thesis
    using yields_check_rollback_on [OF assms(1) s' audit, of hr] by (simp add: yields_def)
qed

text \<open>The call behind the handler, and the whole call: the handler's windows, the verdict, one audit
  entry, the monitor's events.\<close>

lemma after_handler_run:
  assumes "sodium_spec (en_sodium env)" and s1: "core s1 = (ws, od, oa)" "bus_ok s1" and audit: "audit_ok eng oa"
  shows "yields (after_handler env eng n hr) s1 (decided_by env eng hr ws od oa)" (is "yields _ _ ?P")
proof -
  have od: "es_detector s1 = od" using s1(1) by (simp add: core_def)
  have "yields (bindM (publishFrameEvent env n) (\<lambda>_. monitored env eng (detector_active s1) hr)) s1 ?P"
  proof (rule yields_silent [OF silent_publish(1) s1(2)])
    fix s' assume "core s' = core s1" "bus_ok s'"
    with s1 have s': "core s' = (ws, od, oa)" "bus_ok s'" by simp_all
    show "yields (monitored env eng (detector_active s1) hr) s' ?P"
    proof (cases "detector_active s1")
      case False
      then show ?thesis
        using yields_unmonitored [OF s' audit] by (simp add: detector_active_def od split: option.splits)
    next
      case True
      then obtain d where d: "od = Some d" "dc_enabled (ad_config d)"
        by (auto simp: detector_active_def od split: option.splits)
      have active: "detector_active s1 = True" using True by simp
      show ?thesis
        unfolding active d(1) by (rule yields_monitored [OF assms(1) _ s'(2) audit d(2)]) (simp add: s'(1) d(1))
    qed
  qed
  then show ?thesis by (simp add: yields_def after_handler_def Let_def)
qed

lemma engine_run:
  assumes "sodium_spec (en_sodium env)" and "bus_ok s" and "audit_ok eng (es_audit s)"
    and "handle (en_sodium env) (en_rnd env) (en_clock env (es_ticks s)) (engine_handler eng) bs (es_windows s) =
      (Inr hr, ws)"
  shows "yields (handleFrameBytes env eng bs) s (decided_by env eng hr ws (es_detector s) (es_audit s))"
proof -
  let ?s1 = "s\<lparr>es_ticks := Suc (es_ticks s), es_windows := ws\<rparr>"
  have "core ?s1 = (ws, es_detector s, es_audit s)" "bus_ok ?s1"
    using assms(2) by (simp_all add: core_def bus_ok_def)
  from after_handler_run [OF assms(1) this assms(3), of "length bs" hr] show ?thesis
    by (simp add: yields_def handleFrameBytes_def run_handler_def bindM_apply nowUnixMs_def assms(4))
qed

section \<open>Consequences\<close>

lemma engine_decides:
  assumes "sodium_spec (en_sodium env)" and "bus_ok s" and "audit_ok eng (es_audit s)"
    and "handle (en_sodium env) (en_rnd env) (en_clock env (es_ticks s)) (engine_handler eng) bs (es_windows s) =
      (Inr hr, ws)"
    and "verdict env eng (es_detector s) hr = Inr v"
  shows "\<exists>s' t u. handleFrameBytes env eng bs s = (Inr (fst v), s') \<and> bus_ok s' \<and> es_windows s' = ws \<and>
    es_detector s' = map_option (\<lambda>d. fold detector_step (monitor_events env eng hr t u d) d) (es_detector s) \<and>
    es_audit s' = audit_after eng (hr_header hr) v (es_audit s)"
  using engine_run [OF assms(1-4)] assms(5)
  by (cases "handleFrameBytes env eng bs s") (auto simp: yields_def core_def)

lemma engine_throws:
  assumes "sodium_spec (en_sodium env)" and "bus_ok s" and "audit_ok eng (es_audit s)"
    and "handle (en_sodium env) (en_rnd env) (en_clock env (es_ticks s)) (engine_handler eng) bs (es_windows s) =
      (Inr hr, ws)"
    and "verdict env eng (es_detector s) hr = Inl e"
  shows "\<exists>s'. handleFrameBytes env eng bs s = (Inl e, s') \<and> bus_ok s' \<and> es_windows s' = ws \<and> es_audit s' = es_audit s"
  using engine_run [OF assms(1-4)] assms(5)
  by (cases "handleFrameBytes env eng bs s") (auto simp: yields_def core_def)

lemma engine_store_throws:
  assumes "handle (en_sodium env) (en_rnd env) (en_clock env (es_ticks s)) (engine_handler eng) bs (es_windows s) =
      (Inl e, ws)"
  shows "handleFrameBytes env eng bs s = (Inl e, s\<lparr>es_ticks := Suc (es_ticks s), es_windows := ws\<rparr>)"
  by (simp add: handleFrameBytes_def run_handler_def bindM_apply nowUnixMs_def assms)

text \<open>The three ways a call can end.\<close>

lemma engine_cases:
  assumes "sodium_spec (en_sodium env)" and "bus_ok s" and "audit_ok eng (es_audit s)"
  obtains (store) e ws where "handle (en_sodium env) (en_rnd env) (en_clock env (es_ticks s)) (engine_handler eng) bs (es_windows s) = (Inl e, ws)"
      and "handleFrameBytes env eng bs s = (Inl e, s\<lparr>es_ticks := Suc (es_ticks s), es_windows := ws\<rparr>)"
  | (policy) hr ws e s' where "handle (en_sodium env) (en_rnd env) (en_clock env (es_ticks s)) (engine_handler eng) bs (es_windows s) = (Inr hr, ws)"
      and "verdict env eng (es_detector s) hr = Inl e"
      and "handleFrameBytes env eng bs s = (Inl e, s')" and "bus_ok s'" and "es_windows s' = ws"
      and "es_audit s' = es_audit s"
  | (decision) hr ws v s' where "handle (en_sodium env) (en_rnd env) (en_clock env (es_ticks s)) (engine_handler eng) bs (es_windows s) = (Inr hr, ws)"
      and "verdict env eng (es_detector s) hr = Inr v"
      and "handleFrameBytes env eng bs s = (Inr (fst v), s')" and "bus_ok s'" and "es_windows s' = ws"
      and "es_audit s' = audit_after eng (hr_header hr) v (es_audit s)"
proof -
  obtain r ws where h: "handle (en_sodium env) (en_rnd env) (en_clock env (es_ticks s)) (engine_handler eng) bs (es_windows s) = (r, ws)"
    by (cases "handle (en_sodium env) (en_rnd env) (en_clock env (es_ticks s)) (engine_handler eng) bs (es_windows s)")
  show thesis
  proof (cases r)
    case (Inl e)
    with h engine_store_throws [of env s eng bs e ws] that(1) show thesis by simp
  next
    case (Inr hr)
    with h have h: "handle (en_sodium env) (en_rnd env) (en_clock env (es_ticks s)) (engine_handler eng) bs (es_windows s) = (Inr hr, ws)"
      by simp
    show thesis
    proof (cases "verdict env eng (es_detector s) hr")
      case (Inl e)
      from engine_throws [OF assms h this] Inl h that(2) show thesis by blast
    next
      case (Inr v)
      from engine_decides [OF assms h this] Inr h that(3) show thesis by blast
    qed
  qed
qed

text \<open>The policy's condition for opening: the payload is a request to open for a card whose role, as
  the store has it, is allowed at the door.\<close>

definition request_permitted :: "engine_env \<Rightarrow> 'a DecisionEngine \<Rightarrow> Header \<Rightarrow> bytes \<Rightarrow> bool" where
  "request_permitted env eng h pt \<longleftrightarrow> (\<exists>card_id store kv cid role.
     parseAccessRequestJson (en_json env) (string_of_bytes pt) = Inr \<lparr>rq_cardId = card_id, rq_action = ''open''\<rparr> \<and>
     de_store eng = Some store \<and>
     st_currentKeyVersionForReader store (h_reader_id h) = Inr kv \<and> kv \<noteq> 0 \<and>
     resolveCardHmac env eng store card_id kv = Inr (cid, Some role) \<and>
     st_isAllowed store (h_door_id h) role = Inr True)"

lemma policy_verdict_allow:
  "(\<exists>v. policy_verdict env eng h rq = Inr v \<and> de_allow (fst v)) \<longleftrightarrow>
     rq_action rq = ''open'' \<and> (\<exists>store kv cid role. de_store eng = Some store \<and>
       st_currentKeyVersionForReader store (h_reader_id h) = Inr kv \<and> kv \<noteq> 0 \<and>
       resolveCardHmac env eng store (rq_cardId rq) kv = Inr (cid, Some role) \<and>
       st_isAllowed store (h_door_id h) role = Inr True)" (is "?L \<longleftrightarrow> ?R")
proof
  assume ?L
  then show ?R
    by (auto simp: policy_verdict_def createDeniedResult_def bindR_Inr_iff checkRoleAccess_def
        split: option.splits if_splits)
next
  assume ?R
  then obtain store kv cid role where "rq_action rq = ''open''" "de_store eng = Some store"
    "st_currentKeyVersionForReader store (h_reader_id h) = Inr kv" "kv \<noteq> 0"
    "resolveCardHmac env eng store (rq_cardId rq) kv = Inr (cid, Some role)"
    "st_isAllowed store (h_door_id h) role = Inr True" by blast
  then have "policy_verdict env eng h rq = Inr (\<lparr>de_allow = True, de_reason = ''ok''\<rparr>, cid, ''open'')"
    by (simp add: policy_verdict_def checkRoleAccess_def)
  then show ?L by fastforce
qed

lemma verdict_allow_iff:
  "(\<exists>v. verdict env eng od hr = Inr v \<and> de_allow (fst v)) \<longleftrightarrow>
     hr_allow hr \<and> \<not> monitor_refuses env eng od (hr_header hr) \<and>
     request_permitted env eng (hr_header hr) (hr_plaintext hr)"
proof (cases "parseAccessRequestJson (en_json env) (string_of_bytes (hr_plaintext hr))")
  case (Inl e)
  then show ?thesis
    by (auto simp: verdict_def late_verdict_def request_permitted_def createDeniedResult_def)
next
  case (Inr rq)
  have "request_permitted env eng (hr_header hr) (hr_plaintext hr) \<longleftrightarrow>
      (\<exists>v. policy_verdict env eng (hr_header hr) rq = Inr v \<and> de_allow (fst v))"
    unfolding policy_verdict_allow request_permitted_def Inr by (cases rq) auto
  then show ?thesis
    by (auto simp: verdict_def late_verdict_def createDeniedResult_def Inr)
qed

lemma allowed_reason: "verdict env eng od hr = Inr v \<Longrightarrow> de_allow (fst v) \<Longrightarrow> de_reason (fst v) = ''ok''"
  by (auto simp: verdict_def late_verdict_def policy_verdict_def createDeniedResult_def bindR_Inr_iff
      checkRoleAccess_def split: option.splits if_splits sum.splits)

end
