(* ===== verification/Engine_Properties.thy ===== *)
theory Engine_Properties
  imports Decision_Engine
begin

text \<open>
  The guarantees of the decision engine, on top of its refinement to the verdict in
  \<open>Decision_Engine\<close>: what it allows, what it audits, what quarantine means, what it cannot throw,
  and what an unauthenticated sender can do to a reader. The concrete engine at the start serves
  the witnesses.
\<close>

section \<open>A concrete engine\<close>

definition demo_request :: json where
  "demo_request = JObject [(''action'', JString ''open''), (''card_id'', JString ''A1'')]"

definition demo_json :: json_lib where
  "demo_json = \<lparr>jl_parse = (\<lambda>s. if s = ''req'' then Inr demo_request else Inl ''syntax''),
     jl_dump = (\<lambda>j. if j = demo_request then Inr ''req'' else Inl (RuntimeError ''utf8'')),
     jl_pretty = (\<lambda>j. Inr ''{}''), jl_what = (\<lambda>k j. ''type error'')\<rparr>"

definition demo_env :: engine_env where
  "demo_env = \<lparr>en_sodium = toy_sodium, en_json = demo_json, en_rnd = [], en_clock = of_nat\<rparr>"

definition demo_engine :: "InMemoryAuditLog DecisionEngine" where
  "demo_engine = \<lparr>de_store = Some demo_store, de_hasher = CardIdHasher_init [],
     de_audit = in_memory_audit, de_keyManager = fh_keyManager demo_handler,
     de_frameHandlerCfg = fh_config demo_handler\<rparr>"

definition demo_state :: "ProtocolAnomalyDetector option \<Rightarrow> InMemoryAuditLog engine_state" where
  "demo_state od = \<lparr>es_windows = (\<lambda>_. None), es_detector = od, es_audit = Some [],
     es_events = Some (EventBus_init 8), es_ticks = 0\<rparr>"

lemma demo_handler_of_engine: "engine_handler demo_engine = demo_handler"
  by (simp add: engine_handler_def demo_engine_def demo_handler_def)

lemma demo_ok:
  "sodium_spec (en_sodium demo_env)" "bus_ok (demo_state od)"
  "audit_ok demo_engine (es_audit (demo_state od'))"
  by (simp_all add: demo_env_def toy_sodium_spec bus_ok_def demo_state_def bus_inv_def EventBus_init_def
      audit_ok_def demo_engine_def in_memory_audit_def InMemoryAuditLog_append_def)

section \<open>Refinement\<close>

text \<open>
  C2: the engine implements its verdict. With an event bus of positive capacity and an audit log
  that does not throw, a call returns the verdict computed from the handler's result, the monitor's
  state and the store; afterwards the replay windows are the handler's, the monitor has seen exactly
  the events the verdict's stage entails, and the audit log has grown by exactly one entry, which
  carries the frame's header and the verdict's result, reason, card identifier and action.
\<close>

theorem engine_implements_verdict:
  assumes "sodium_spec (en_sodium env)" and "bus_ok s" and "audit_ok eng (es_audit s)"
    and "handle (en_sodium env) (en_rnd env) (en_clock env (es_ticks s)) (engine_handler eng) bs (es_windows s) =
      (Inr hr, ws)"
    and "verdict env eng (es_detector s) hr = Inr v"
  shows "\<exists>s' t u. handleFrameBytes env eng bs s = (Inr (fst v), s') \<and> bus_ok s' \<and> es_windows s' = ws \<and>
    es_detector s' = map_option (\<lambda>d. fold detector_step (monitor_events env eng hr t u d) d) (es_detector s) \<and>
    es_audit s' = audit_after eng (hr_header hr) v (es_audit s)"
  by (rule engine_decides [OF assms])

lemma demo_handled:
  "handle (en_sodium demo_env) (en_rnd demo_env) (en_clock demo_env (es_ticks (demo_state None)))
     (engine_handler demo_engine) (demo_frame [9]) (es_windows (demo_state None)) =
   (Inr (accepted [9] demo_header),
    snd (handle toy_sodium [] (of_nat 0) demo_handler (demo_frame [9]) (\<lambda>_. None)))"
  using demo_accepts [of "[9]" "\<lambda>_. None" "[]" "of_nat 0", OF _ fresh_init]
  by (intro prod_eqI) (simp_all add: demo_handler_of_engine demo_env_def demo_state_def)

theorem engine_implements_verdict_witness:
  "\<exists>s' t u. handleFrameBytes demo_env demo_engine (demo_frame [9]) (demo_state None) =
      (Inr (fst (createDeniedResult ''bad_payload'', [] :: string, [] :: string)), s') \<and> bus_ok s' \<and>
    es_windows s' = snd (handle toy_sodium [] (of_nat 0) demo_handler (demo_frame [9]) (\<lambda>_. None)) \<and>
    es_detector s' = map_option (\<lambda>d. fold detector_step
      (monitor_events demo_env demo_engine (accepted [9] demo_header) t u d) d) (es_detector (demo_state None)) \<and>
    es_audit s' = audit_after demo_engine (hr_header (accepted [9] demo_header))
      (createDeniedResult ''bad_payload'', [], []) (es_audit (demo_state None))"
proof (rule engine_implements_verdict [OF demo_ok demo_handled])
  have "string_of_bytes [9] \<noteq> ''req''" by (simp add: string_of_bytes_def)
  then show "verdict demo_env demo_engine (es_detector (demo_state None)) (accepted [9] demo_header) =
      Inr (createDeniedResult ''bad_payload'', [], [])"
    by (simp add: verdict_def late_verdict_def monitor_refuses_def demo_state_def demo_env_def
        demo_json_def parseAccessRequestJson_def)
qed

section \<open>Complete mediation\<close>

lemma engine_allows_iff_handled:
  assumes "sodium_spec (en_sodium env)" and "bus_ok s" and "audit_ok eng (es_audit s)"
  shows "(\<exists>r s'. handleFrameBytes env eng bs s = (Inr r, s') \<and> de_allow r) \<longleftrightarrow>
    (\<exists>hr ws. handle (en_sodium env) (en_rnd env) (en_clock env (es_ticks s)) (engine_handler eng) bs (es_windows s) = (Inr hr, ws) \<and>
      hr_allow hr \<and> \<not> monitor_refuses env eng (es_detector s) (hr_header hr) \<and>
      request_permitted env eng (hr_header hr) (hr_plaintext hr))"
proof (rule engine_cases [OF assms, of bs])
  fix hr ws e s'
  assume h: "handle (en_sodium env) (en_rnd env) (en_clock env (es_ticks s)) (engine_handler eng) bs (es_windows s) = (Inr hr, ws)"
    and v: "verdict env eng (es_detector s) hr = Inl e" and r: "handleFrameBytes env eng bs s = (Inl e, s')"
  have "\<nexists>v. verdict env eng (es_detector s) hr = Inr v \<and> de_allow (fst v)" using v by simp
  then show ?thesis using h r unfolding verdict_allow_iff by auto
next
  fix hr ws v s'
  assume h: "handle (en_sodium env) (en_rnd env) (en_clock env (es_ticks s)) (engine_handler eng) bs (es_windows s) = (Inr hr, ws)"
    and v: "verdict env eng (es_detector s) hr = Inr v" and r: "handleFrameBytes env eng bs s = (Inr (fst v), s')"
  have "de_allow (fst v) \<longleftrightarrow> (\<exists>v. verdict env eng (es_detector s) hr = Inr v \<and> de_allow (fst v))" using v by simp
  then show ?thesis using h r unfolding verdict_allow_iff by auto
qed simp

lemma handle_allow_ex:
  "(\<exists>hr ws'. handle so rnd now fh bs ws = (Inr hr, ws') \<and> hr_allow hr \<and>
      \<not> Q (hr_header hr) \<and> P (hr_header hr) (hr_plaintext hr)) \<longleftrightarrow>
   (\<exists>f pt. accepts so now fh ws bs f pt \<and> \<not> Q (fr_header f) \<and> P (fr_header f) pt)"
  by (rule handle_cases [of so rnd now fh bs ws]) (auto simp: handle_accepts dest: accepts_unique)

lemma engine_allows_iff:
  assumes "sodium_spec (en_sodium env)" and "bus_ok s" and "audit_ok eng (es_audit s)"
  shows "(\<exists>r s'. handleFrameBytes env eng bs s = (Inr r, s') \<and> de_allow r) \<longleftrightarrow>
    (\<exists>h pt. sealed_for (en_sodium env) (engine_handler eng) h pt bs \<and> reader_ok (engine_handler eng) h \<and>
      fresh (de_frameHandlerCfg eng) (es_windows s) h \<and>
      timely (fh_maxSkewMs (de_frameHandlerCfg eng)) (en_clock env (es_ticks s)) (h_ts_unix_ms h) \<and>
      \<not> monitor_refuses env eng (es_detector s) h \<and> request_permitted env eng h pt)"
proof -
  have cfg: "fh_config (engine_handler eng) = de_frameHandlerCfg eng" by (simp add: engine_handler_def)
  show ?thesis
    unfolding engine_allows_iff_handled [OF assms] sealed_for_iff [OF assms(1)] cfg [symmetric]
    by (subst handle_allow_ex) (unfold accepts_def, blast)
qed

text \<open>
  C1: complete mediation. The engine opens a door on some bytes if and only if the bytes are a frame
  sealed under the reader's key for the header it shows, of a known reader bound to the door, with a
  current or permitted previous key version, a fresh number and a timely stamp; the monitor, if
  enabled, has the reader not in quarantine, sees no rollback and finds the prescribed nonce; and
  the payload is a request to open for a card whose stored role is allowed at that door.
\<close>

theorem engine_allows_exactly:
  assumes "sodium_spec (en_sodium env)" and "bus_ok s" and "audit_ok eng (es_audit s)"
  shows "(\<exists>r s'. handleFrameBytes env eng bs s = (Inr r, s') \<and> de_allow r) \<longleftrightarrow>
    (\<exists>h pt. sealed_for (en_sodium env) (engine_handler eng) h pt bs \<and> reader_ok (engine_handler eng) h \<and>
      fresh (de_frameHandlerCfg eng) (es_windows s) h \<and>
      timely (fh_maxSkewMs (de_frameHandlerCfg eng)) (en_clock env (es_ticks s)) (h_ts_unix_ms h) \<and>
      \<not> monitor_refuses env eng (es_detector s) h \<and> request_permitted env eng h pt)"
  by (rule engine_allows_iff [OF assms])

lemma demo_toy_pepper: "\<exists>p. deriveCardPepper toy_sodium km 1 = Inr p"
  using derive_for_eq [OF toy_sodium_spec, of "CardPepper 1" km] by simp

theorem engine_allows_exactly_witness:
  "(\<exists>r s'. handleFrameBytes demo_env demo_engine (demo_frame (bytes_of_string ''req'')) (demo_state None) = (Inr r, s') \<and> de_allow r) \<longleftrightarrow>
    (\<exists>h pt. sealed_for (en_sodium demo_env) (engine_handler demo_engine) h pt (demo_frame (bytes_of_string ''req'')) \<and>
      reader_ok (engine_handler demo_engine) h \<and>
      fresh (de_frameHandlerCfg demo_engine) (es_windows (demo_state None)) h \<and>
      timely (fh_maxSkewMs (de_frameHandlerCfg demo_engine)) (en_clock demo_env (es_ticks (demo_state None))) (h_ts_unix_ms h) \<and>
      \<not> monitor_refuses demo_env demo_engine (es_detector (demo_state None)) h \<and> request_permitted demo_env demo_engine h pt)"
  by (rule engine_allows_exactly [OF demo_ok])

section \<open>Audit\<close>

lemma audit_after_append:
  "audit_after eng h v oa = map_option (\<lambda>a. snd (al_append (de_audit eng)
     (make_audit_event h (de_allow (fst v)) (de_reason (fst v)) (fst (snd v)) (snd (snd v))) a)) oa"
  by (cases v) (simp add: audit_after_def)

text \<open>
  C5: one audit entry per decision. With the in-memory log, every call that returns a decision
  appends exactly one entry, whose verdict and reason are those returned, and a call that ends in
  an exception of the store appends none.
\<close>

theorem one_audit_entry_per_decision:
  assumes "sodium_spec (en_sodium env)" and "bus_ok s"
    and "de_audit eng = in_memory_audit" and "es_audit s = Some entries"
  shows "case handleFrameBytes env eng bs s of
      (Inr r, s') \<Rightarrow> \<exists>e. es_audit s' = Some (entries @ [e]) \<and> ae_allow e = de_allow r \<and> ae_reason e = de_reason r
    | (Inl _, s') \<Rightarrow> es_audit s' = Some entries"
proof -
  have "audit_ok eng (es_audit s)"
    using assms(3) by (simp add: audit_ok_def in_memory_audit_def InMemoryAuditLog_append_def)
  from engine_cases [OF assms(1,2) this, of bs] show ?thesis
    by cases (auto simp: assms(3,4) audit_after_append in_memory_audit_def InMemoryAuditLog_append_def
        make_audit_event_def)
qed

theorem one_audit_entry_per_decision_witness:
  "case handleFrameBytes demo_env demo_engine [1, 2] (demo_state None) of
      (Inr r, s') \<Rightarrow> \<exists>e. es_audit s' = Some ([] @ [e]) \<and> ae_allow e = de_allow r \<and> ae_reason e = de_reason r
    | (Inl _, s') \<Rightarrow> es_audit s' = Some []"
  by (rule one_audit_entry_per_decision [OF demo_ok(1,2)]) (simp_all add: demo_engine_def demo_state_def)

section \<open>Quarantine\<close>

text \<open>
  C17: quarantine closes the door. While the monitor is enabled and has a reader in quarantine, no
  frame that names this reader is allowed, however authentic, and every frame of it that the
  handler returns on is denied with the reason \<open>quarantined\<close>.
\<close>

theorem quarantined_reader_denied:
  assumes "sodium_spec (en_sodium env)" and "bus_ok s" and "audit_ok eng (es_audit s)"
    and "es_detector s = Some d" and "dc_enabled (ad_config d)" and "isQuarantined d r"
    and "fst (handle (en_sodium env) (en_rnd env) (en_clock env (es_ticks s)) (engine_handler eng) bs (es_windows s)) = Inr hr"
    and "h_reader_id (hr_header hr) = r"
  shows "fst (handleFrameBytes env eng bs s) = Inr \<lparr>de_allow = False, de_reason = ''quarantined''\<rparr>"
proof -
  obtain ws where h: "handle (en_sodium env) (en_rnd env) (en_clock env (es_ticks s)) (engine_handler eng) bs (es_windows s) = (Inr hr, ws)"
    using assms(7) by (cases "handle (en_sodium env) (en_rnd env) (en_clock env (es_ticks s)) (engine_handler eng) bs (es_windows s)") simp
  have "monitor_refuses env eng (es_detector s) (hr_header hr)"
    using assms(4-6,8) by (simp add: monitor_refuses_def)
  then have "verdict env eng (es_detector s) hr = Inr (createDeniedResult ''quarantined'', [], [])"
    by (simp add: verdict_def)
  from engine_decides [OF assms(1-3) h this] show ?thesis by (auto simp: createDeniedResult_def)
qed

definition demo_detector :: ProtocolAnomalyDetector where
  "demo_detector = snd (reportReplay 1 5 0
     (ProtocolAnomalyDetector_init (default_DetectorConfig\<lparr>dc_enabled := True\<rparr>)))"

lemma demo_detector_facts:
  "dc_enabled (ad_config demo_detector)" "isQuarantined demo_detector 1"
  by (simp_all add: demo_detector_def detector_defs isQuarantined_def ProtocolAnomalyDetector_init_def)

theorem quarantined_reader_denied_witness:
  "fst (handleFrameBytes demo_env demo_engine (demo_frame (bytes_of_string ''req'')) (demo_state (Some demo_detector))) =
     Inr \<lparr>de_allow = False, de_reason = ''quarantined''\<rparr>"
proof (rule quarantined_reader_denied [OF demo_ok, where d = demo_detector and r = 1])
  show "fst (handle (en_sodium demo_env) (en_rnd demo_env) (en_clock demo_env (es_ticks (demo_state (Some demo_detector))))
      (engine_handler demo_engine) (demo_frame (bytes_of_string ''req'')) (es_windows (demo_state (Some demo_detector)))) =
    Inr (accepted (bytes_of_string ''req'') demo_header)"
    using demo_accepts [of "bytes_of_string ''req''" "\<lambda>_. None"] fresh_init
    by (simp add: demo_handler_of_engine demo_env_def demo_state_def)
qed (simp_all add: demo_state_def demo_detector_facts demo_header_def empty_header_def)

text \<open>
  C19: the monitor can be turned against a reader without a key. With the monitor enabled and the
  deterministic nonce mode, let the handler reject some bytes for whatever reason (a forged tag, an
  unknown key version, bytes that are no frame at all and so count for reader 0), and let the nonce
  in the header differ from the prescribed one. Then the answer is \<open>quarantined\<close>, not the handler's
  reason, and the reader the header names is in quarantine from then on.
\<close>

theorem forged_frame_quarantines_reader:
  assumes "sodium_spec (en_sodium env)" and "bus_ok s" and "audit_ok eng (es_audit s)"
    and "es_detector s = Some d" and "dc_enabled (ad_config d)"
    and "fst (handle (en_sodium env) (en_rnd env) (en_clock env (es_ticks s)) (engine_handler eng) bs (es_windows s)) = Inr hr"
    and "nonce_refused env eng (hr_header hr)"
  shows "\<exists>s' d'. handleFrameBytes env eng bs s = (Inr \<lparr>de_allow = False, de_reason = ''quarantined''\<rparr>, s') \<and>
    es_detector s' = Some d' \<and> isQuarantined d' (h_reader_id (hr_header hr))"
proof -
  let ?h = "hr_header hr" and ?r = "h_reader_id (hr_header hr)"
  obtain ws where h: "handle (en_sodium env) (en_rnd env) (en_clock env (es_ticks s)) (engine_handler eng) bs (es_windows s) = (Inr hr, ws)"
    using assms(6) by (cases "handle (en_sodium env) (en_rnd env) (en_clock env (es_ticks s)) (engine_handler eng) bs (es_windows s)") simp
  have "monitor_refuses env eng (es_detector s) ?h"
    using assms(4,5,7) by (simp add: monitor_refuses_def)
  then have v: "verdict env eng (es_detector s) hr = Inr (createDeniedResult ''quarantined'', [], [])"
    by (simp add: verdict_def)
  have rolled: "isQuarantined (detector_step (ReportSeq ?r (h_seq ?h) t) d) ?r" if "rolls_back d ?h" for t
    using that by (auto simp: rolls_back_def reportSeq_def Let_def isQuarantined_getState getState_putState
        doQuarantine_def split: if_splits)
  have mismatch: "isQuarantined (detector_step (ReportNonceMismatch ?r u) d') ?r" for u d'
    by (simp add: reportNonceMismatch_def Let_def isQuarantined_getState getState_putState doQuarantine_def)
  have "isQuarantined (fold detector_step (monitor_events env eng hr t u d) d) ?r" for t u
    using assms(5,7) rolled [of t] mismatch [of u]
    by (auto simp: monitor_events_def nonce_events_def seq_events_def rolls_back_def)
  with engine_decides [OF assms(1-3) h v] assms(4) show ?thesis
    by (auto simp: createDeniedResult_def)
qed

text \<open>Bytes that are no frame count as a frame of reader 0 with an all-zero nonce; the concrete
  primitives prescribe another one.\<close>

lemma demo_refuses_empty: "nonce_refused demo_env demo_engine empty_header"
proof -
  have p: "purpose_ok (NonceKey 0 0)" by simp
  obtain k where k: "deriveNonceKey toy_sodium (de_keyManager demo_engine) 0 0 = Inr k"
    using derive_for_eq [OF toy_sodium_spec p, of "de_keyManager demo_engine"] by simp
  have "expected_nonce demo_env demo_engine empty_header = Inr
      (HmacNonceGenerator_generate toy_sodium k XChaCha20Poly1305 (to_bytes (empty_header\<lparr>h_nonce := replicate 24 0\<rparr>)))"
    using k by (simp add: expected_nonce_def demo_env_def empty_header_def Let_def demo_engine_def
        demo_handler_def default_FrameHandlerConfig_def fh_cipher_def)
  moreover have "\<not> nonceEqual (replicate 24 0) (HmacNonceGenerator_generate toy_sodium k XChaCha20Poly1305 ctx) 24" for ctx
  proof -
    have nth: "take 24 (HmacNonceGenerator_generate toy_sodium k XChaCha20Poly1305 ctx) ! i = toy_sum (k @ ctx) + of_nat i"
      if "i < 24" for i
      using take_HmacNonce [OF toy_sodium_spec, of XChaCha20Poly1305 k ctx] that
      by (simp add: nonceLenFor_def toy_sodium_def toy_hmac_def)
    have "toy_sum (k @ ctx) + of_nat 0 \<noteq> toy_sum (k @ ctx) + of_nat 1" by simp
    then show ?thesis using nth [of 0] nth [of 1] unfolding nonceEqual_def
      by (metis nth_replicate take_replicate min.idem numeral_less_iff semiring_norm(76) zero_less_numeral one_less_numeral_iff)
  qed
  ultimately show ?thesis
    by (simp add: nonce_refused_def demo_engine_def demo_handler_def default_FrameHandlerConfig_def
        fh_cipher_def nonceLenFor_def empty_header_def)
qed

theorem forged_frame_quarantines_reader_witness:
  "\<exists>s' d'. handleFrameBytes demo_env demo_engine [1, 2] (demo_state (Some (ProtocolAnomalyDetector_init
      (default_DetectorConfig\<lparr>dc_enabled := True\<rparr>)))) = (Inr \<lparr>de_allow = False, de_reason = ''quarantined''\<rparr>, s') \<and>
    es_detector s' = Some d' \<and> isQuarantined d' (h_reader_id (hr_header (makeError ''frame_too_small'' empty_header)))"
proof (rule forged_frame_quarantines_reader [OF demo_ok, where
      d = "ProtocolAnomalyDetector_init (default_DetectorConfig\<lparr>dc_enabled := True\<rparr>)"])
  have "fh_parseFrame demo_handler [1, 2] = Inl (makeError ''frame_too_small'' empty_header)"
    by (simp add: fh_parseFrame_def parseFrame_eq_spec parse_spec_def parse_error_codes)
  then show "fst (handle (en_sodium demo_env) (en_rnd demo_env) (en_clock demo_env (es_ticks (demo_state
        (Some (ProtocolAnomalyDetector_init (default_DetectorConfig\<lparr>dc_enabled := True\<rparr>))))))
      (engine_handler demo_engine) [1, 2] (es_windows (demo_state
        (Some (ProtocolAnomalyDetector_init (default_DetectorConfig\<lparr>dc_enabled := True\<rparr>)))))) =
    Inr (makeError ''frame_too_small'' empty_header)"
    by (simp add: handle_def demo_handler_of_engine)
qed (simp_all add: demo_state_def ProtocolAnomalyDetector_init_def demo_refuses_empty)

section \<open>Availability\<close>

definition store_total :: "IAccessStore \<Rightarrow> bool" where
  "store_total store \<longleftrightarrow> (\<forall>h. \<exists>x. st_roleForCardHmac store h = Inr x) \<and>
     (\<forall>dr role. \<exists>x. st_isAllowed store dr role = Inr x) \<and>
     (\<forall>r. \<exists>x. st_currentKeyVersionForReader store r = Inr x) \<and>
     (\<forall>r dr. \<exists>x. st_isReaderAllowedDoor store r dr = Inr x)"

lemma card_hash_total:
  assumes "sodium_spec so" and "kv \<noteq> 0" and "card_id \<noteq> []"
  obtains p h where "deriveCardPepper so km kv = Inr p" and "hmacHex so (CardIdHasher_init p) card_id = Inr h"
proof -
  have p: "purpose_ok (CardPepper kv)" using assms(2) by simp
  from derive_for_eq [OF assms(1) p, of km] that show thesis by (simp add: hmacHex_def assms(3))
qed

lemma resolve_total:
  assumes "sodium_spec (en_sodium env)" and "store_total store" and "kv \<noteq> 0" and "card_id \<noteq> []"
  shows "\<exists>x. resolveCardHmac env eng store card_id kv = Inr x"
proof -
  have role: "\<exists>x. st_roleForCardHmac store h = Inr x" for h using assms(2) by (simp add: store_total_def)
  have one: "(1 :: u32) \<noteq> 0" by simp
  obtain p1 h1 where "deriveCardPepper (en_sodium env) (de_keyManager eng) 1 = Inr p1"
    "hmacHex (en_sodium env) (CardIdHasher_init p1) card_id = Inr h1"
    by (rule card_hash_total [OF assms(1) one assms(4)])
  moreover obtain p h where "deriveCardPepper (en_sodium env) (de_keyManager eng) kv = Inr p"
    "hmacHex (en_sodium env) (CardIdHasher_init p) card_id = Inr h"
    by (rule card_hash_total [OF assms(1,3,4)])
  moreover obtain p' h' where "1 < kv \<longrightarrow> deriveCardPepper (en_sodium env) (de_keyManager eng) (kv - 1) = Inr p' \<and>
    hmacHex (en_sodium env) (CardIdHasher_init p') card_id = Inr h'"
  proof (cases "1 < kv")
    case True
    then have "kv - 1 \<noteq> 0" by auto
    with that show thesis by (metis card_hash_total [OF assms(1) _ assms(4)])
  qed (use that in blast)
  ultimately show ?thesis
    using role [of h1] role [of h] role [of h'] by (auto simp: resolveCardHmac_def Let_def bindR_if)
qed

lemma verdict_total:
  assumes "sodium_spec (en_sodium env)" and "\<And>store. de_store eng = Some store \<Longrightarrow> store_total store"
  shows "\<exists>v. verdict env eng od hr = Inr v"
proof -
  have "\<exists>v. policy_verdict env eng h rq = Inr v" if "rq_cardId rq \<noteq> []" for h rq
  proof (cases "de_store eng")
    case (Some store)
    note total = assms(2) [OF Some]
    obtain kv where kv: "st_currentKeyVersionForReader store (h_reader_id h) = Inr kv"
      using total unfolding store_total_def by metis
    show ?thesis
    proof (cases "kv = 0")
      case False
      obtain cid ro where "resolveCardHmac env eng store (rq_cardId rq) kv = Inr (cid, ro)"
        using resolve_total [OF assms(1) total False, of "rq_cardId rq" eng] \<open>rq_cardId rq \<noteq> []\<close> by auto
      moreover obtain b where "st_isAllowed store (h_door_id h) (the ro) = Inr b"
        using total unfolding store_total_def by metis
      ultimately show ?thesis
        using Some kv by (auto simp: policy_verdict_def checkRoleAccess_def bindR_if split: option.split)
    qed (use Some kv in \<open>simp add: policy_verdict_def\<close>)
  qed (simp add: policy_verdict_def)
  then show ?thesis
    using parseAccessRequest_nonempty [of "en_json env"]
    by (auto simp: verdict_def late_verdict_def split: sum.split)
qed

lemma engine_answers_total:
  assumes "sodium_spec (en_sodium env)" and "bus_ok s" and "audit_ok eng (es_audit s)"
    and "\<forall>store. de_store eng = Some store \<longrightarrow> store_total store"
  shows "\<exists>r s'. handleFrameBytes env eng bs s = (Inr r, s')"
proof (rule engine_cases [OF assms(1-3), of bs])
  fix e ws
  assume h: "handle (en_sodium env) (en_rnd env) (en_clock env (es_ticks s)) (engine_handler eng) bs (es_windows s) = (Inl e, ws)"
  have "\<exists>f. validateReader (engine_handler eng) f = Inl e"
    by (rule handle_cases [of "en_sodium env" "en_rnd env" "en_clock env (es_ticks s)" "engine_handler eng" bs "es_windows s"])
      (use h in \<open>auto simp: handle_accepts\<close>)
  then obtain f where f: "validateReader (engine_handler eng) f = Inl e" by blast
  then obtain store where store: "de_store eng = Some store"
    by (cases "de_store eng") (simp_all add: validateReader_def engine_handler_def)
  from assms(4) store have "store_total store" by simp
  then obtain kv ok where "st_currentKeyVersionForReader store (h_reader_id (fr_header f)) = Inr kv"
    and "st_isReaderAllowedDoor store (h_reader_id (fr_header f)) (h_door_id (fr_header f)) = Inr ok"
    unfolding store_total_def by metis
  with f store show ?thesis
    by (simp add: validateReader_def engine_handler_def split: if_splits)
next
  fix hr e
  assume "verdict env eng (es_detector s) hr = Inl e"
  with verdict_total [OF assms(1), of eng "es_detector s" hr] assms(4) show ?thesis by auto
qed auto

text \<open>
  C18: availability. With a store whose queries do not throw, an audit log that does not throw and a
  bus of positive capacity, no input whatever makes the engine throw: every byte string gets a
  decision.
\<close>

theorem engine_always_answers:
  assumes "sodium_spec (en_sodium env)" and "bus_ok s" and "audit_ok eng (es_audit s)"
    and "\<forall>store. de_store eng = Some store \<longrightarrow> store_total store"
  shows "\<exists>r s'. handleFrameBytes env eng bs s = (Inr r, s')"
  by (rule engine_answers_total [OF assms])

theorem engine_always_answers_witness:
  "\<exists>r s'. handleFrameBytes demo_env demo_engine [7] (demo_state None) = (Inr r, s')"
  by (rule engine_always_answers [OF demo_ok]) (auto simp: demo_engine_def store_total_def demo_store_def)

section \<open>Replays\<close>

text \<open>A run of the engine: in each call the store may answer anew.\<close>

fun engine_calls ::
    "engine_env \<Rightarrow> 'a DecisionEngine \<Rightarrow> (IAccessStore option \<times> bytes) list \<Rightarrow> 'a engine_state \<Rightarrow> 'a engine_state" where
  "engine_calls env eng [] s = s"
| "engine_calls env eng ((store, bs) # cs) s =
     engine_calls env eng cs (snd (handleFrameBytes env (eng\<lparr>de_store := store\<rparr>) bs s))"

definition audit_total :: "'a DecisionEngine \<Rightarrow> bool" where
  "audit_total eng \<longleftrightarrow> (\<forall>a e. fst (al_append (de_audit eng) e a) = Inr ())"

lemma audit_total_ok: "audit_total eng \<Longrightarrow> audit_ok (eng\<lparr>de_store := store\<rparr>) oa"
  by (simp add: audit_total_def audit_ok_def)

lemma engine_handler_store: "engine_handler (eng\<lparr>de_store := store\<rparr>) = (engine_handler eng)\<lparr>fh_store := store\<rparr>"
  by (simp add: engine_handler_def)

text \<open>One call of the engine is one call of the handler, as far as the windows are concerned.\<close>

abbreviation as_handler_call :: "engine_env \<Rightarrow> IAccessStore option \<Rightarrow> bytes \<Rightarrow> 'a engine_state \<Rightarrow> handler_call" where
  "as_handler_call env store bs s \<equiv> (store, en_rnd env, en_clock env (es_ticks s), bs)"

lemma bus_ok_windows: "bus_ok (s\<lparr>es_ticks := t, es_windows := ws\<rparr>) = bus_ok s"
  by (simp add: bus_ok_def)

lemma engine_call_windows:
  assumes "sodium_spec (en_sodium env)" and "bus_ok s" and "audit_total eng"
  shows "es_windows (snd (handleFrameBytes env (eng\<lparr>de_store := store\<rparr>) bs s)) =
      snd (handle_call (en_sodium env) (engine_handler eng) (as_handler_call env store bs s) (es_windows s))"
    and "bus_ok (snd (handleFrameBytes env (eng\<lparr>de_store := store\<rparr>) bs s))"
proof -
  note ends = engine_cases [OF assms(1,2) audit_total_ok [OF assms(3)], of store bs]
  show "es_windows (snd (handleFrameBytes env (eng\<lparr>de_store := store\<rparr>) bs s)) =
      snd (handle_call (en_sodium env) (engine_handler eng) (as_handler_call env store bs s) (es_windows s))"
    by (rule ends) (simp_all add: handle_call_def engine_handler_store)
  show "bus_ok (snd (handleFrameBytes env (eng\<lparr>de_store := store\<rparr>) bs s))"
    by (rule ends) (simp_all add: bus_ok_windows assms(2))
qed

lemma engine_calls_windows:
  assumes "sodium_spec (en_sodium env)" and "audit_total eng"
  shows "bus_ok s \<Longrightarrow> \<exists>hcs. length hcs = length cs \<and> bus_ok (engine_calls env eng cs s) \<and>
    es_windows (engine_calls env eng cs s) = handle_calls (en_sodium env) (engine_handler eng) hcs (es_windows s)"
proof (induction cs arbitrary: s)
  case (Cons c cs)
  obtain store bs where c: "c = (store, bs)" by (cases c)
  note one = engine_call_windows [OF assms(1) Cons.prems assms(2), of store bs]
  from Cons.IH [OF one(2)] obtain hcs where "length hcs = length cs"
    "bus_ok (engine_calls env eng ((store, bs) # cs) s)"
    "es_windows (engine_calls env eng ((store, bs) # cs) s) =
      handle_calls (en_sodium env) (engine_handler eng) (as_handler_call env store bs s # hcs) (es_windows s)"
    by (auto simp: one(1))
  then show ?case unfolding c by (intro exI [of _ "as_handler_call env store bs s # hcs"]) simp
qed (auto intro: exI [of _ "[]"])

lemma engine_allow_handler_allow:
  assumes "sodium_spec (en_sodium env)" and "bus_ok s" and "audit_total eng"
    and "fst (handleFrameBytes env (eng\<lparr>de_store := store\<rparr>) bs s) = Inr r" and "de_allow r"
  obtains f pt where "parseFrame bs (fh_maxCtLen (de_frameHandlerCfg eng)) = Inr f"
    and "fst (handle_call (en_sodium env) (engine_handler eng) (as_handler_call env store bs s) (es_windows s)) =
      Inr (accepted pt (fr_header f))"
proof -
  obtain s' where "handleFrameBytes env (eng\<lparr>de_store := store\<rparr>) bs s = (Inr r, s')"
    using assms(4) by (cases "handleFrameBytes env (eng\<lparr>de_store := store\<rparr>) bs s") simp
  with assms(5) have "\<exists>r s'. handleFrameBytes env (eng\<lparr>de_store := store\<rparr>) bs s = (Inr r, s') \<and> de_allow r" by blast
  then obtain hr ws where h: "handle (en_sodium env) (en_rnd env) (en_clock env (es_ticks s))
      (engine_handler (eng\<lparr>de_store := store\<rparr>)) bs (es_windows s) = (Inr hr, ws)" "hr_allow hr"
    using engine_allows_iff_handled [OF assms(1,2) audit_total_ok [OF assms(3)], of store bs] by auto
  then have "fst (handle (en_sodium env) (en_rnd env) (en_clock env (es_ticks s))
      (engine_handler (eng\<lparr>de_store := store\<rparr>)) bs (es_windows s)) = Inr hr" by simp
  then obtain f pt where f: "accepts (en_sodium env) (en_clock env (es_ticks s)) (engine_handler (eng\<lparr>de_store := store\<rparr>))
      (es_windows s) bs f pt" "hr = accepted pt (fr_header f)"
    using h(2) by (rule handle_allowD)
  moreover have "parseFrame bs (fh_maxCtLen (de_frameHandlerCfg eng)) = Inr f"
    using f(1) by (simp add: accepts_def engine_handler_def)
  ultimately show thesis
    using that [of f pt] h by (simp add: handle_call_def engine_handler_store)
qed

text \<open>
  C3: a recorded frame opens the door once. Start with empty windows and replay protection on, and
  let the engine allow some bytes at any point of any run. Then, for as long as fewer calls than the
  window's size follow, whatever they are and however the store changes, presenting the same bytes
  again is not allowed.
\<close>

theorem door_opens_once:
  assumes "sodium_spec (en_sodium env)" and "audit_total eng"
    and "bus_ok s0" and "es_windows s0 = (\<lambda>_. None)"
    and "fh_antiReplayEnabled (de_frameHandlerCfg eng)"
    and "s = engine_calls env eng before s0"
    and "fst (handleFrameBytes env (eng\<lparr>de_store := store\<rparr>) bs s) = Inr r" and "de_allow r"
    and "length cs < unat (window_size (de_frameHandlerCfg eng))"
  shows "\<nexists>r'. fst (handleFrameBytes env (eng\<lparr>de_store := store'\<rparr>) bs
      (engine_calls env eng cs (snd (handleFrameBytes env (eng\<lparr>de_store := store\<rparr>) bs s)))) = Inr r' \<and> de_allow r'"
proof
  let ?fh = "engine_handler eng" and ?so = "en_sodium env"
  let ?s1 = "snd (handleFrameBytes env (eng\<lparr>de_store := store\<rparr>) bs s)"
  let ?s2 = "engine_calls env eng cs ?s1"
  assume "\<exists>r'. fst (handleFrameBytes env (eng\<lparr>de_store := store'\<rparr>) bs ?s2) = Inr r' \<and> de_allow r'"
  then obtain r' where r': "fst (handleFrameBytes env (eng\<lparr>de_store := store'\<rparr>) bs ?s2) = Inr r'" "de_allow r'"
    by blast
  have cfg: "fh_config ?fh = de_frameHandlerCfg eng" by (simp add: engine_handler_def)
  obtain hbefore where s: "bus_ok s" "es_windows s = handle_calls ?so ?fh hbefore (\<lambda>_. None)"
    using engine_calls_windows [OF assms(1-3), of before] assms(4,6) by auto
  note s1 = engine_call_windows [OF assms(1) s(1) assms(2), of store bs]
  obtain hcs where hcs: "length hcs = length cs" "bus_ok ?s2" "es_windows ?s2 = handle_calls ?so ?fh hcs (es_windows ?s1)"
    using engine_calls_windows [OF assms(1,2) s1(2), of cs] by blast
  obtain f pt where f: "parseFrame bs (fh_maxCtLen (de_frameHandlerCfg eng)) = Inr f"
    and first: "fst (handle_call ?so ?fh (as_handler_call env store bs s) (es_windows s)) = Inr (accepted pt (fr_header f))"
    by (rule engine_allow_handler_allow [OF assms(1) s(1) assms(2,7,8)])
  obtain f' pt' where f': "parseFrame bs (fh_maxCtLen (de_frameHandlerCfg eng)) = Inr f'"
    and second: "fst (handle_call ?so ?fh (as_handler_call env store' bs ?s2) (es_windows ?s2)) = Inr (accepted pt' (fr_header f'))"
    by (rule engine_allow_handler_allow [OF assms(1) hcs(2) assms(2) r'])
  have "f' = f" using f f' by simp
  with no_second_acceptance [of ?fh "es_windows s" ?so hbefore _ "accepted pt (fr_header f)" hcs
      "as_handler_call env store' bs ?s2", OF _ s(2) first] second hcs(1,3) s1(1) assms(5,9)
  show False by (auto simp: cfg)
qed

text \<open>The concrete engine does open the door for its card.\<close>

lemma demo_permitted: "request_permitted demo_env demo_engine demo_header (bytes_of_string ''req'')"
proof -
  have ok: "purpose_ok (CardPepper 1)" by simp
  obtain p where p: "deriveCardPepper toy_sodium (fh_keyManager demo_handler) 1 = Inr p"
    using derive_for_eq [OF toy_sodium_spec ok, of "fh_keyManager demo_handler"] by simp
  have "parseAccessRequestJson demo_json ''req'' = Inr \<lparr>rq_cardId = ''A1'', rq_action = ''open''\<rparr>"
    by (rule parseAccessRequest_object [where fs = "[(''action'', JString ''open''), (''card_id'', JString ''A1'')]"])
      (simp_all add: demo_json_def demo_request_def)
  moreover have "st_currentKeyVersionForReader demo_store (h_reader_id demo_header) = Inr 1"
    and "st_isAllowed demo_store dr role = Inr True" for dr role
    by (simp_all add: demo_store_def demo_header_def)
  moreover have "\<exists>cid. resolveCardHmac demo_env demo_engine demo_store ''A1'' 1 = Inr (cid, Some ''staff'')"
    by (simp add: resolveCardHmac_def Let_def demo_env_def demo_engine_def p hmacHex_def demo_store_def)
  ultimately show ?thesis
    unfolding request_permitted_def
    by (simp add: demo_env_def) (auto simp: demo_engine_def)
qed

lemma demo_allows:
  "\<exists>r. fst (handleFrameBytes demo_env demo_engine (demo_frame (bytes_of_string ''req'')) (demo_state None)) = Inr r \<and>
     de_allow r"
proof -
  have "fst (handle (en_sodium demo_env) (en_rnd demo_env) (en_clock demo_env (es_ticks (demo_state None)))
      (engine_handler demo_engine) (demo_frame (bytes_of_string ''req'')) (es_windows (demo_state None))) =
      Inr (accepted (bytes_of_string ''req'') demo_header)"
    using demo_accepts [of "bytes_of_string ''req''" "\<lambda>_. None"] fresh_init
    by (simp add: demo_handler_of_engine demo_env_def demo_state_def)
  moreover have "\<not> monitor_refuses demo_env demo_engine (es_detector (demo_state None)) demo_header"
    by (simp add: monitor_refuses_def demo_state_def)
  ultimately have "\<exists>r s'. handleFrameBytes demo_env demo_engine (demo_frame (bytes_of_string ''req'')) (demo_state None) =
      (Inr r, s') \<and> de_allow r"
    unfolding engine_allows_iff_handled [OF demo_ok] using demo_permitted
    by (metis accepted_eq(2-4) fst_conv surj_pair)
  then show ?thesis by force
qed

theorem door_opens_once_witness:
  "\<nexists>r'. fst (handleFrameBytes demo_env (demo_engine\<lparr>de_store := Some demo_store\<rparr>) (demo_frame (bytes_of_string ''req''))
      (engine_calls demo_env demo_engine [(None, [1])] (snd (handleFrameBytes demo_env
        (demo_engine\<lparr>de_store := Some demo_store\<rparr>) (demo_frame (bytes_of_string ''req'')) (demo_state None))))) = Inr r' \<and>
    de_allow r'"
  using demo_allows
proof (elim exE conjE)
  fix r
  assume r: "fst (handleFrameBytes demo_env demo_engine (demo_frame (bytes_of_string ''req'')) (demo_state None)) = Inr r"
    and allow: "de_allow r"
  have eng: "demo_engine\<lparr>de_store := Some demo_store\<rparr> = demo_engine" by (simp add: demo_engine_def)
  have run: "demo_state None = engine_calls demo_env demo_engine [] (demo_state None)" by simp
  have init: "es_windows (demo_state None) = (\<lambda>_. None)" by (simp add: demo_state_def)
  have total: "audit_total demo_engine"
    by (simp add: audit_total_def demo_engine_def in_memory_audit_def InMemoryAuditLog_append_def)
  have cfg: "fh_antiReplayEnabled (de_frameHandlerCfg demo_engine)"
    and len: "length [(None :: IAccessStore option, [1 :: u8])] < unat (window_size (de_frameHandlerCfg demo_engine))"
    by (simp_all add: demo_engine_def demo_handler_def default_FrameHandlerConfig_def window_size_def)
  have r': "fst (handleFrameBytes demo_env (demo_engine\<lparr>de_store := Some demo_store\<rparr>)
      (demo_frame (bytes_of_string ''req'')) (demo_state None)) = Inr r"
    using r by (simp only: eng)
  show ?thesis
    by (rule door_opens_once [OF demo_ok(1) total demo_ok(2) init cfg run r' allow len])
qed

end
