(* ===== verification/Sqlite_Audit_Log.thy ===== *)
theory Sqlite_Audit_Log
  imports Audit_Events Crypto_Hkdf Access_Store
begin

text \<open>
  \<^verbatim>\<open>access_storage/src/sqlite_audit_log.cpp\<close>: the hash-chained audit log. A connection holds the
  two tables and, inside a transaction, the tables a rollback returns to. SQLite may fail at any
  statement, and may end the transaction itself when it does: the outcomes of the statements of one
  \<^verbatim>\<open>append\<close> are an argument. What an append leaves behind is characterised once, for all of them.
\<close>

section \<open>The tables\<close>

definition kHashSize :: nat where "kHashSize = 32"

text \<open>\<^verbatim>\<open>Hash32\<close> values with which the chain starts: \<^verbatim>\<open>zeroblob(32)\<close> and \<^verbatim>\<open>fill(0)\<close>.\<close>

definition zero_hash :: bytes where "zero_hash = replicate kHashSize 0"

lemma length_zero_hash [simp]: "length zero_hash = 32"
  by (simp add: zero_hash_def kHashSize_def)

definition bind_int64 :: "u64 \<Rightarrow> int" where "bind_int64 v = sint v"
definition column_u64 :: "int \<Rightarrow> u64" where "column_u64 v = word_of_int v"

lemma column_bind_int64 [simp]: "column_u64 (bind_int64 v) = v"
  by (simp add: column_u64_def bind_int64_def)

record AuditLogRow =
  ar_id :: int
  ar_ts_unix_ms :: int
  ar_reader_id :: int
  ar_door_id :: int
  ar_seq :: int
  ar_allow :: int
  ar_reason :: string
  ar_card_hmac :: "string option"
  ar_action :: "string option"
  ar_prev_hash :: bytes
  ar_entry_hash :: bytes

text \<open>\<open>at_sequence\<close> is what \<^verbatim>\<open>AUTOINCREMENT\<close> keeps: the largest id ever given. The anchor is the
  row with id 1 of its table: \<^verbatim>\<open>last_hash\<close> and \<^verbatim>\<open>updated_ts\<close>.\<close>

record AuditTables =
  at_log :: "AuditLogRow list"
  at_sequence :: int
  at_anchor :: "(bytes \<times> int) option"

record AuditConn =
  ac_tables :: AuditTables
  ac_saved :: "AuditTables option"

definition no_audit_tables :: AuditTables where
  "no_audit_tables = \<lparr>at_log = [], at_sequence = 0, at_anchor = None\<rparr>"

text \<open>\<^verbatim>\<open>ORDER BY id\<close>.\<close>

definition by_id :: "AuditTables \<Rightarrow> AuditLogRow list" where
  "by_id t = sort_key ar_id (at_log t)"

definition next_id :: "AuditTables \<Rightarrow> int" where
  "next_id t = fold max (map ar_id (at_log t)) (at_sequence t) + 1"

section \<open>Transactions\<close>

text \<open>
  The outcome of each statement of an append. \<open>as_lost\<close> says that the failing statement also
  ended the transaction (as SQLite does on a full disk or an I/O error). A failed insert covers an
  exhausted \<^verbatim>\<open>AUTOINCREMENT\<close> sequence.
\<close>

record append_status =
  as_begin :: "string option"
  as_last :: sql_status
  as_insert :: sql_status
  as_anchor :: sql_status
  as_commit :: "string option"
  as_rollback :: "string option"
  as_lost :: bool

definition healthy :: append_status where
  "healthy = \<lparr>as_begin = None, as_last = SqlOk, as_insert = SqlOk, as_anchor = SqlOk,
     as_commit = None, as_rollback = None, as_lost = False\<rparr>"

definition rolled_back :: "AuditConn \<Rightarrow> AuditConn" where
  "rolled_back c = (case ac_saved c of None \<Rightarrow> c | Some t \<Rightarrow> \<lparr>ac_tables = t, ac_saved = None\<rparr>)"

definition after_failure :: "append_status \<Rightarrow> AuditConn \<Rightarrow> AuditConn" where
  "after_failure st c = (if as_lost st then rolled_back c else c)"

definition exec_begin :: "append_status \<Rightarrow> (AuditConn, unit) prog" where
  "exec_begin st c =
     (case as_begin st of
        Some m \<Rightarrow> (Inl (RuntimeError m), c)
      | None \<Rightarrow>
          if ac_saved c \<noteq> None
          then (Inl (RuntimeError ''cannot start a transaction within a transaction''), c)
          else (Inr (), c\<lparr>ac_saved := Some (ac_tables c)\<rparr>))"

definition exec_commit :: "append_status \<Rightarrow> (AuditConn, unit) prog" where
  "exec_commit st c =
     (case as_commit st of
        Some m \<Rightarrow> (Inl (RuntimeError m), after_failure st c)
      | None \<Rightarrow>
          if ac_saved c = None
          then (Inl (RuntimeError ''cannot commit - no transaction is active''), c)
          else (Inr (), c\<lparr>ac_saved := None\<rparr>))"

definition exec_rollback :: "append_status \<Rightarrow> (AuditConn, unit) prog" where
  "exec_rollback st c =
     (case as_rollback st of
        Some m \<Rightarrow> (Inl (RuntimeError m), c)
      | None \<Rightarrow>
          if ac_saved c = None
          then (Inl (RuntimeError ''cannot rollback - no transaction is active''), c)
          else (Inr (), rolled_back c))"

text \<open>\<^verbatim>\<open>try { m } catch (...) { h; throw; }\<close>: an exception of \<open>h\<close> replaces the one caught.\<close>

definition try_rethrow :: "('s, 'a) prog \<Rightarrow> ('s, unit) prog \<Rightarrow> ('s, 'a) prog" where
  "try_rethrow m h s =
     (case m s of
        (Inr x, s) \<Rightarrow> (Inr x, s)
      | (Inl e, s) \<Rightarrow> bindM h (\<lambda>_. throwM e) s)"

section \<open>The class\<close>

record SqliteAuditLog =
  sl_key :: bytes
  sl_chainEnabled :: bool

text \<open>\<^verbatim>\<open>initSchema\<close>: the tables are made where they do not exist, and the anchor's row where it is
  missing.\<close>

definition audit_initSchema :: "string option \<Rightarrow> (AuditConn, unit) prog" where
  "audit_initSchema err c =
     (case err of
        Some m \<Rightarrow> (Inl (RuntimeError m), c)
      | None \<Rightarrow> (Inr (), c\<lparr>ac_tables := (ac_tables c)\<lparr>at_anchor :=
          (case at_anchor (ac_tables c) of None \<Rightarrow> Some (zero_hash, 0) | Some a \<Rightarrow> Some a)\<rparr>\<rparr>))"

text \<open>The constructor; \<open>None\<close> is the null handle.\<close>

definition SqliteAuditLog_init ::
    "string option \<Rightarrow> bytes \<Rightarrow> bool \<Rightarrow> (AuditConn option, SqliteAuditLog) prog" where
  "SqliteAuditLog_init err hmacKey chainEnabled db =
     (case db of
        None \<Rightarrow> (Inl (InvalidArgument ''SqliteAuditLog: db is null''), None)
      | Some c \<Rightarrow>
          (case audit_initSchema err c of
             (Inl e, c) \<Rightarrow> (Inl e, Some c)
           | (Inr _, c) \<Rightarrow> (Inr \<lparr>sl_key = hmacKey, sl_chainEnabled = chainEnabled\<rparr>, Some c)))"

text \<open>A step that fails is not told apart from the end of the rows; it may have ended the
  transaction.\<close>

definition getLastEntryHash :: "append_status \<Rightarrow> (AuditConn, bytes) prog" where
  "getLastEntryHash st c =
     (if as_last st = PrepareFails then (Inl (RuntimeError ''sqlite prepare failed''), c)
      else if \<not> step_ok (as_last st) then (Inr zero_hash, after_failure st c)
      else if at_log (ac_tables c) \<noteq> []
      then (let blob = ar_entry_hash (last (by_id (ac_tables c))) in
            (if length blob \<noteq> kHashSize
             then Inl (RuntimeError ''SqliteAuditLog: bad entry_hash blob'')
             else Inr blob, c))
      else (Inr zero_hash, c))"

definition computeEntryHash :: "sodium \<Rightarrow> SqliteAuditLog \<Rightarrow> bytes \<Rightarrow> AuditEvent \<Rightarrow> bytes" where
  "computeEntryHash so lg prevHash e =
     (let fields = storage_putLe64 (ae_ts_unix_ms e) [];
          fields = storage_putLe32 (ae_reader_id e) fields;
          fields = storage_putLe32 (ae_door_id e) fields;
          fields = storage_putLe64 (ae_seq e) fields;
          fields = fields @ [if ae_allow e then 1 else 0];
          fields = putBytesWithLen (ae_reason e) fields;
          fields = putBytesWithLen (ae_card_id e) fields;
          fields = putBytesWithLen (ae_action e) fields;
          data = [] @ prevHash;
          data = data @ fields
      in hmac_sha256 so (sl_key lg) data)"

text \<open>Text is bound as a C string; an empty card or action becomes NULL.\<close>

definition bind_text_or_null :: "string \<Rightarrow> string option" where
  "bind_text_or_null s = (if s = [] then None else Some (c_str s))"

definition audit_row :: "int \<Rightarrow> AuditEvent \<Rightarrow> bytes \<Rightarrow> bytes \<Rightarrow> AuditLogRow" where
  "audit_row i e prevHash entryHash =
     \<lparr>ar_id = i, ar_ts_unix_ms = bind_int64 (ae_ts_unix_ms e),
      ar_reader_id = bind_int (ae_reader_id e), ar_door_id = bind_int (ae_door_id e),
      ar_seq = bind_int64 (ae_seq e), ar_allow = (if ae_allow e then 1 else 0),
      ar_reason = c_str (ae_reason e), ar_card_hmac = bind_text_or_null (ae_card_id e),
      ar_action = bind_text_or_null (ae_action e), ar_prev_hash = prevHash,
      ar_entry_hash = entryHash\<rparr>"

definition insert_row :: "AuditEvent \<Rightarrow> bytes \<Rightarrow> bytes \<Rightarrow> AuditTables \<Rightarrow> AuditTables" where
  "insert_row e prevHash entryHash t =
     t\<lparr>at_log := at_log t @ [audit_row (next_id t) e prevHash entryHash], at_sequence := next_id t\<rparr>"

definition set_anchor :: "bytes \<Rightarrow> u64 \<Rightarrow> AuditTables \<Rightarrow> AuditTables" where
  "set_anchor entryHash ts t =
     t\<lparr>at_anchor := map_option (\<lambda>_. (entryHash, bind_int64 ts)) (at_anchor t)\<rparr>"

definition insertAuditEntry ::
    "append_status \<Rightarrow> AuditEvent \<Rightarrow> bytes \<Rightarrow> bytes \<Rightarrow> (AuditConn, unit) prog" where
  "insertAuditEntry st e prevHash entryHash c =
     (if as_insert st = PrepareFails
      then (Inl (RuntimeError ''sqlite prepare failed''), c)
      else if \<not> step_ok (as_insert st)
      then (Inl (RuntimeError ''SqliteAuditLog: insert failed''), after_failure st c)
      else (Inr (), c\<lparr>ac_tables := insert_row e prevHash entryHash (ac_tables c)\<rparr>))"

definition updateAnchor :: "append_status \<Rightarrow> bytes \<Rightarrow> u64 \<Rightarrow> (AuditConn, unit) prog" where
  "updateAnchor st entryHash ts c =
     (if as_anchor st = PrepareFails
      then (Inl (RuntimeError ''sqlite prepare failed''), c)
      else if \<not> step_ok (as_anchor st)
      then (Inl (RuntimeError ''SqliteAuditLog: anchor update failed''), after_failure st c)
      else (Inr (), c\<lparr>ac_tables := set_anchor entryHash ts (ac_tables c)\<rparr>))"

definition append_body :: "sodium \<Rightarrow> SqliteAuditLog \<Rightarrow> append_status \<Rightarrow> AuditEvent \<Rightarrow> (AuditConn, unit) prog" where
  "append_body so lg st e =
     (if \<not> sl_chainEnabled lg
      then bindM (insertAuditEntry st e zero_hash zero_hash) (\<lambda>_. exec_commit st)
      else bindM (getLastEntryHash st) (\<lambda>prev.
           (let entry = computeEntryHash so lg prev e in
            bindM (insertAuditEntry st e prev entry) (\<lambda>_.
            bindM (updateAnchor st entry (ae_ts_unix_ms e)) (\<lambda>_.
            exec_commit st)))))"

definition audit_append :: "sodium \<Rightarrow> SqliteAuditLog \<Rightarrow> append_status \<Rightarrow> AuditEvent \<Rightarrow> (AuditConn, unit) prog" where
  "audit_append so lg st e =
     bindM (exec_begin st) (\<lambda>_. try_rethrow (append_body so lg st e) (exec_rollback st))"

section \<open>What an append does\<close>

text \<open>The tables the next connection would see.\<close>

definition committed :: "AuditConn \<Rightarrow> AuditTables" where
  "committed c = (case ac_saved c of None \<Rightarrow> ac_tables c | Some t \<Rightarrow> t)"

text \<open>The hash the new entry is linked to, and the tables with the new entry.\<close>

definition last_entry_hash :: "AuditTables \<Rightarrow> bytes" where
  "last_entry_hash t = (if at_log t = [] then zero_hash else ar_entry_hash (last (by_id t)))"

definition linked_hash :: "append_status \<Rightarrow> AuditTables \<Rightarrow> bytes" where
  "linked_hash st t = (if step_ok (as_last st) then last_entry_hash t else zero_hash)"

definition with_entry :: "sodium \<Rightarrow> SqliteAuditLog \<Rightarrow> AuditEvent \<Rightarrow> bytes \<Rightarrow> AuditTables \<Rightarrow> AuditTables" where
  "with_entry so lg e prev t =
     (if \<not> sl_chainEnabled lg then insert_row e zero_hash zero_hash t
      else (let entry = computeEntryHash so lg prev e
            in set_anchor entry (ae_ts_unix_ms e) (insert_row e prev entry t)))"

text \<open>SQLite did not end the transaction under a failing look-up of the last entry.\<close>

definition lookup_safe :: "append_status \<Rightarrow> bool" where
  "lookup_safe st \<longleftrightarrow> as_last st = PrepareFails \<or> step_ok (as_last st) \<or> \<not> as_lost st"

lemmas audit_sql_defs = exec_begin_def exec_commit_def exec_rollback_def after_failure_def
  rolled_back_def insertAuditEntry_def updateAnchor_def getLastEntryHash_def

lemma committed_simps [simp]:
  "ac_saved c = None \<Longrightarrow> committed c = ac_tables c"
  "ac_saved c = Some t \<Longrightarrow> committed c = t"
  by (simp_all add: committed_def)

text \<open>Inside the transaction, a body that ends normally has committed, and one that throws has
  left what a rollback returns to.\<close>

lemma append_body_cases:
  assumes "ac_saved c = Some t" and "ac_tables c = t" and "lookup_safe st"
  shows "case append_body so lg st e c of
      (Inr _, c') \<Rightarrow> ac_saved c' = None \<and> ac_tables c' = with_entry so lg e (linked_hash st t) t
    | (Inl _, c') \<Rightarrow> committed c' = t"
  using assms
  by (auto simp: append_body_def with_entry_def bindM_apply audit_sql_defs Let_def lookup_safe_def
      linked_hash_def last_entry_hash_def committed_def split: option.splits sum.splits prod.splits if_splits)

lemma audit_append_cases:
  assumes "ac_saved c = None" and "lookup_safe st"
  shows "case audit_append so lg st e c of
      (Inr _, c') \<Rightarrow> ac_saved c' = None \<and>
        ac_tables c' = with_entry so lg e (linked_hash st (ac_tables c)) (ac_tables c)
    | (Inl _, c') \<Rightarrow> committed c' = ac_tables c"
proof -
  let ?b = "append_body so lg st e (c\<lparr>ac_saved := Some (ac_tables c)\<rparr>)"
  have body: "case ?b of
      (Inr _, c') \<Rightarrow> ac_saved c' = None \<and>
        ac_tables c' = with_entry so lg e (linked_hash st (ac_tables c)) (ac_tables c)
    | (Inl _, c') \<Rightarrow> committed c' = ac_tables c"
    by (rule append_body_cases) (simp_all add: assms)
  show ?thesis
  proof (cases ?b)
    case (Pair r c')
    with body assms show ?thesis
      by (cases r) (auto simp: audit_append_def bindM_apply exec_begin_def try_rethrow_def
          exec_rollback_def rolled_back_def committed_def split: option.splits)
  qed
qed

text \<open>With an open transaction left behind by a failed rollback nothing is appended any more.\<close>

lemma audit_append_stuck:
  "ac_saved c = Some t \<Longrightarrow> \<exists>e'. audit_append so lg st e c = (Inl e', c)"
  by (auto simp: audit_append_def bindM_apply exec_begin_def split: option.splits)

lemma audit_append_healthy:
  assumes "ac_saved c = None" and "length (last_entry_hash (ac_tables c)) = 32"
  shows "audit_append so lg healthy e c =
    (Inr (), c\<lparr>ac_tables := with_entry so lg e (last_entry_hash (ac_tables c)) (ac_tables c)\<rparr>)"
  using assms
  by (auto simp: audit_append_def append_body_def with_entry_def bindM_apply audit_sql_defs Let_def
      try_rethrow_def healthy_def last_entry_hash_def kHashSize_def)

section \<open>The order of the rows\<close>

lemma insort_key_snoc:
  "f a \<le> f x \<Longrightarrow> insort_key f a (ys @ [x]) = insort_key f a ys @ [x]"
  by (induction ys) auto

lemma sort_key_snoc:
  "\<forall>y\<in>set xs. f y \<le> f x \<Longrightarrow> sort_key f (xs @ [x]) = sort_key f xs @ [x]"
  by (induction xs) (auto simp: insort_key_snoc)

lemma fold_max_ge: "(m :: int) \<le> fold max xs m \<and> (\<forall>x\<in>set xs. x \<le> fold max xs m)"
  by (induction xs arbitrary: m) force+

lemma by_id_insert_row [simp]:
  "by_id (insert_row e p h t) = by_id t @ [audit_row (next_id t) e p h]"
proof -
  have "\<forall>y\<in>set (at_log t). ar_id y \<le> next_id t"
    using fold_max_ge [of "at_sequence t" "map ar_id (at_log t)"] by (force simp: next_id_def)
  then show ?thesis
    by (simp add: by_id_def insert_row_def sort_key_snoc audit_row_def)
qed

lemma by_id_set_anchor [simp]: "by_id (set_anchor h ts t) = by_id t"
  by (simp add: by_id_def set_anchor_def)

lemma by_id_eq_Nil [simp]: "by_id t = [] \<longleftrightarrow> at_log t = []"
  by (metis by_id_def length_0_conv length_sort)

lemma anchor_simps [simp]:
  "at_anchor (insert_row e p h t) = at_anchor t"
  "map_option fst (at_anchor (set_anchor h ts t)) = map_option (\<lambda>_. h) (at_anchor t)"
  by (simp_all add: insert_row_def set_anchor_def option.map_comp comp_def)

text \<open>Any sequence of appends, with the outcomes of their statements, and the events of those that
  returned normally.\<close>

type_synonym append_call = "append_status \<times> AuditEvent"

fun audit_run :: "sodium \<Rightarrow> SqliteAuditLog \<Rightarrow> append_call list \<Rightarrow> AuditConn \<Rightarrow> AuditEvent list \<times> AuditConn" where
  "audit_run so lg [] c = ([], c)"
| "audit_run so lg ((st, e) # calls) c =
     (case audit_append so lg st e c of
        (Inl _, c) \<Rightarrow> audit_run so lg calls c
      | (Inr _, c) \<Rightarrow> (case audit_run so lg calls c of (kept, c) \<Rightarrow> (e # kept, c)))"

end
