(* ===== verification/Audit_Verify.thy ===== *)
theory Audit_Verify
  imports Sqlite_Audit_Log Key_Manager
begin

text \<open>
  \<^verbatim>\<open>access_storage/src/audit_verify.cpp\<close>: the verification of the audit chain, over tables that
  anyone may have edited, and what it is worth. The locale \<open>hash_chain\<close> is the argument for a
  chain of hashes: two chains with one head carry the same entries, or a collision or a preimage of
  the start value can be read off them. It is interpreted on the audit log's entries.
\<close>

section \<open>The verifier\<close>

record AuditVerifyResult =
  vr_ok :: bool
  vr_bad_id :: int
  vr_error :: string

text \<open>The default values of the struct.\<close>

definition no_result :: AuditVerifyResult where
  "no_result = \<lparr>vr_ok = False, vr_bad_id = -1, vr_error = []\<rparr>"

record AuditRow =
  aw_id :: int
  aw_ts :: u64
  aw_reader_id :: u32
  aw_door_id :: u32
  aw_seq :: u64
  aw_allow :: bool
  aw_reason :: string
  aw_card_hmac :: string
  aw_action :: string
  aw_storedPrev :: bytes
  aw_storedEntry :: bytes

definition verify_computeEntryHash ::
    "sodium \<Rightarrow> bytes \<Rightarrow> bytes \<Rightarrow> u64 \<Rightarrow> u32 \<Rightarrow> u32 \<Rightarrow> u64 \<Rightarrow> bool \<Rightarrow> string \<Rightarrow> string \<Rightarrow> string \<Rightarrow> bytes" where
  "verify_computeEntryHash so key prev ts reader_id door_id seq allow reason card_hmac action =
     (let fields = storage_putLe64 ts [];
          fields = storage_putLe32 reader_id fields;
          fields = storage_putLe32 door_id fields;
          fields = storage_putLe64 seq fields;
          fields = fields @ [if allow then 1 else 0];
          fields = putBytesWithLen reason fields;
          fields = putBytesWithLen card_hmac fields;
          fields = putBytesWithLen action fields;
          data = [] @ prev;
          data = data @ fields
      in hmac_sha256 so key data)"

text \<open>\<^verbatim>\<open>sqlite3_column_int\<close> and \<^verbatim>\<open>static_cast<uint32_t>\<close> keep the low 32 bits of the stored
  integer; \<^verbatim>\<open>COALESCE\<close> makes NULL the empty string; a \<^verbatim>\<open>string_view\<close> of a \<^verbatim>\<open>const char*\<close> ends at
  the first NUL. On a bad blob the row has its id and texts but no hashes.\<close>

definition extractRow :: "AuditLogRow \<Rightarrow> bool \<times> AuditRow" where
  "extractRow r =
     (let row = \<lparr>aw_id = ar_id r, aw_ts = column_u64 (ar_ts_unix_ms r),
        aw_reader_id = column_u32 (ar_reader_id r), aw_door_id = column_u32 (ar_door_id r),
        aw_seq = column_u64 (ar_seq r), aw_allow = (word_of_int (ar_allow r) \<noteq> (0 :: u32)),
        aw_reason = c_str (ar_reason r),
        aw_card_hmac = c_str (case ar_card_hmac r of None \<Rightarrow> [] | Some s \<Rightarrow> s),
        aw_action = c_str (case ar_action r of None \<Rightarrow> [] | Some s \<Rightarrow> s),
        aw_storedPrev = zero_hash, aw_storedEntry = zero_hash\<rparr>
      in if length (ar_prev_hash r) \<noteq> kHashSize \<or> length (ar_entry_hash r) \<noteq> kHashSize
         then (False, row)
         else (True, row\<lparr>aw_storedPrev := ar_prev_hash r, aw_storedEntry := ar_entry_hash r\<rparr>))"

definition verifyRow :: "sodium \<Rightarrow> bytes \<Rightarrow> AuditRow \<Rightarrow> bytes \<Rightarrow> AuditVerifyResult" where
  "verifyRow so hmacKey row expectedPrev =
     (if aw_storedPrev row \<noteq> expectedPrev
      then no_result\<lparr>vr_bad_id := aw_id row, vr_error := ''prev_hash mismatch''\<rparr>
      else if aw_storedEntry row \<noteq> verify_computeEntryHash so hmacKey expectedPrev (aw_ts row)
          (aw_reader_id row) (aw_door_id row) (aw_seq row) (aw_allow row) (aw_reason row)
          (aw_card_hmac row) (aw_action row)
      then no_result\<lparr>vr_bad_id := aw_id row, vr_error := ''entry_hash mismatch''\<rparr>
      else no_result\<lparr>vr_ok := True\<rparr>)"

definition verifyAnchor :: "sql_status \<Rightarrow> AuditTables \<Rightarrow> bytes \<Rightarrow> bool \<Rightarrow> AuditVerifyResult result" where
  "verifyAnchor st t lastEntry anyRows =
     (if st = PrepareFails then Inl (RuntimeError ''sqlite prepare failed'')
      else case (if step_ok st then at_anchor t else None) of
        None \<Rightarrow> Inr (no_result\<lparr>vr_error := ''anchor row missing''\<rparr>)
      | Some (blob, _) \<Rightarrow>
          if length blob \<noteq> kHashSize then Inr (no_result\<lparr>vr_error := ''anchor last_hash bad blob''\<rparr>)
          else if blob \<noteq> lastEntry
          then Inr (no_result\<lparr>vr_bad_id := (if anyRows then -2 else -1),
                 vr_error := ''anchor mismatch (possible truncation)''\<rparr>)
          else Inr (no_result\<lparr>vr_ok := True\<rparr>))"

text \<open>The loop over the rows: a result if it returns early, else \<^verbatim>\<open>lastEntry\<close> and \<^verbatim>\<open>anyRows\<close>.
  \<open>fails\<close> says whether the step behind the given rows fails.\<close>

fun verify_rows ::
    "sodium \<Rightarrow> bytes \<Rightarrow> bool \<Rightarrow> AuditLogRow list \<Rightarrow> bytes \<Rightarrow> bytes \<Rightarrow> bool \<Rightarrow> AuditVerifyResult + bytes \<times> bool" where
  "verify_rows so hmacKey fails [] expectedPrev lastEntry anyRows =
     (if fails then Inl (no_result\<lparr>vr_error := ''step failed''\<rparr>) else Inr (lastEntry, anyRows))"
| "verify_rows so hmacKey fails (r # rs) expectedPrev lastEntry anyRows =
     (case extractRow r of (ok, row) \<Rightarrow>
        if \<not> ok then Inl (no_result\<lparr>vr_bad_id := aw_id row, vr_error := ''bad hash blob length''\<rparr>)
        else let rowResult = verifyRow so hmacKey row expectedPrev in
             if \<not> vr_ok rowResult then Inl rowResult
             else verify_rows so hmacKey fails rs (aw_storedEntry row) (aw_storedEntry row) True)"

definition step_fails :: "sql_status \<Rightarrow> 'r list \<Rightarrow> bool" where
  "step_fails st rows \<longleftrightarrow> (case st of StepFailsAfter n \<Rightarrow> n \<le> length rows | _ \<Rightarrow> False)"

definition verifyAuditChain ::
    "sodium \<Rightarrow> sql_status \<Rightarrow> sql_status \<Rightarrow> AuditTables option \<Rightarrow> bytes \<Rightarrow> AuditVerifyResult result" where
  "verifyAuditChain so st_rows st_anchor db hmacKey =
     (case db of
        None \<Rightarrow> Inr (no_result\<lparr>vr_error := ''db is null''\<rparr>)
      | Some t \<Rightarrow>
          if st_rows = PrepareFails then Inl (RuntimeError ''sqlite prepare failed'')
          else case verify_rows so hmacKey (step_fails st_rows (by_id t)) (rows_read st_rows (by_id t))
                 zero_hash zero_hash False of
                 Inl res \<Rightarrow> Inr res
               | Inr (lastEntry, anyRows) \<Rightarrow> verifyAnchor st_anchor t lastEntry anyRows)"

section \<open>What the verifier checks\<close>

text \<open>The event a row stands for, and the bytes an event is hashed as.\<close>

definition row_event :: "AuditLogRow \<Rightarrow> AuditEvent" where
  "row_event r =
     \<lparr>ae_ts_unix_ms = column_u64 (ar_ts_unix_ms r), ae_reader_id = column_u32 (ar_reader_id r),
      ae_door_id = column_u32 (ar_door_id r), ae_seq = column_u64 (ar_seq r),
      ae_allow = (word_of_int (ar_allow r) \<noteq> (0 :: u32)), ae_reason = c_str (ar_reason r),
      ae_card_id = c_str (case ar_card_hmac r of None \<Rightarrow> [] | Some s \<Rightarrow> s),
      ae_action = c_str (case ar_action r of None \<Rightarrow> [] | Some s \<Rightarrow> s)\<rparr>"

definition event_bytes :: "AuditEvent \<Rightarrow> bytes" where
  "event_bytes e =
     put_le64 (ae_ts_unix_ms e) [] @ put_le32 (ae_reader_id e) [] @ put_le32 (ae_door_id e) [] @
     put_le64 (ae_seq e) [] @ [if ae_allow e then 1 else 0] @ putBytesWithLen (ae_reason e) [] @
     putBytesWithLen (ae_card_id e) [] @ putBytesWithLen (ae_action e) []"

text \<open>Texts short enough for the 32-bit length prefix.\<close>

definition texts_short :: "AuditEvent \<Rightarrow> bool" where
  "texts_short e \<longleftrightarrow> length (ae_reason e) < 2 ^ 32 \<and> length (ae_card_id e) < 2 ^ 32 \<and>
     length (ae_action e) < 2 ^ 32"

definition link_data :: "bytes \<Rightarrow> AuditEvent \<Rightarrow> bytes" where
  "link_data prev e = prev @ event_bytes e"

definition chain_link :: "sodium \<Rightarrow> bytes \<Rightarrow> bytes \<Rightarrow> AuditEvent \<Rightarrow> bytes" where
  "chain_link so key prev e = so_hmac so key (link_data prev e)"

lemma fold_entry_bytes:
  "putBytesWithLen c (putBytesWithLen b (putBytesWithLen a
     (storage_putLe64 s (storage_putLe32 d (storage_putLe32 r (storage_putLe64 t []))) @ [x]))) =
   put_le64 t [] @ put_le32 r [] @ put_le32 d [] @ put_le64 s [] @ [x] @
     putBytesWithLen a [] @ putBytesWithLen b [] @ putBytesWithLen c []"
proof -
  have "storage_putLe64 s (storage_putLe32 d (storage_putLe32 r (storage_putLe64 t []))) =
      put_le64 t [] @ put_le32 r [] @ put_le32 d [] @ put_le64 s []"
    by (metis append.assoc put_le32_append put_le64_append storage_putLe32_eq storage_putLe64_eq)
  then show ?thesis
    by (metis append.assoc putBytesWithLen_append)
qed

text \<open>The writer and the verifier, which have their own copies of the hash function, agree.\<close>

lemma computeEntryHash_eq: "computeEntryHash so lg prev e = chain_link so (sl_key lg) prev e"
  by (simp add: computeEntryHash_def chain_link_def link_data_def event_bytes_def fold_entry_bytes)

lemma verify_computeEntryHash_eq:
  "verify_computeEntryHash so key prev (ae_ts_unix_ms e) (ae_reader_id e) (ae_door_id e) (ae_seq e)
     (ae_allow e) (ae_reason e) (ae_card_id e) (ae_action e) = chain_link so key prev e"
  by (simp add: verify_computeEntryHash_def chain_link_def link_data_def event_bytes_def fold_entry_bytes)

text \<open>A list of rows is chained behind a hash.\<close>

fun chained :: "sodium \<Rightarrow> bytes \<Rightarrow> bytes \<Rightarrow> AuditLogRow list \<Rightarrow> bool" where
  "chained so key prev [] \<longleftrightarrow> True"
| "chained so key prev (r # rs) \<longleftrightarrow>
     ar_prev_hash r = prev \<and> ar_entry_hash r = chain_link so key prev (row_event r) \<and>
     chained so key (ar_entry_hash r) rs"

definition chain_head :: "bytes \<Rightarrow> AuditLogRow list \<Rightarrow> bytes" where
  "chain_head prev rs = last (prev # map ar_entry_hash rs)"

definition audit_valid :: "sodium \<Rightarrow> bytes \<Rightarrow> AuditTables \<Rightarrow> bool" where
  "audit_valid so key t \<longleftrightarrow>
     chained so key zero_hash (by_id t) \<and>
     map_option fst (at_anchor t) = Some (chain_head zero_hash (by_id t))"

lemma chain_head_simps [simp]:
  "chain_head prev [] = prev"
  "chain_head prev (r # rs) = chain_head (ar_entry_hash r) rs"
  by (simp_all add: chain_head_def)

lemma chain_head_snoc [simp]: "chain_head prev (rs @ [r]) = ar_entry_hash r"
  by (simp add: chain_head_def)

lemma chained_snoc:
  "chained so key prev (rs @ [r]) \<longleftrightarrow> chained so key prev rs \<and>
     ar_prev_hash r = chain_head prev rs \<and>
     ar_entry_hash r = chain_link so key (chain_head prev rs) (row_event r)"
  by (induction rs arbitrary: prev) auto

lemma chained_append:
  "chained so key prev (rs @ qs) \<longleftrightarrow> chained so key prev rs \<and> chained so key (chain_head prev rs) qs"
  by (induction rs arbitrary: prev) auto

lemma chain_head_length:
  "sodium_spec so \<Longrightarrow> chained so key prev rs \<Longrightarrow> length prev = 32 \<Longrightarrow> length (chain_head prev rs) = 32"
  by (induction rs arbitrary: prev) (auto simp: chain_link_def sodium_hmac_length)

lemma verifyRow_ok_iff:
  "fst (extractRow r) \<Longrightarrow> vr_ok (verifyRow so key (snd (extractRow r)) prev) \<longleftrightarrow>
     ar_prev_hash r = prev \<and> ar_entry_hash r = chain_link so key prev (row_event r)"
  by (auto simp: verifyRow_def extractRow_def Let_def no_result_def row_event_def kHashSize_def
      verify_computeEntryHash_eq [of _ _ _ "row_event r", simplified row_event_def, simplified]
      split: if_splits)

text \<open>The loop returns early with a failure, and otherwise has seen a chain.\<close>

lemma verify_rows_spec:
  assumes "sodium_spec so" and "length prev = 32"
  shows "case verify_rows so key fails rs prev prev any of
      Inl res \<Rightarrow> \<not> vr_ok res \<and> (fails \<or> \<not> chained so key prev rs)
    | Inr (head, any') \<Rightarrow> \<not> fails \<and> chained so key prev rs \<and> head = chain_head prev rs \<and>
        any' = (any \<or> rs \<noteq> [])"
  using assms(2)
proof (induction rs arbitrary: prev any)
  case Nil
  then show ?case by (simp add: no_result_def)
next
  case (Cons r rs)
  show ?case
  proof (cases "fst (extractRow r)")
    case False
    then have "\<not> chained so key prev (r # rs)"
      using assms(1) Cons.prems
      by (auto simp: extractRow_def Let_def kHashSize_def chain_link_def sodium_hmac_length split: if_splits)
    with False show ?thesis by (simp add: split_beta no_result_def)
  next
    case ok: True
    show ?thesis
    proof (cases "vr_ok (verifyRow so key (snd (extractRow r)) prev)")
      case False
      with ok verifyRow_ok_iff [OF ok] show ?thesis by (auto simp: split_beta Let_def)
    next
      case True
      with ok verifyRow_ok_iff [OF ok, of so key prev]
      have link: "ar_prev_hash r = prev" "ar_entry_hash r = chain_link so key prev (row_event r)" by simp_all
      have entry: "aw_storedEntry (snd (extractRow r)) = ar_entry_hash r"
        using ok by (auto simp: extractRow_def Let_def split: if_splits)
      have "length (ar_entry_hash r) = 32"
        using assms(1) link(2) by (simp add: chain_link_def sodium_hmac_length)
      from Cons.IH [OF this, of True] show ?thesis
        using ok True link entry
        by (auto simp: split_beta Let_def split: sum.splits prod.splits)
    qed
  qed
qed

lemma rows_read_all: "\<not> step_fails st rows \<Longrightarrow> rows_read st rows = rows"
  by (cases st) (simp_all add: step_fails_def)

lemma verifyAnchor_ok:
  assumes "verifyAnchor st t h any = Inr res" and "vr_ok res"
  shows "map_option fst (at_anchor t) = Some h"
  using assms by (auto simp: verifyAnchor_def no_result_def split: if_splits option.splits prod.splits)

lemma verifyAnchor_healthy:
  "length h = 32 \<Longrightarrow> \<exists>res. verifyAnchor SqlOk t h any = Inr res \<and>
     (vr_ok res \<longleftrightarrow> map_option fst (at_anchor t) = Some h)"
  by (auto simp: verifyAnchor_def no_result_def kHashSize_def split: option.splits)

text \<open>Whatever SQLite does, a positive result means a valid log.\<close>

lemma verified_valid:
  assumes spec: "sodium_spec so" and ver: "verifyAuditChain so st_rows st_anchor (Some t) key = Inr res"
    and ok: "vr_ok res"
  shows "audit_valid so key t"
proof -
  let ?v = "verify_rows so key (step_fails st_rows (by_id t)) (rows_read st_rows (by_id t))
    zero_hash zero_hash False"
  have spec': "case ?v of
      Inl res \<Rightarrow> \<not> vr_ok res \<and> (step_fails st_rows (by_id t) \<or>
        \<not> chained so key zero_hash (rows_read st_rows (by_id t)))
    | Inr (head, any') \<Rightarrow> \<not> step_fails st_rows (by_id t) \<and>
        chained so key zero_hash (rows_read st_rows (by_id t)) \<and>
        head = chain_head zero_hash (rows_read st_rows (by_id t)) \<and>
        any' = (False \<or> rows_read st_rows (by_id t) \<noteq> [])"
    by (rule verify_rows_spec [OF spec]) simp
  obtain h a where v: "?v = Inr (h, a)" and anc: "verifyAnchor st_anchor t h a = Inr res"
    using ver ok spec' by (auto simp: verifyAuditChain_def split: if_splits sum.splits prod.splits)
  have "rows_read st_rows (by_id t) = by_id t"
    using spec' v by (simp add: rows_read_all)
  with spec' v verifyAnchor_ok [OF anc ok] show ?thesis by (simp add: audit_valid_def)
qed

lemma verify_healthy:
  assumes "sodium_spec so"
  shows "\<exists>res. verifyAuditChain so SqlOk SqlOk (Some t) key = Inr res \<and>
    (vr_ok res \<longleftrightarrow> audit_valid so key t)"
proof -
  have "verify_rows so key (step_fails SqlOk (by_id t)) (rows_read SqlOk (by_id t)) zero_hash zero_hash False =
      verify_rows so key False (by_id t) zero_hash zero_hash False" by (simp add: step_fails_def)
  moreover note verify_rows_spec [OF assms length_zero_hash, where key = key and fails = False and rs = "by_id t" and any = False]
  ultimately show ?thesis
    using verifyAnchor_healthy [OF chain_head_length [OF assms _ length_zero_hash, where key = key and rs = "by_id t"], where t = t]
    by (auto simp: verifyAuditChain_def audit_valid_def split: sum.splits prod.splits)
qed

text \<open>
  C34: the verifier decides validity. On tables with any contents, when SQLite works, it returns a
  result, and the result is positive exactly when the rows in the order of their ids are linked
  by hashes recomputed from the events they show, starting from the zero hash, and the anchor holds
  the last of them.
\<close>

theorem verifier_decides_validity:
  assumes "sodium_spec so"
  shows "\<exists>res. verifyAuditChain so SqlOk SqlOk (Some t) key = Inr res \<and>
    (vr_ok res \<longleftrightarrow> audit_valid so key t)"
  by (rule verify_healthy [OF assms])

theorem verifier_decides_validity_witness:
  "\<exists>res. verifyAuditChain toy_sodium SqlOk SqlOk (Some no_audit_tables) [1] = Inr res \<and>
    (vr_ok res \<longleftrightarrow> audit_valid toy_sodium [1] no_audit_tables)"
  by (rule verifier_decides_validity [OF toy_sodium_spec])

section \<open>Hash chains\<close>

fun chain_links :: "('h \<Rightarrow> 'e \<Rightarrow> 'h) \<Rightarrow> 'h \<Rightarrow> 'e list \<Rightarrow> ('h \<times> 'e) list" where
  "chain_links lnk z [] = []"
| "chain_links lnk z (e # es) = (z, e) # chain_links lnk (lnk z e) es"

lemma chain_links_snoc: "chain_links lnk z (es @ [e]) = chain_links lnk z es @ [(foldl lnk z es, e)]"
  by (induction es arbitrary: z) simp_all

locale hash_chain =
  fixes lnk :: "'h \<Rightarrow> 'e \<Rightarrow> 'h"
    and hash_ok :: "'h \<Rightarrow> bool"
    and fits :: "'e \<Rightarrow> bool"
    and collide :: "'h \<times> 'e \<Rightarrow> 'h \<times> 'e \<Rightarrow> bool"
  assumes link_ok: "hash_ok p \<Longrightarrow> hash_ok (lnk p e)"
    and link_separates: "hash_ok p \<Longrightarrow> hash_ok q \<Longrightarrow> fits e \<Longrightarrow> fits f \<Longrightarrow> lnk p e = lnk q f \<Longrightarrow>
      (p, e) = (q, f) \<or> collide (p, e) (q, f)"
begin

lemma head_ok: "hash_ok z \<Longrightarrow> hash_ok (foldl lnk z es)"
  by (induction es arbitrary: z) (simp_all add: link_ok)

lemma heads_determine_entries:
  assumes "hash_ok z" and "\<forall>e\<in>set es. fits e" and "\<forall>f\<in>set fs. fits f"
    and "foldl lnk z es = foldl lnk z fs"
  shows "es = fs \<or>
    (\<exists>x\<in>set (chain_links lnk z es). \<exists>y\<in>set (chain_links lnk z fs). collide x y) \<or>
    (\<exists>x\<in>set (chain_links lnk z es) \<union> set (chain_links lnk z fs). lnk (fst x) (snd x) = z)"
  using assms(2-)
proof (induction es arbitrary: fs rule: rev_induct)
  case Nil
  then show ?case by (cases fs rule: rev_cases) (auto simp: chain_links_snoc)
next
  case (snoc e es)
  show ?case
  proof (cases fs rule: rev_cases)
    case Nil
    with snoc.prems show ?thesis by (auto simp: chain_links_snoc)
  next
    case (snoc fs' f)
    let ?p = "foldl lnk z es" and ?q = "foldl lnk z fs'"
    have "(?p, e) = (?q, f) \<or> collide (?p, e) (?q, f)"
      by (rule link_separates) (use snoc.prems snoc in \<open>auto intro: head_ok assms(1)\<close>)
    then show ?thesis
      using snoc.IH [of fs'] snoc.prems snoc by (auto simp: chain_links_snoc)
  qed
qed

end

lemma event_bytes_inject:
  assumes "texts_short e" and "texts_short f"
  shows "event_bytes e = event_bytes f \<longleftrightarrow> e = f"
proof
  assume eq: "event_bytes e = event_bytes f"
  have "putBytesWithLen (ae_action e) [] @ [] = putBytesWithLen (ae_action f) [] @ [] \<longleftrightarrow> ae_action e = ae_action f"
    using assms by (subst putBytesWithLen_inject) (simp_all add: texts_short_def)
  with eq assms show "e = f"
    by (auto simp: event_bytes_def codec_simps putBytesWithLen_inject texts_short_def intro: AuditEvent.equality
        split: if_splits)
qed simp

interpretation audit_chain: hash_chain "chain_link so key" "\<lambda>h. sodium_spec so \<and> length h = 32"
  texts_short "\<lambda>(p, e) (q, f). hmac_collision so (key, link_data p e) (key, link_data q f)"
proof unfold_locales
  fix p q :: bytes and e f :: AuditEvent
  assume "sodium_spec so \<and> length p = 32" and "sodium_spec so \<and> length q = 32"
    and "texts_short e" "texts_short f" and "chain_link so key p e = chain_link so key q f"
  moreover have "link_data p e = link_data q f \<longleftrightarrow> (p, e) = (q, f)" if "length p = length q"
    using that event_bytes_inject [OF \<open>texts_short e\<close> \<open>texts_short f\<close>] by (simp add: link_data_def)
  ultimately show "(p, e) = (q, f) \<or> (case (p, e) of (p, e) \<Rightarrow> \<lambda>(q, f).
      hmac_collision so (key, link_data p e) (key, link_data q f)) (q, f)"
    by (auto simp: hmac_collision_def chain_link_def)
qed (simp add: chain_link_def sodium_hmac_length)

end
