(* ===== verification/Audit_Chain.thy ===== *)
theory Audit_Chain
  imports Audit_Verify
begin

text \<open>
  What the audit log guarantees, on top of the writer (\<open>Sqlite_Audit_Log\<close>) and the verifier
  (\<open>Audit_Verify\<close>): it records the history of the appended events, it keeps verifying, and a
  verified log is determined by its anchor. The last section says what breaks the chain and what
  does not.
\<close>

section \<open>The log as a list of events\<close>

definition logged_events :: "AuditTables \<Rightarrow> AuditEvent list" where
  "logged_events t = map row_event (by_id t)"

definition event_nul_free :: "AuditEvent \<Rightarrow> bool" where
  "event_nul_free e \<longleftrightarrow> nul \<notin> set (ae_reason e) \<and> nul \<notin> set (ae_card_id e) \<and> nul \<notin> set (ae_action e)"

text \<open>An event as it is read back: its texts end before the first NUL.\<close>

definition readback :: "AuditEvent \<Rightarrow> AuditEvent" where
  "readback e = e\<lparr>ae_reason := c_str (ae_reason e), ae_card_id := c_str (ae_card_id e),
     ae_action := c_str (ae_action e)\<rparr>"

lemma c_str_Nil [simp]: "c_str [] = []"
  by (simp add: c_str_def)

lemma row_event_audit_row [simp]: "row_event (audit_row i e p h) = readback e"
  by (simp add: row_event_def audit_row_def readback_def bind_text_or_null_def)

lemma readback_id: "event_nul_free e \<Longrightarrow> readback e = e"
  by (simp add: readback_def event_nul_free_def c_str_id)

lemma audit_row_hashes [simp]:
  "ar_prev_hash (audit_row i e p h) = p" "ar_entry_hash (audit_row i e p h) = h"
  by (simp_all add: audit_row_def)

lemma logged_with_entry: "logged_events (with_entry so lg e p t) = logged_events t @ [readback e]"
  by (simp add: logged_events_def with_entry_def Let_def)

lemma last_entry_hash_head: "last_entry_hash t = chain_head zero_hash (by_id t)"
  by (cases "by_id t" rule: rev_cases) (auto simp: last_entry_hash_def by_id_eq_Nil [symmetric] simp del: by_id_eq_Nil)

lemma with_entry_valid:
  assumes "audit_valid so (sl_key lg) t" and "sl_chainEnabled lg" and "event_nul_free e"
  shows "audit_valid so (sl_key lg) (with_entry so lg e (last_entry_hash t) t)"
  using assms
  by (auto simp: audit_valid_def with_entry_def Let_def chained_snoc last_entry_hash_head readback_id
      computeEntryHash_eq)

lemma logged_no_tables [simp]: "logged_events no_audit_tables = []"
  by (simp add: logged_events_def by_id_def no_audit_tables_def)

text \<open>A concrete event for the witnesses.\<close>

definition demo_audit_event :: AuditEvent where
  "demo_audit_event = \<lparr>ae_ts_unix_ms = 5, ae_reader_id = 1, ae_door_id = 2, ae_seq = 3, ae_allow = True,
     ae_reason = ''ok'', ae_card_id = ''ab'', ae_action = ''open''\<rparr>"

definition demo_audit_run :: "AuditEvent list \<times> AuditConn" where
  "demo_audit_run = audit_run toy_sodium \<lparr>sl_key = [1], sl_chainEnabled = True\<rparr>
     [(healthy, demo_audit_event), (healthy\<lparr>as_commit := Some ''disk I/O error''\<rparr>, demo_audit_event),
      (healthy, demo_audit_event)]
     \<lparr>ac_tables = \<lparr>at_log = [], at_sequence = 0, at_anchor = Some (zero_hash, 0)\<rparr>, ac_saved = None\<rparr>"

section \<open>One append\<close>

text \<open>What one append does to the committed tables, for any outcome of its statements.\<close>

lemma append_committed:
  assumes "lookup_safe st"
  shows "case audit_append so lg st e c of
      (Inl _, c') \<Rightarrow> committed c' = committed c
    | (Inr _, c') \<Rightarrow> committed c' = with_entry so lg e (linked_hash st (committed c)) (committed c)"
proof (cases "ac_saved c")
  case None
  from audit_append_cases [OF this assms, of so lg e] None show ?thesis
    by (auto split: prod.splits sum.splits)
next
  case (Some t)
  then show ?thesis using audit_append_stuck [OF Some, of so lg st e] by auto
qed

lemma append_committedE:
  assumes "lookup_safe st" and "audit_append so lg st e c = (r, c')"
  obtains x where "r = Inl x" and "committed c' = committed c"
  | "r = Inr ()" and "committed c' = with_entry so lg e (linked_hash st (committed c)) (committed c)"
  using append_committed [OF assms(1), where so = so and lg = lg and e = e and c = c] assms(2) by (cases r) auto

text \<open>
  C33: an append is atomic. As long as SQLite does not end the transaction under the look-up of the
  last entry, whatever its statements do, either the call throws and what another connection sees
  is unchanged, or it returns and exactly one event has been added at the end: the event given, its
  texts cut at the first NUL.
\<close>

theorem audit_append_atomic:
  assumes "lookup_safe st"
  shows "case audit_append so lg st e c of
      (Inl _, c') \<Rightarrow> committed c' = committed c
    | (Inr _, c') \<Rightarrow> logged_events (committed c') = logged_events (committed c) @ [readback e]"
  using append_committed [OF assms, where so = so and lg = lg and e = e and c = c]
  by (auto simp: logged_with_entry split: prod.splits sum.splits)

section \<open>Runs of the log\<close>

lemma audit_run_logged:
  assumes "\<forall>(st, e)\<in>set calls. lookup_safe st \<and> event_nul_free e"
    and "audit_run so lg calls c = (kept, c')"
  shows "logged_events (committed c') = logged_events (committed c) @ kept"
  using assms
proof (induction calls arbitrary: c kept)
  case (Cons call calls)
  obtain st e where call: "call = (st, e)" by (cases call)
  obtain r d where app: "audit_append so lg st e c = (r, d)" by (cases "audit_append so lg st e c")
  obtain kept' where run: "audit_run so lg calls d = (kept', c')"
    and eq: "kept = (case r of Inl _ \<Rightarrow> kept' | Inr _ \<Rightarrow> e # kept')"
    using Cons.prems(2) by (cases "audit_run so lg calls d") (auto simp: call app split: sum.splits)
  have "lookup_safe st" "event_nul_free e" using Cons.prems(1) by (auto simp: call)
  with app show ?case
    by (elim append_committedE)
      (use Cons.IH [OF _ run] Cons.prems(1) in \<open>auto simp: eq logged_with_entry readback_id\<close>)
qed simp

text \<open>The look-up of the last entry reads the row, or the append does not get that far.\<close>

definition lookup_works :: "append_status \<Rightarrow> bool" where
  "lookup_works st \<longleftrightarrow> as_last st = PrepareFails \<or> step_ok (as_last st)"

lemma lookup_works_safe: "lookup_works st \<Longrightarrow> lookup_safe st"
  by (auto simp: lookup_works_def lookup_safe_def)

lemma append_unprepared:
  "as_last st = PrepareFails \<Longrightarrow> sl_chainEnabled lg \<Longrightarrow> audit_append so lg st e c = (r, c') \<Longrightarrow> r \<noteq> Inr ()"
  by (auto simp: audit_append_def append_body_def bindM_apply getLastEntryHash_def try_rethrow_def
      split: prod.splits sum.splits)

lemma audit_run_valid:
  assumes "sl_chainEnabled lg" and "\<forall>(st, e)\<in>set calls. lookup_works st \<and> event_nul_free e"
    and "audit_valid so (sl_key lg) (committed c)"
  shows "audit_valid so (sl_key lg) (committed (snd (audit_run so lg calls c)))"
  using assms(2,3)
proof (induction calls arbitrary: c)
  case (Cons call calls)
  obtain st e where call: "call = (st, e)" by (cases call)
  obtain r d where app: "audit_append so lg st e c = (r, d)" by (cases "audit_append so lg st e c")
  have st: "lookup_works st" "event_nul_free e" using Cons.prems(1) by (auto simp: call)
  have "audit_valid so (sl_key lg) (committed d)"
    using app
  proof (rule append_committedE [OF lookup_works_safe [OF st(1)]])
    fix x assume "committed d = committed c"
    then show ?thesis using Cons.prems(2) by simp
  next
    assume r: "r = Inr ()"
      and d: "committed d = with_entry so lg e (linked_hash st (committed c)) (committed c)"
    have "step_ok (as_last st)"
      using append_unprepared [OF _ assms(1) app] r st(1) by (auto simp: lookup_works_def)
    then have "linked_hash st (committed c) = last_entry_hash (committed c)"
      by (simp add: linked_hash_def)
    then show ?thesis using with_entry_valid [OF Cons.prems(2) assms(1) st(2)] d by simp
  qed
  from Cons.IH [OF _ this] Cons.prems(1) show ?case
    by (cases r) (auto simp: call app split: prod.splits)
qed simp

lemma fresh_log:
  assumes "SqliteAuditLog_init None key chain (Some \<lparr>ac_tables = no_audit_tables, ac_saved = None\<rparr>) = (Inr lg, Some c)"
  shows "lg = \<lparr>sl_key = key, sl_chainEnabled = chain\<rparr>" and "audit_valid so key (committed c)"
    and "logged_events (committed c) = []" and "ac_saved c = None" and "ac_tables c = \<lparr>at_log = [],
      at_sequence = 0, at_anchor = Some (zero_hash, 0)\<rparr>"
  using assms
  by (auto simp: SqliteAuditLog_init_def audit_initSchema_def no_audit_tables_def audit_valid_def by_id_def
      logged_events_def committed_def)

text \<open>
  C31: the audit log keeps verifying and records the history. Let a log be opened on a fresh
  database with the chain enabled, and let any NUL-free events be appended, some of which may fail
  at any statement, as long as the look-up of the last entry is not among the failing steps. Then
  the tables another connection sees verify under the key, and the events they hold are exactly
  those whose append returned, in order.
\<close>

theorem audit_log_verifies:
  assumes "sodium_spec so"
    and "SqliteAuditLog_init None key True (Some \<lparr>ac_tables = no_audit_tables, ac_saved = None\<rparr>) = (Inr lg, Some c)"
    and "\<forall>(st, e)\<in>set calls. lookup_works st \<and> event_nul_free e"
    and "audit_run so lg calls c = (kept, c')"
  shows "(\<exists>res. verifyAuditChain so SqlOk SqlOk (Some (committed c')) key = Inr res \<and> vr_ok res) \<and>
    logged_events (committed c') = kept"
proof
  note lg = fresh_log [OF assms(2)]
  have "audit_valid so (sl_key lg) (committed (snd (audit_run so lg calls c)))"
    by (rule audit_run_valid) (use lg assms(3) in auto)
  then have "audit_valid so key (committed c')" using lg assms(4) by simp
  then show "\<exists>res. verifyAuditChain so SqlOk SqlOk (Some (committed c')) key = Inr res \<and> vr_ok res"
    using verify_healthy [OF assms(1)] by blast
  have "\<forall>(st, e)\<in>set calls. lookup_safe st \<and> event_nul_free e"
    using assms(3) by (auto simp: lookup_works_safe)
  from audit_run_logged [OF this assms(4)] show "logged_events (committed c') = kept"
    using lg(3) by simp
qed

theorem audit_append_atomic_witness:
  "case audit_append toy_sodium \<lparr>sl_key = [1], sl_chainEnabled = True\<rparr> (healthy\<lparr>as_anchor := PrepareFails\<rparr>)
       demo_audit_event \<lparr>ac_tables = no_audit_tables, ac_saved = None\<rparr> of
      (Inl _, c') \<Rightarrow> committed c' = committed \<lparr>ac_tables = no_audit_tables, ac_saved = None\<rparr>
    | (Inr _, c') \<Rightarrow> logged_events (committed c') =
        logged_events (committed \<lparr>ac_tables = no_audit_tables, ac_saved = None\<rparr>) @ [readback demo_audit_event]"
  by (rule audit_append_atomic) (simp add: lookup_safe_def healthy_def)

theorem audit_log_verifies_witness:
  "(\<exists>res. verifyAuditChain toy_sodium SqlOk SqlOk (Some (committed (snd demo_audit_run))) [1] = Inr res \<and> vr_ok res) \<and>
    logged_events (committed (snd demo_audit_run)) = fst demo_audit_run"
  by (rule audit_log_verifies [OF toy_sodium_spec, where calls = "[(healthy, demo_audit_event),
        (healthy\<lparr>as_commit := Some ''disk I/O error''\<rparr>, demo_audit_event), (healthy, demo_audit_event)]"])
    (auto simp: demo_audit_run_def SqliteAuditLog_init_def audit_initSchema_def no_audit_tables_def
      lookup_works_def healthy_def event_nul_free_def demo_audit_event_def nul_def char_of_def)

section \<open>What an edit of the database can hide\<close>

text \<open>The inputs of the hash function in a log.\<close>

definition hashed_inputs :: "sodium \<Rightarrow> bytes \<Rightarrow> AuditTables \<Rightarrow> bytes set" where
  "hashed_inputs so key t =
     (\<lambda>(p, e). link_data p e) ` set (chain_links (chain_link so key) zero_hash (logged_events t))"

lemma chained_head:
  "chained so key p rs \<Longrightarrow> chain_head p rs = foldl (chain_link so key) p (map row_event rs)"
  by (induction rs arbitrary: p) auto

text \<open>A verifying log with one entry.\<close>

definition demo_log :: AuditTables where
  "demo_log = with_entry toy_sodium \<lparr>sl_key = [1], sl_chainEnabled = True\<rparr> demo_audit_event zero_hash
     \<lparr>at_log = [], at_sequence = 0, at_anchor = Some (zero_hash, 0)\<rparr>"

lemma demo_log_verifies:
  obtains r where "verifyAuditChain toy_sodium SqlOk SqlOk (Some demo_log) [1] = Inr r" and "vr_ok r"
proof -
  let ?t = "\<lparr>at_log = [], at_sequence = 0, at_anchor = Some (zero_hash, 0)\<rparr>"
  have "event_nul_free demo_audit_event"
    by (simp add: event_nul_free_def demo_audit_event_def nul_def char_of_def)
  then have "audit_valid toy_sodium [1] demo_log"
    using with_entry_valid [of toy_sodium "\<lparr>sl_key = [1], sl_chainEnabled = True\<rparr>" ?t demo_audit_event]
    by (simp add: demo_log_def audit_valid_def by_id_def last_entry_hash_def)
  then show ?thesis using verify_healthy [OF toy_sodium_spec] that by blast
qed

lemma demo_log_logged: "logged_events demo_log = [readback demo_audit_event]"
  by (simp add: demo_log_def logged_with_entry) (simp add: logged_events_def by_id_def)

text \<open>
  C32: the anchor pins the history. Let two databases, however they came about, both verify under
  the key and hold the same anchor, their texts being shorter than 4 GiB. Then they show the same
  events in the same order; or among the inputs they hash there is a collision of HMAC-SHA-256
  under the key, or an input whose code is all zeros.
\<close>

theorem anchor_determines_history:
  assumes "sodium_spec so"
    and "verifyAuditChain so st1 st2 (Some t) key = Inr r" and "vr_ok r"
    and "verifyAuditChain so st3 st4 (Some u) key = Inr q" and "vr_ok q"
    and "map_option fst (at_anchor t) = map_option fst (at_anchor u)"
    and "\<forall>e\<in>set (logged_events t @ logged_events u). texts_short e"
  shows "logged_events t = logged_events u \<or>
    (\<exists>x\<in>hashed_inputs so key t. \<exists>y\<in>hashed_inputs so key u. hmac_collision so (key, x) (key, y)) \<or>
    (\<exists>x\<in>hashed_inputs so key t \<union> hashed_inputs so key u. so_hmac so key x = zero_hash)"
proof -
  have "audit_valid so key t" and "audit_valid so key u"
    using verified_valid assms(1-5) by blast+
  then have "foldl (chain_link so key) zero_hash (logged_events t) =
      foldl (chain_link so key) zero_hash (logged_events u)"
    using assms(6) by (auto simp: audit_valid_def logged_events_def chained_head [symmetric])
  from audit_chain.heads_determine_entries [OF _ _ _ this] assms(1,7)
  show ?thesis
    by (auto 0 4 simp: hashed_inputs_def chain_link_def)
qed

text \<open>The first \<open>n\<close> entries of a log, with the anchor set to match. Making them takes no key.\<close>

definition truncated :: "nat \<Rightarrow> AuditTables \<Rightarrow> AuditTables" where
  "truncated n t = t\<lparr>at_log := take n (by_id t),
     at_anchor := Some (chain_head zero_hash (take n (by_id t)), 0)\<rparr>"

lemma by_id_truncated: "by_id (truncated n t) = take n (by_id t)"
proof -
  have "sorted (map ar_id (take n (by_id t)))"
    by (simp add: by_id_def sorted_wrt_take flip: take_map)
  then show ?thesis by (simp add: by_id_def truncated_def sort_key_id_if_sorted)
qed

text \<open>
  The anchor does not detect truncation by whoever can write the database. It is not
  authenticated: cut any verifying log after any number of entries, copy the hash stored in the
  last entry kept into the anchor, and the log verifies again.
\<close>

theorem truncation_undetected:
  assumes "sodium_spec so" and "verifyAuditChain so st1 st2 (Some t) key = Inr r" and "vr_ok r"
  shows "\<exists>res. verifyAuditChain so SqlOk SqlOk (Some (truncated n t)) key = Inr res \<and> vr_ok res"
proof -
  have "chained so key zero_hash (take n (by_id t))"
    using verified_valid [OF assms] chained_append [of so key zero_hash "take n (by_id t)" "drop n (by_id t)"]
    by (simp add: audit_valid_def)
  then have "audit_valid so key (truncated n t)"
    by (simp add: audit_valid_def by_id_truncated) (simp add: truncated_def)
  then show ?thesis using verify_healthy [OF assms(1)] by blast
qed

theorem truncation_undetected_witness:
  "\<exists>res. verifyAuditChain toy_sodium SqlOk SqlOk (Some (truncated 0 demo_log)) [1] = Inr res \<and> vr_ok res"
  by (rule demo_log_verifies) (rule truncation_undetected [OF toy_sodium_spec])

theorem anchor_determines_history_witness:
  "logged_events demo_log = logged_events (truncated 1 demo_log) \<or>
    (\<exists>x\<in>hashed_inputs toy_sodium [1] demo_log. \<exists>y\<in>hashed_inputs toy_sodium [1] (truncated 1 demo_log).
      hmac_collision toy_sodium ([1], x) ([1], y)) \<or>
    (\<exists>x\<in>hashed_inputs toy_sodium [1] demo_log \<union> hashed_inputs toy_sodium [1] (truncated 1 demo_log).
      so_hmac toy_sodium [1] x = zero_hash)"
proof -
  let ?u = "truncated 1 demo_log"
  obtain r where r: "verifyAuditChain toy_sodium SqlOk SqlOk (Some demo_log) [1] = Inr r" "vr_ok r"
    by (rule demo_log_verifies)
  have one: "take (Suc 0) (by_id demo_log) = by_id demo_log"
    using demo_log_logged by (cases "by_id demo_log") (simp_all add: logged_events_def)
  have u: "audit_valid toy_sodium [1] ?u"
    using verified_valid [OF toy_sodium_spec r]
    by (simp add: audit_valid_def by_id_truncated one) (simp add: truncated_def one)
  then obtain q where q: "verifyAuditChain toy_sodium SqlOk SqlOk (Some ?u) [1] = Inr q" "vr_ok q"
    using verify_healthy [OF toy_sodium_spec] by blast
  have "map_option fst (at_anchor demo_log) = map_option fst (at_anchor ?u)"
    using verified_valid [OF toy_sodium_spec r] u by (auto simp: audit_valid_def by_id_truncated one)
  moreover have "logged_events ?u = logged_events demo_log"
    by (simp add: logged_events_def by_id_truncated one)
  then have "\<forall>e\<in>set (logged_events demo_log @ logged_events ?u). texts_short e"
    by (simp add: demo_log_logged texts_short_def readback_def demo_audit_event_def c_str_def nul_def char_of_def)
  ultimately show ?thesis
    by (rule anchor_determines_history [OF toy_sodium_spec r q])
qed

section \<open>What breaks the chain\<close>

lemma invalid_rejected:
  "sodium_spec so \<Longrightarrow> \<not> audit_valid so key t \<Longrightarrow>
     \<exists>res. verifyAuditChain so SqlOk SqlOk (Some t) key = Inr res \<and> \<not> vr_ok res"
  using verify_healthy by blast

lemma readback_nul_free: "event_nul_free (readback e)"
  by (simp add: readback_def event_nul_free_def)

text \<open>An event with a NUL is hashed whole and stored cut: the log no longer verifies, or the two
  forms of the event collide.\<close>

theorem nul_event_breaks_chain:
  assumes "sodium_spec so" and "sl_chainEnabled lg" and "\<not> event_nul_free e" and "texts_short e"
  shows "(\<exists>res. verifyAuditChain so SqlOk SqlOk (Some (with_entry so lg e (last_entry_hash t) t)) (sl_key lg) = Inr res
            \<and> \<not> vr_ok res) \<or>
    hmac_collision so (sl_key lg, link_data (last_entry_hash t) e)
      (sl_key lg, link_data (last_entry_hash t) (readback e))"
proof (cases "audit_valid so (sl_key lg) (with_entry so lg e (last_entry_hash t) t)")
  case False
  then show ?thesis using invalid_rejected [OF assms(1)] by blast
next
  case True
  then have "chain_link so (sl_key lg) (last_entry_hash t) e =
      chain_link so (sl_key lg) (last_entry_hash t) (readback e)"
    using assms(2) by (simp add: audit_valid_def with_entry_def Let_def chained_snoc
        last_entry_hash_head computeEntryHash_eq)
  moreover have "readback e \<noteq> e" using readback_nul_free [of e] assms(3) by metis
  moreover have "texts_short (readback e)"
    using assms(4) by (auto simp: texts_short_def readback_def c_str_def intro: le_less_trans [OF length_takeWhile_le])
  ultimately have "link_data (last_entry_hash t) e \<noteq> link_data (last_entry_hash t) (readback e)"
    using event_bytes_inject [OF assms(4)] by (simp add: link_data_def)
  with \<open>chain_link so _ _ e = _\<close> show ?thesis by (simp add: hmac_collision_def chain_link_def)
qed

text \<open>A log written with the chain disabled does not verify, unless the code of its first entry is
  all zeros.\<close>

theorem disabled_chain_rejected:
  assumes "sodium_spec so" and "\<not> sl_chainEnabled lg" and "at_log t = []"
    and "so_hmac so key (link_data zero_hash (readback e)) \<noteq> zero_hash"
  shows "\<exists>res. verifyAuditChain so SqlOk SqlOk (Some (with_entry so lg e p t)) key = Inr res \<and> \<not> vr_ok res"
proof (rule invalid_rejected [OF assms(1)])
  have "by_id t = []" by (simp add: assms(3))
  then show "\<not> audit_valid so key (with_entry so lg e p t)"
    using assms(2,4) by (auto simp: audit_valid_def with_entry_def chain_link_def chained_snoc simp del: by_id_eq_Nil)
qed

text \<open>A look-up of the last entry that fails in its step is taken for an empty log: the append
  succeeds, and links the new entry to the start of the chain.\<close>

theorem failed_lookup_breaks_chain:
  assumes "sodium_spec so" and "sl_chainEnabled lg" and "last_entry_hash t \<noteq> zero_hash"
  shows "\<exists>c. audit_append so lg (healthy\<lparr>as_last := StepFailsAfter 0\<rparr>) e \<lparr>ac_tables = t, ac_saved = None\<rparr> = (Inr (), c) \<and>
    (\<exists>res. verifyAuditChain so SqlOk SqlOk (Some (ac_tables c)) (sl_key lg) = Inr res \<and> \<not> vr_ok res)"
proof -
  have "audit_append so lg (healthy\<lparr>as_last := StepFailsAfter 0\<rparr>) e \<lparr>ac_tables = t, ac_saved = None\<rparr> =
      (Inr (), \<lparr>ac_tables = with_entry so lg e zero_hash t, ac_saved = None\<rparr>)"
    using assms(2) by (simp add: audit_append_def append_body_def with_entry_def bindM_apply audit_sql_defs
        Let_def try_rethrow_def healthy_def)
  moreover have "\<not> audit_valid so (sl_key lg) (with_entry so lg e zero_hash t)"
    using assms(2,3) by (simp add: audit_valid_def with_entry_def Let_def chained_snoc last_entry_hash_head)
  ultimately show ?thesis using invalid_rejected [OF assms(1)] by simp
qed

end
