(* ===== verification/Engine_Audit.thy ===== *)
theory Engine_Audit
  imports Engine_Properties Audit_Chain
begin

text \<open>
  The decision engine on top of the hash-chained audit log: every text the engine logs is free of
  NULs, so the log it leaves verifies, and it accounts for the decisions one by one.
\<close>

section \<open>The log as the engine's sink\<close>

definition sqlite_audit :: "sodium \<Rightarrow> SqliteAuditLog \<Rightarrow> AuditConn IAuditLog" where
  "sqlite_audit so lg = \<lparr>al_append = audit_append so lg healthy\<rparr>"

lemma last_entry_hash_with_entry:
  "last_entry_hash (with_entry so lg e p t) =
     (if sl_chainEnabled lg then computeEntryHash so lg p e else zero_hash)"
  by (simp add: last_entry_hash_head with_entry_def Let_def)

interpretation sqlite_log: total_sink "audit_append so lg healthy"
  "\<lambda>c. sodium_spec so \<and> ac_saved c = None \<and> length (last_entry_hash (ac_tables c)) = 32"
  "\<lambda>c. logged_events (ac_tables c)" "\<lambda>_. readback"
  by unfold_locales
    (auto simp: audit_append_healthy logged_with_entry last_entry_hash_with_entry computeEntryHash_eq
      chain_link_def sodium_hmac_length)

section \<open>What the engine logs\<close>

lemma nul_char: "nul = CHR 0x00"
  by (simp add: nul_def char_of_def)

lemma reject_reasons_nul_free: "r \<in> reject_reasons \<Longrightarrow> nul \<notin> set r"
  unfolding reject_reasons_def by (elim insertE) (simp_all add: nul_char)

lemma handled_reason_nul_free:
  assumes "handle so rnd now fh bs ws = (Inr hr, ws')"
  shows "nul \<notin> set (hr_reason hr)"
  using assms
  by (rule_tac handle_cases [of so rnd now fh bs ws])
    (auto simp: handle_accepts nul_char dest: reject_reasons_nul_free [unfolded nul_char])

lemma resolved_nul_free: "resolveCardHmac env eng store card_id kv = Inr (cid, ro) \<Longrightarrow> nul \<notin> set cid"
  by (auto simp: resolveCardHmac_def Let_def bindR_Inr_iff hmacHex_def nul_notin_toHex split: if_splits)

lemma policy_verdict_nul_free:
  assumes "policy_verdict env eng h rq = Inr (r, cid, act)"
  shows "nul \<notin> set (de_reason r) \<and> nul \<notin> set cid \<and> nul \<notin> set act"
proof -
  have "resolveCardHmac env eng store card_id kv \<noteq> Inr (cid, ro)" if "nul \<in> set cid" for store card_id kv ro
    using that resolved_nul_free by blast
  then have "nul \<notin> set cid"
    using assms by (auto simp: policy_verdict_def bindR_Inr_iff checkRoleAccess_def nul_char
        split: option.splits if_splits)
  with assms show ?thesis
    by (auto simp: policy_verdict_def createDeniedResult_def bindR_Inr_iff checkRoleAccess_def nul_char
        split: option.splits if_splits)
qed

lemma verdict_nul_free:
  assumes "verdict env eng od hr = Inr (r, cid, act)" and "nul \<notin> set (hr_reason hr)"
  shows "event_nul_free (make_audit_event h (de_allow r) (de_reason r) cid act)"
  using assms
  by (auto simp: event_nul_free_def make_audit_event_def verdict_def late_verdict_def
      createDeniedResult_def dest: policy_verdict_nul_free split: if_splits sum.splits)
    (simp_all add: nul_char)

section \<open>Accounting\<close>

text \<open>A run of the engine: calls with the store of the moment and the bytes received, and the
  decisions returned.\<close>

fun engine_answers ::
    "engine_env \<Rightarrow> 'a DecisionEngine \<Rightarrow> (IAccessStore option \<times> bytes) list \<Rightarrow> 'a engine_state \<Rightarrow>
     DecisionResult list \<times> 'a engine_state" where
  "engine_answers env eng [] s = ([], s)"
| "engine_answers env eng ((store, bs) # cs) s =
     (case handleFrameBytes env (eng\<lparr>de_store := store\<rparr>) bs s of
        (Inl _, s) \<Rightarrow> engine_answers env eng cs s
      | (Inr r, s) \<Rightarrow> (case engine_answers env eng cs s of (rs, s) \<Rightarrow> (r # rs, s)))"

text \<open>The state of the log between two calls.\<close>

definition log_ready :: "sodium \<Rightarrow> SqliteAuditLog \<Rightarrow> AuditConn \<Rightarrow> bool" where
  "log_ready so lg c \<longleftrightarrow> ac_saved c = None \<and> audit_valid so (sl_key lg) (ac_tables c) \<and>
     length (last_entry_hash (ac_tables c)) = 32"

lemma log_ready_append:
  assumes "sodium_spec so" and "sl_chainEnabled lg" and "log_ready so lg c" and "event_nul_free e"
  shows "fst (audit_append so lg healthy e c) = Inr ()"
    and "log_ready so lg (snd (audit_append so lg healthy e c))"
    and "logged_events (ac_tables (snd (audit_append so lg healthy e c))) = logged_events (ac_tables c) @ [e]"
  using assms
  by (auto simp: log_ready_def audit_append_healthy with_entry_valid last_entry_hash_with_entry
      computeEntryHash_eq chain_link_def sodium_hmac_length logged_with_entry readback_id)

lemma engine_call_logged:
  assumes "sodium_spec (en_sodium env)" and "bus_ok s" and "es_audit s = Some c"
    and "de_audit eng = sqlite_audit (en_sodium env) lg" and "sl_chainEnabled lg"
    and "log_ready (en_sodium env) lg c"
  obtains (throws) x s' where "handleFrameBytes env eng bs s = (Inl x, s')" and "bus_ok s'" and "es_audit s' = Some c"
  | (decides) r s' c' e where "handleFrameBytes env eng bs s = (Inr r, s')" and "bus_ok s'" and "es_audit s' = Some c'"
      and "log_ready (en_sodium env) lg c'"
      and "logged_events (ac_tables c') = logged_events (ac_tables c) @ [e]"
      and "ae_allow e = de_allow r" and "ae_reason e = de_reason r"
proof -
  have "audit_ok eng (es_audit s)"
    using assms(3-6) by (simp add: audit_ok_def sqlite_audit_def log_ready_def audit_append_healthy)
  then show thesis
  proof (cases rule: engine_cases [OF assms(1,2), of eng bs, case_names audit store policy decision])
    case (store e ws)
    then show thesis using that(1) assms(2,3) by (simp add: bus_ok_windows)
  next
    case (policy hr ws e s')
    then show thesis using that(1) assms(3) by simp
  next
    case (decision hr ws v s')
    let ?e = "make_audit_event (hr_header hr) (de_allow (fst v)) (de_reason (fst v)) (fst (snd v)) (snd (snd v))"
    have "event_nul_free ?e"
      using verdict_nul_free [of env eng _ hr "fst v" "fst (snd v)" "snd (snd v)"] decision(2) handled_reason_nul_free [OF decision(1)] by simp
    note app = log_ready_append [OF assms(1,5,6) this]
    show thesis
      by (rule that(2) [OF decision(3,4) _ app(2,3)])
        (use decision(6) assms(3,4) in \<open>simp_all add: audit_after_append sqlite_audit_def make_audit_event_def\<close>)
  qed
qed

lemma engine_answers_logged:
  assumes "sodium_spec (en_sodium env)" and "de_audit eng = sqlite_audit (en_sodium env) lg" and "sl_chainEnabled lg"
    and "bus_ok s" and "es_audit s = Some c" and "log_ready (en_sodium env) lg c"
  shows "\<exists>c' es. es_audit (snd (engine_answers env eng cs s)) = Some c' \<and> log_ready (en_sodium env) lg c' \<and>
    logged_events (ac_tables c') = logged_events (ac_tables c) @ es \<and>
    map (\<lambda>e. (ae_allow e, ae_reason e)) es = map (\<lambda>r. (de_allow r, de_reason r)) (fst (engine_answers env eng cs s))"
  using assms(4-6)
proof (induction cs arbitrary: s c)
  case (Cons call cs)
  obtain store bs where call: "call = (store, bs)" by (cases call)
  have audit: "de_audit (eng\<lparr>de_store := store\<rparr>) = sqlite_audit (en_sodium env) lg" using assms(2) by simp
  show ?case
  proof (rule engine_call_logged [OF assms(1) Cons.prems(1,2) audit assms(3) Cons.prems(3), of bs])
    fix x s' assume "handleFrameBytes env (eng\<lparr>de_store := store\<rparr>) bs s = (Inl x, s')" "bus_ok s'" "es_audit s' = Some c"
    then show ?thesis using Cons.IH [of s' c] Cons.prems(3) by (simp add: call)
  next
    fix r s' c' e
    assume run: "handleFrameBytes env (eng\<lparr>de_store := store\<rparr>) bs s = (Inr r, s')" and s': "bus_ok s'" "es_audit s' = Some c'"
      "log_ready (en_sodium env) lg c'"
      and logged: "logged_events (ac_tables c') = logged_events (ac_tables c) @ [e]"
      and e: "ae_allow e = de_allow r" "ae_reason e = de_reason r"
    from Cons.IH [OF s'] obtain d es where "es_audit (snd (engine_answers env eng cs s')) = Some d"
      "log_ready (en_sodium env) lg d" "logged_events (ac_tables d) = logged_events (ac_tables c') @ es"
      "map (\<lambda>e. (ae_allow e, ae_reason e)) es = map (\<lambda>r. (de_allow r, de_reason r)) (fst (engine_answers env eng cs s'))"
      by blast
    then show ?thesis
      by (intro exI [of _ d] exI [of _ "e # es"]) (auto simp: call run logged e split: prod.splits)
  qed
qed simp

text \<open>
  C6: the audit trail accounts for every decision. Let the engine write to a hash-chained log opened
  on a fresh database, with SQLite working, and let it receive any bytes while the store changes in
  any way. Then the log verifies, and its entries are, one by one and in order, the verdicts and
  reasons of the decisions returned: nothing a sender can put into a frame breaks the chain.
\<close>

theorem audit_trail_accounts:
  assumes "sodium_spec (en_sodium env)" and "bus_ok s"
    and "SqliteAuditLog_init None key True (Some \<lparr>ac_tables = no_audit_tables, ac_saved = None\<rparr>) = (Inr lg, Some c)"
    and "de_audit eng = sqlite_audit (en_sodium env) lg" and "es_audit s = Some c"
    and "engine_answers env eng cs s = (rs, s')"
  shows "\<exists>c' res. es_audit s' = Some c' \<and>
    verifyAuditChain (en_sodium env) SqlOk SqlOk (Some (ac_tables c')) key = Inr res \<and> vr_ok res \<and>
    map (\<lambda>e. (ae_allow e, ae_reason e)) (logged_events (ac_tables c')) =
      map (\<lambda>r. (de_allow r, de_reason r)) rs"
proof -
  note lg = fresh_log [OF assms(3)]
  have ready: "log_ready (en_sodium env) lg c"
    using lg(1,2,4,5) by (simp add: log_ready_def last_entry_hash_def)
  have chain: "sl_chainEnabled lg" and logged: "logged_events (ac_tables c) = []"
    using lg(1,3,4) by simp_all
  obtain c' es where c': "es_audit s' = Some c'" "log_ready (en_sodium env) lg c'"
    "logged_events (ac_tables c') = es"
    "map (\<lambda>e. (ae_allow e, ae_reason e)) es = map (\<lambda>r. (de_allow r, de_reason r)) rs"
    using engine_answers_logged [OF assms(1,4) chain assms(2,5) ready, of cs] logged by (auto simp: assms(6))
  moreover obtain res where "verifyAuditChain (en_sodium env) SqlOk SqlOk (Some (ac_tables c')) key = Inr res" "vr_ok res"
    using verify_healthy [OF assms(1), of "ac_tables c'" key] c'(2) lg(1) by (auto simp: log_ready_def)
  ultimately show ?thesis by blast
qed

definition demo_chain_log :: SqliteAuditLog where
  "demo_chain_log = \<lparr>sl_key = [1], sl_chainEnabled = True\<rparr>"

definition demo_audited_engine :: "AuditConn DecisionEngine" where
  "demo_audited_engine = \<lparr>de_store = Some demo_store, de_hasher = CardIdHasher_init [],
     de_audit = sqlite_audit toy_sodium demo_chain_log, de_keyManager = fh_keyManager demo_handler,
     de_frameHandlerCfg = fh_config demo_handler\<rparr>"

definition demo_audited_state :: "AuditConn engine_state" where
  "demo_audited_state = \<lparr>es_windows = (\<lambda>_. None), es_detector = None,
     es_audit = Some \<lparr>ac_tables = \<lparr>at_log = [], at_sequence = 0, at_anchor = Some (zero_hash, 0)\<rparr>, ac_saved = None\<rparr>,
     es_events = Some (EventBus_init 8), es_ticks = 0\<rparr>"

theorem audit_trail_accounts_witness:
  "\<exists>c' res. es_audit (snd (engine_answers demo_env demo_audited_engine [(None, [1]), (Some demo_store, demo_frame [9])] demo_audited_state)) = Some c' \<and>
    verifyAuditChain (en_sodium demo_env) SqlOk SqlOk (Some (ac_tables c')) [1] = Inr res \<and> vr_ok res \<and>
    map (\<lambda>e. (ae_allow e, ae_reason e)) (logged_events (ac_tables c')) =
      map (\<lambda>r. (de_allow r, de_reason r))
        (fst (engine_answers demo_env demo_audited_engine [(None, [1]), (Some demo_store, demo_frame [9])] demo_audited_state))"
proof (rule audit_trail_accounts [where lg = demo_chain_log and s = demo_audited_state
      and cs = "[(None, [1]), (Some demo_store, demo_frame [9])]"])
  show "sodium_spec (en_sodium demo_env)" by (rule demo_ok)
  show "bus_ok demo_audited_state"
    by (simp add: bus_ok_def demo_audited_state_def bus_inv_def EventBus_init_def)
  show "SqliteAuditLog_init None [1] True (Some \<lparr>ac_tables = no_audit_tables, ac_saved = None\<rparr>) =
      (Inr demo_chain_log, Some \<lparr>ac_tables = \<lparr>at_log = [], at_sequence = 0, at_anchor = Some (zero_hash, 0)\<rparr>, ac_saved = None\<rparr>)"
    by (simp add: SqliteAuditLog_init_def audit_initSchema_def no_audit_tables_def demo_chain_log_def)
  show "de_audit demo_audited_engine = sqlite_audit (en_sodium demo_env) demo_chain_log"
    by (simp add: demo_audited_engine_def demo_env_def)
  show "es_audit demo_audited_state =
      Some \<lparr>ac_tables = \<lparr>at_log = [], at_sequence = 0, at_anchor = Some (zero_hash, 0)\<rparr>, ac_saved = None\<rparr>"
    by (simp add: demo_audited_state_def)
qed (rule prod.collapse [symmetric])

end
