(* ===== verification/Admin_State.thy ===== *)
theory Admin_State
  imports Config_Loader Engine_Audit
begin

text \<open>
  \<^verbatim>\<open>access_admin/src/app_state.cpp\<close> and the SQLite and clock helpers of \<^verbatim>\<open>http_utils.cpp\<close>: the state
  of the admin server, opening its database and importing an uploaded one. The three objects
  behind unique pointers are options; using one that is null has no defined behaviour. What the
  outside world answers during one request (SQLite, the file system, random bytes, the remote
  decision service) is the argument \<open>env\<close>.
\<close>

section \<open>The environment of a request\<close>

text \<open>What is found in a database file.\<close>

record db_image =
  im_access :: "Database option"
  im_audit :: AuditTables

definition fresh_image :: db_image where
  "fresh_image = \<lparr>im_access = None, im_audit = no_audit_tables\<rparr>"

text \<open>The outcome of \<^verbatim>\<open>PRAGMA integrity_check\<close>: it cannot be prepared, its step gives no row, or a
  row with a text (NULL is \<open>None\<close>).\<close>

datatype integrity = IntegrityPrepareFails | IntegrityNoRow | IntegrityRow "string option"

text \<open>An uploaded file: whether it opens, its integrity check, its contents, the statuses of the
  two queries of the audit verification, the error of copying it over the database, and whether a
  copy that fails has already cut off or overwritten what was there.\<close>

record upload =
  up_integrity_opens :: bool
  up_verify_opens :: bool
  up_integrity :: integrity
  up_image :: db_image
  up_rows :: sql_status
  up_anchor :: sql_status
  up_copy_error :: "string option"
  up_copy_damages :: bool

text \<open>The failures that can stop \<^verbatim>\<open>openOrCreate\<close>, in its order.\<close>

record open_status =
  os_directories :: "string option"
  os_open :: "string option"
  os_schema :: "string option"
  os_audit_schema :: "string option"

definition opens_fine :: open_status where
  "opens_fine = \<lparr>os_directories = None, os_open = None, os_schema = None, os_audit_schema = None\<rparr>"

text \<open>\<open>av_salvaged\<close> is what SQLite reads from a database file that a broken copy has left.\<close>

record admin_env =
  av_engine :: engine_env
  av_query :: "store_query \<Rightarrow> sql_status"
  av_stmt :: sql_status
  av_append :: append_status
  av_rows :: sql_status
  av_anchor :: sql_status
  av_open :: open_status
  av_upload :: upload
  av_file :: "string option"
  av_rnd_prefix :: bytes
  av_rnd_nonce :: bytes
  av_sodium_init :: bool
  av_http :: "nat \<Rightarrow> (int \<times> string) option"
  av_vectorMax :: nat
  av_salvaged :: db_image

section \<open>The state\<close>

record AppState =
  app_cfg :: Config
  app_dbPath :: string
  app_events :: EventBus
  app_keyManager :: KeyManager
  app_anomalyDetector :: ProtocolAnomalyDetector
  app_store :: "(Database \<times> AuditConn) option"
  app_audit :: "SqliteAuditLog option"
  app_engine :: "(CardIdHasher \<times> FrameHandlerConfig) option"
  app_replayByReader :: ReplayWindowMap
  app_ticks :: nat
  app_file :: "db_image option"

text \<open>\<open>app_file\<close> is what the database file holds while no store is open on it, \<open>None\<close> if that is only a
  part of a database. While a store is open the file holds its tables and what is committed of the
  audit log.\<close>

definition database_file :: "AppState \<Rightarrow> db_image option" where
  "database_file app = (case app_store app of
     Some (db, conn) \<Rightarrow> Some \<lparr>im_access = Some db, im_audit = committed conn\<rparr>
   | None \<Rightarrow> app_file app)"

definition AppState_init :: "Config \<Rightarrow> string \<Rightarrow> KeyManager \<Rightarrow> AppState" where
  "AppState_init c db km =
     \<lparr>app_cfg = c, app_dbPath = db, app_events = EventBus_init (adm_maxEvents (cf_admin c)),
      app_keyManager = km,
      app_anomalyDetector = ProtocolAnomalyDetector_init
        \<lparr>dc_enabled = ex_misuseDetectionEnabled (cf_experiment c),
         dc_rollbackThreshold = ex_rollbackThreshold (cf_experiment c),
         dc_tagFailStreakLimit = ex_tagFailStreakLimit (cf_experiment c)\<rparr>,
      app_store = None, app_audit = None, app_engine = None, app_replayByReader = (\<lambda>_. None),
      app_ticks = 0, app_file = None\<rparr>"

definition app_now :: "admin_env \<Rightarrow> (AppState, u64) prog" where
  "app_now env app = (Inr (en_clock (av_engine env) (app_ticks app)), app\<lparr>app_ticks := Suc (app_ticks app)\<rparr>)"

definition app_push :: "Event \<Rightarrow> (AppState, unit) prog" where
  "app_push e app =
     (case push e (app_events app) of
        (Inl x, bus) \<Rightarrow> (Inl x, app\<lparr>app_events := bus\<rparr>)
      | (Inr _, bus) \<Rightarrow> (Inr (), app\<lparr>app_events := bus\<rparr>))"

text \<open>\<^verbatim>\<open>app.events.push({.ts_unix_ms = nowUnixMs(), .kind = ..., .message = ..., ...})\<close>.\<close>

definition app_event :: "admin_env \<Rightarrow> string \<Rightarrow> string \<Rightarrow> u32 \<Rightarrow> u32 \<Rightarrow> u64 \<Rightarrow> (AppState, unit) prog" where
  "app_event env kind message reader_id door_id sq =
     bindM (app_now env) (\<lambda>t. app_push (default_Event\<lparr>ev_ts_unix_ms := t, ev_kind := kind,
       ev_message := message, ev_reader_id := reader_id, ev_door_id := door_id, ev_seq := sq\<rparr>))"

section \<open>Opening the database\<close>

definition deriveAuditHash :: "sodium \<Rightarrow> KeyManager \<Rightarrow> bytes result" where
  "deriveAuditHash so km =
     bindR (deriveAuditHmacKey so km) (\<lambda>auditKey. Inr (memcpy_at (replicate 32 0) 0 auditKey))"

definition throw_if :: "string option \<Rightarrow> ('s, unit) prog" where
  "throw_if err = (case err of Some m \<Rightarrow> throwM (RuntimeError m) | None \<Rightarrow> returnM ())"

definition engine_config :: "Config \<Rightarrow> FrameHandlerConfig" where
  "engine_config cfg =
     (let ex = cf_experiment cfg; fhCfg = cf_frameHandler cfg;
          fhCfg = fhCfg\<lparr>fh_keyDerivationMode := ex_keyDerivationMode ex\<rparr>;
          fhCfg = fhCfg\<lparr>fh_aadMode := ex_aadMode ex\<rparr>;
          fhCfg = fhCfg\<lparr>fh_pepperMode := ex_pepperMode ex\<rparr>;
          fhCfg = fhCfg\<lparr>fh_cipherMode := ex_cipherMode ex\<rparr>;
          fhCfg = fhCfg\<lparr>fh_nonceMode := ex_nonceMode ex\<rparr>
      in fhCfg)"

text \<open>The new store is assigned before its schema is made, the new audit log before the engine.\<close>

definition open_store :: "admin_env \<Rightarrow> db_image \<Rightarrow> (AppState, unit) prog" where
  "open_store env found =
     bindM (throw_if (os_open (av_open env))) (\<lambda>_.
     bindM (\<lambda>app. (Inr (), app\<lparr>app_store := Some (initSchema (im_access found),
        \<lparr>ac_tables = im_audit found, ac_saved = None\<rparr>)\<rparr>)) (\<lambda>_.
     throw_if (os_schema (av_open env))))"

definition open_audit :: "admin_env \<Rightarrow> (AppState, unit) prog" where
  "open_audit env app =
     (case deriveAuditHash (en_sodium (av_engine env)) (app_keyManager app) of
        Inl e \<Rightarrow> (Inl e, app)
      | Inr h \<Rightarrow>
        (case SqliteAuditLog_init (os_audit_schema (av_open env)) h
                (ex_auditChainEnabled (cf_experiment (app_cfg app))) (map_option snd (app_store app)) of
           (Inl e, _) \<Rightarrow> (Inl e, app)
         | (Inr lg, conn) \<Rightarrow> (Inr (), app\<lparr>app_audit := Some lg,
             app_store := (case (app_store app, conn) of
                 (Some (db, _), Some c) \<Rightarrow> Some (db, c) | _ \<Rightarrow> app_store app)\<rparr>)))"

definition open_engine :: "admin_env \<Rightarrow> (AppState, unit) prog" where
  "open_engine env app =
     (case deriveCardPepper (en_sodium (av_engine env)) (app_keyManager app)
             (kmy_currentKeyVersion (cf_keyManagement (app_cfg app))) of
        Inl e \<Rightarrow> (Inl e, app)
      | Inr pepper \<Rightarrow> (Inr (), app\<lparr>app_engine := Some (CardIdHasher_init pepper, engine_config (app_cfg app))\<rparr>))"

definition openOrCreate :: "admin_env \<Rightarrow> db_image \<Rightarrow> (AppState, unit) prog" where
  "openOrCreate env found =
     bindM (throw_if (os_directories (av_open env))) (\<lambda>_.
     bindM (open_store env found) (\<lambda>_.
     bindM (open_audit env) (\<lambda>_.
     bindM (open_engine env) (\<lambda>_ app.
       app_event env ''admin'' (''storage opened: '' @ app_dbPath app) 0 0 0 app))))"

text \<open>\<^verbatim>\<open>main\<close> up to the point where the servers listen; an exception ends the program. \<open>databases\<close>
  is what a path to a database file holds.\<close>

definition sodiumInitOrThrow :: "bool \<Rightarrow> unit result" where
  "sodiumInitOrThrow init_ok = (if \<not> init_ok then Inl (RuntimeError ''libsodium init failed'') else Inr ())"

definition server_start ::
    "admin_env \<Rightarrow> 'n yaml_lib \<Rightarrow> (string \<Rightarrow> string option) \<Rightarrow> (string \<Rightarrow> db_image) \<Rightarrow> string \<Rightarrow> AppState result" where
  "server_start env yl files databases cfgPath =
     bindR (sodiumInitOrThrow (av_sodium_init env)) (\<lambda>_.
     bindR (loadFromYaml yl cfgPath) (\<lambda>cfg.
     bindR (loadMasterKeyHexFile files (kmy_masterKeyPath (cf_keyManagement cfg))) (\<lambda>master.
     bindR (KeyManager_init master \<lparr>kc_currentKeyVersion = kmy_currentKeyVersion (cf_keyManagement cfg),
       kc_allowPreviousKeyVersion = kmy_allowPreviousKeyVersion (cf_keyManagement cfg)\<rparr>) (\<lambda>km.
     (let path = sc_sqlitePath (cf_storage cfg) in
      fst (bindM (openOrCreate env (databases path)) (\<lambda>_ app. (Inr app, app)) (AppState_init cfg path km)))))))"

section \<open>Importing a database\<close>

text \<open>\<open>None\<close> is a positive answer, else the error text.\<close>

definition sqliteIntegrityOk :: "upload \<Rightarrow> string option" where
  "sqliteIntegrityOk up =
     (if \<not> up_integrity_opens up then Some ''sqlite_open failed''
      else (case up_integrity up of
        IntegrityPrepareFails \<Rightarrow> Some ''prepare integrity_check failed''
      | IntegrityNoRow \<Rightarrow> Some ''integrity_check: no row''
      | IntegrityRow txt \<Rightarrow>
          (let v = (case txt of None \<Rightarrow> [] | Some t \<Rightarrow> c_str t) in
           if v = ''ok'' then None else Some (''integrity_check: '' @ v))))"

definition verifyUploadedAuditChain :: "sodium \<Rightarrow> upload \<Rightarrow> KeyManager \<Rightarrow> string option result" where
  "verifyUploadedAuditChain so up km =
     (if \<not> up_verify_opens up then Inr (Some ''sqlite_open(uploaded) failed'')
      else bindR (deriveAuditHash so km) (\<lambda>h.
        bindR (verifyAuditChain so (up_rows up) (up_anchor up) (Some (im_audit (up_image up))) h) (\<lambda>vr.
          if \<not> vr_ok vr then Inr (Some (''verifyAuditChain failed: '' @ vr_error vr)) else Inr None)))"

text \<open>The copy goes straight over the database; the backup made before is not used.\<close>

definition replaceDbFile :: "upload \<Rightarrow> (AppState, string option) prog" where
  "replaceDbFile up app =
     (case up_copy_error up of
        Some m \<Rightarrow> (Inr (Some (''failed to replace db: '' @ m)),
          app\<lparr>app_file := (if up_copy_damages up then None else app_file app)\<rparr>)
      | None \<Rightarrow> (Inr None, app\<lparr>app_file := Some (up_image up)\<rparr>))"

text \<open>\<^verbatim>\<open>importDbFile\<close> in its parts: the checks, the critical section that closes and replaces the
  database, and \<^verbatim>\<open>openOrCreate\<close>, which is a critical section of its own and opens what it finds.\<close>

definition import_check :: "admin_env \<Rightarrow> (AppState, string option) prog" where
  "import_check env app =
     (case sqliteIntegrityOk (av_upload env) of
        Some error \<Rightarrow> (Inr (Some error), app)
      | None \<Rightarrow> (verifyUploadedAuditChain (en_sodium (av_engine env)) (av_upload env) (app_keyManager app), app))"

definition import_replace :: "admin_env \<Rightarrow> (AppState, string option) prog" where
  "import_replace env app =
     replaceDbFile (av_upload env)
       (app\<lparr>app_file := database_file app, app_store := None, app_audit := None, app_engine := None\<rparr>)"

definition import_reopen :: "admin_env \<Rightarrow> (AppState, unit) prog" where
  "import_reopen env app =
     openOrCreate env (case database_file app of Some found \<Rightarrow> found | None \<Rightarrow> av_salvaged env) app"

definition importDbFile :: "admin_env \<Rightarrow> (AppState, string option) prog" where
  "importDbFile env =
     bindM (import_check env) (\<lambda>error.
       case error of
         Some error \<Rightarrow> returnM (Some error)
       | None \<Rightarrow>
         bindM (import_replace env) (\<lambda>error.
           case error of
             Some error \<Rightarrow> returnM (Some error)
           | None \<Rightarrow>
               bindM (import_reopen env) (\<lambda>_.
               bindM (app_event env ''admin'' ''db imported + reopened'' 0 0 0) (\<lambda>_.
               returnM None))))"

section \<open>Calling the engine\<close>

text \<open>A call of a method of the engine: the objects behind its pointers, its state and back.\<close>

definition with_engine ::
    "admin_env \<Rightarrow> (AuditConn DecisionEngine \<Rightarrow> (AuditConn engine_state, 'r) prog) \<Rightarrow> (AppState, 'r) prog" where
  "with_engine env method app =
     (case (app_engine app, app_store app, app_audit app) of
        (Some (hasher, fhCfg), Some (db, conn), Some lg) \<Rightarrow>
          (let so = en_sodium (av_engine env);
               eng = \<lparr>de_store = Some (SqliteAccessStore (av_query env) db), de_hasher = hasher,
                 de_audit = \<lparr>al_append = audit_append so lg (av_append env)\<rparr>,
                 de_keyManager = app_keyManager app, de_frameHandlerCfg = fhCfg\<rparr>
           in case method eng
               \<lparr>es_windows = app_replayByReader app, es_detector = Some (app_anomalyDetector app),
                es_audit = Some conn, es_events = Some (app_events app), es_ticks = app_ticks app\<rparr> of
             (r, s) \<Rightarrow> (r, app\<lparr>app_replayByReader := es_windows s,
                app_anomalyDetector := (case es_detector s of Some d \<Rightarrow> d | None \<Rightarrow> app_anomalyDetector app),
                app_store := Some (db, (case es_audit s of Some c \<Rightarrow> c | None \<Rightarrow> conn)),
                app_events := (case es_events s of Some b \<Rightarrow> b | None \<Rightarrow> app_events app),
                app_ticks := es_ticks s\<rparr>))
      | _ \<Rightarrow> (Inl UndefinedBehaviour, app))"

definition app_run_engine :: "admin_env \<Rightarrow> bytes \<Rightarrow> (AppState, DecisionResult) prog" where
  "app_run_engine env frameBytes = with_engine env (\<lambda>eng. handleFrameBytes (av_engine env) eng frameBytes)"

lemmas app_run_engine_unfold = app_run_engine_def with_engine_def

end
