(* ===== verification/Hw_Frames.thy ===== *)
theory Hw_Frames
  imports Protocol_Frame Key_Manager Json_Data
begin

text \<open>
  The pure part of \<^verbatim>\<open>access_admin/src/service/hw_service.cpp\<close>: the gateway that makes an encrypted
  frame out of a card reader's request, and the check of the reader's signature. Random bytes are
  arguments. What the gateway builds is shown to be a frame that the frame handler's side opens to
  the payload.
\<close>

section \<open>Building a frame\<close>

definition buildPayloadJson :: "json_lib \<Rightarrow> string \<Rightarrow> string \<Rightarrow> string result" where
  "buildPayloadJson jl uid action =
     jl_dump jl (JObject [(''action'', JString action), (''card_id'', JString uid)])"

definition buildPacketHeader :: "u32 \<Rightarrow> u32 \<Rightarrow> u64 \<Rightarrow> u32 \<Rightarrow> u64 \<Rightarrow> bytes \<Rightarrow> Header" where
  "buildPacketHeader reader_id door_id sq key_version ts_unix_ms nonce =
     empty_header\<lparr>h_reader_id := reader_id, h_door_id := door_id, h_ts_unix_ms := ts_unix_ms,
       h_seq := sq, h_key_version := key_version, h_nonce := nonce\<rparr>"

text \<open>The generator as its \<^verbatim>\<open>generate\<close>, with the random bytes it may draw.\<close>

definition createNonceGenerator ::
    "sodium \<Rightarrow> bytes \<Rightarrow> string \<Rightarrow> CipherMode \<Rightarrow> KeyManager \<Rightarrow> u32 \<Rightarrow> u32 \<Rightarrow> (bytes \<Rightarrow> bytes) result" where
  "createNonceGenerator so rnd nonceMode cm km reader_id key_version =
     (if nonceMode = ''random'' then Inr (\<lambda>_. RandomNonceGenerator_generate cm rnd)
      else bindR (deriveNonceKey so km reader_id key_version) (\<lambda>nonceKey.
        Inr (\<lambda>context. HmacNonceGenerator_generate so nonceKey cm context)))"

definition buildNonceContext :: "u32 \<Rightarrow> u32 \<Rightarrow> u64 \<Rightarrow> u64 \<Rightarrow> u32 \<Rightarrow> bytes" where
  "buildNonceContext reader_id door_id ts_unix_ms sq key_version =
     to_bytes (empty_header\<lparr>h_reader_id := reader_id, h_door_id := door_id, h_ts_unix_ms := ts_unix_ms,
       h_seq := sq, h_key_version := key_version, h_nonce := replicate 24 0\<rparr>)"

definition encryptAndSerialize ::
    "sodium \<Rightarrow> SecureAead \<Rightarrow> Header \<Rightarrow> string \<Rightarrow> bytes \<Rightarrow> string \<Rightarrow> bytes result" where
  "encryptAndSerialize so aead header payload_text nonce aadMode =
     (let aad = (if aadMode \<noteq> ''none'' then to_bytes header else []);
          pt = bytes_of_string payload_text
      in bindR (sealWithNonce so aead pt aad nonce) (\<lambda>c.
           Inr (serialize \<lparr>fr_header = header, fr_ct = c_ct c, fr_tag = c_tag c\<rparr>)))"

text \<open>\<open>rnd1\<close> is what the cipher object draws at construction, \<open>rnd2\<close> what a random nonce draws.\<close>

definition buildEncryptedFrameBytes ::
    "sodium \<Rightarrow> json_lib \<Rightarrow> bytes \<Rightarrow> bytes \<Rightarrow> KeyManager \<Rightarrow> u32 \<Rightarrow> u32 \<Rightarrow> u64 \<Rightarrow> u32 \<Rightarrow> u64 \<Rightarrow> string \<Rightarrow> string \<Rightarrow>
     string \<Rightarrow> string \<Rightarrow> string \<Rightarrow> string \<Rightarrow> bytes result" where
  "buildEncryptedFrameBytes so jl rnd1 rnd2 km reader_id door_id sq key_version ts_unix_ms uid action
       keyDerivationMode aadMode cipherMode nonceMode =
     bindR (buildPayloadJson jl uid action) (\<lambda>payloadText.
     bindR (if keyDerivationMode = ''direct'' then Inr (masterAsAeadKey km)
            else deriveAeadKey so km reader_id key_version) (\<lambda>aeadKey.
     (let cm = (if cipherMode = ''chacha20'' then ChaCha20Poly1305 else XChaCha20Poly1305);
          aead = SecureAead_init rnd1 aeadKey cm
      in bindR (createNonceGenerator so rnd2 nonceMode cm km reader_id key_version) (\<lambda>nonceGen.
         (let context = buildNonceContext reader_id door_id ts_unix_ms sq key_version;
              nonce = nonceGen context;
              header = buildPacketHeader reader_id door_id sq key_version ts_unix_ms nonce
          in encryptAndSerialize so aead header payloadText nonce aadMode)))))"

definition buildHwResponse :: "bool \<Rightarrow> string \<Rightarrow> u32 \<Rightarrow> u32 \<Rightarrow> u64 \<Rightarrow> u32 \<Rightarrow> json" where
  "buildHwResponse allow reason reader_id door_id sq key_version =
     JObject [(''allow'', JBool allow), (''door_id'', JWord door_id), (''key_version'', JWord key_version),
       (''reader_id'', JWord reader_id), (''reason'', JString reason), (''seq'', JWord sq)]"

section \<open>Signatures\<close>

text \<open>The parsers return the bytes or the error text.\<close>

definition parseHmacKey :: "string \<Rightarrow> string + bytes" where
  "parseHmacKey hex =
     (let key = hexToBytesLoose hex in
      if length key \<noteq> 32 then Inl ''bad_hw_secret_len'' else Inr key)"

definition parseSignature :: "string \<Rightarrow> string + bytes" where
  "parseSignature hex =
     (let sig = hexToBytesLoose hex in
      if length sig \<noteq> 32 then Inl ''bad_signature_len'' else Inr sig)"

definition verifyHmac :: "sodium \<Rightarrow> string \<Rightarrow> bytes \<Rightarrow> bytes \<Rightarrow> bool" where
  "verifyHmac so msg key expected_sig \<longleftrightarrow> so_hmac so key (bytes_of_string msg) = expected_sig"

definition hw_message :: "string \<Rightarrow> string" where
  "hw_message body = ''POST /api/hw/uid'' @ [CHR 0x0A] @ body"

text \<open>\<open>None\<close> when the signature is valid, else the error text. \<open>init_ok\<close> is \<^verbatim>\<open>sodium_init() >= 0\<close>.\<close>

definition verifyHwSignature :: "sodium \<Rightarrow> bool \<Rightarrow> string \<Rightarrow> string \<Rightarrow> string \<Rightarrow> string option" where
  "verifyHwSignature so init_ok signature_hex body hw_secret_hex =
     (if hw_secret_hex = [] then Some ''misconfigured''
      else if \<not> init_ok then Some ''sodium_init_failed''
      else if signature_hex = [] then Some ''missing_signature''
      else (case parseHmacKey hw_secret_hex of
        Inl err \<Rightarrow> Some err
      | Inr key \<Rightarrow> (case parseSignature signature_hex of
          Inl err \<Rightarrow> Some err
        | Inr sig \<Rightarrow>
            if \<not> verifyHmac so (hw_message body) key sig then Some ''bad_signature'' else None)))"

section \<open>Requests\<close>

record HwUidRequest =
  hw_uid :: string
  hw_reader_id :: u32
  hw_door_id :: u32
  hw_hw_seq :: u64
  hw_action :: string

text \<open>\<open>None\<close> for \<^verbatim>\<open>return false\<close>; only a conversion without defined behaviour is not caught.\<close>

definition parseHwUidRequest :: "json_lib \<Rightarrow> json \<Rightarrow> HwUidRequest option result" where
  "parseHwUidRequest jl j =
     (case bindR (json_at jl (if json_contains j ''uid'' then ''uid'' else ''card_id'') j) (\<lambda>v.
           bindR (json_string jl v) (\<lambda>uid.
           bindR (bindR (json_at jl ''reader_id'' j) (json_u32 jl)) (\<lambda>reader_id.
           bindR (bindR (json_at jl ''door_id'' j) (json_u32 jl)) (\<lambda>door_id.
           bindR (bindR (json_at jl ''hw_seq'' j) (json_u64 jl)) (\<lambda>hw_seq.
           bindR (json_value jl (json_string jl) ''action'' ''open'' j) (\<lambda>act.
             Inr \<lparr>hw_uid = uid, hw_reader_id = reader_id, hw_door_id = door_id, hw_hw_seq = hw_seq,
               hw_action = act\<rparr>)))))) of
        Inr req \<Rightarrow> Inr (Some req)
      | Inl UndefinedBehaviour \<Rightarrow> Inl UndefinedBehaviour
      | Inl _ \<Rightarrow> Inr None)"

section \<open>What the gateway builds\<close>

definition hw_cipher :: "string \<Rightarrow> CipherMode" where
  "hw_cipher cipherMode = (if cipherMode = ''chacha20'' then ChaCha20Poly1305 else XChaCha20Poly1305)"

definition hw_key :: "sodium \<Rightarrow> KeyManager \<Rightarrow> string \<Rightarrow> u32 \<Rightarrow> u32 \<Rightarrow> AeadKey result" where
  "hw_key so km keyDerivationMode reader_id key_version =
     (if keyDerivationMode = ''direct'' then Inr (masterAsAeadKey km)
      else deriveAeadKey so km reader_id key_version)"

text \<open>With libsodium as documented, a frame is built whenever the payload can be printed: a
  serialized frame that seals the payload under the nonce its header carries.\<close>

lemma nonceKey_ok: "sodium_spec so \<Longrightarrow> \<exists>k. deriveNonceKey so km r kv = Inr k"
  using derive_for_eq [of so "NonceKey r kv" km] by simp

lemma aeadKey_ok: "sodium_spec so \<Longrightarrow> \<exists>k. deriveAeadKey so km r kv = Inr k"
  using derive_for_eq [of so "FrameKey r kv" km] by simp

lemma hw_key_ok: "sodium_spec so \<Longrightarrow> \<exists>k. hw_key so km mode r kv = Inr k"
  using aeadKey_ok by (simp add: hw_key_def)

text \<open>The header of the frame for a request.\<close>

definition hw_header ::
    "sodium \<Rightarrow> bytes \<Rightarrow> KeyManager \<Rightarrow> string \<Rightarrow> string \<Rightarrow> u32 \<Rightarrow> u32 \<Rightarrow> u64 \<Rightarrow> u32 \<Rightarrow> u64 \<Rightarrow> Header result" where
  "hw_header so rnd2 km cipherMode nonceMode reader_id door_id sq kv ts =
     bindR (createNonceGenerator so rnd2 nonceMode (hw_cipher cipherMode) km reader_id kv) (\<lambda>gen.
       Inr (buildPacketHeader reader_id door_id sq kv ts (gen (buildNonceContext reader_id door_id ts sq kv))))"

lemma hw_header_ok:
  assumes "sodium_spec so"
  obtains h where "hw_header so rnd2 km cipherMode nonceMode r dr sq kv ts = Inr h" and "wf_header h"
    and "h_reader_id h = r" and "h_door_id h = dr" and "h_seq h = sq" and "h_key_version h = kv"
    and "h_ts_unix_ms h = ts"
proof -
  obtain k where "deriveNonceKey so km r kv = Inr k" using nonceKey_ok [OF assms] by blast
  with that assms show thesis
    by (cases "nonceMode = ''random''")
      (auto simp: hw_header_def createNonceGenerator_def buildPacketHeader_def wf_header_def empty_header_def)
qed

lemma buildEncryptedFrameBytes_ok:
  assumes "sodium_spec so" and "buildPayloadJson jl uid action = Inr text"
    and "hw_header so rnd2 km cipherMode nonceMode r dr sq kv ts = Inr h"
    and "hw_key so km keyDerivationMode r kv = Inr k"
  obtains ct tag where
    "buildEncryptedFrameBytes so jl rnd1 rnd2 km r dr sq kv ts uid action keyDerivationMode aadMode cipherMode nonceMode =
      Inr (serialize \<lparr>fr_header = h, fr_ct = ct, fr_tag = tag\<rparr>)"
    and "sealWithNonce so (SecureAead_init rnd1 k (hw_cipher cipherMode)) (bytes_of_string text)
      (if aadMode \<noteq> ''none'' then to_bytes h else []) (h_nonce h) = Inr \<lparr>c_ct = ct, c_tag = tag, c_nonce = h_nonce h\<rparr>"
    and "length ct = length text" and "length tag = 16"
proof -
  obtain gen where gen: "createNonceGenerator so rnd2 nonceMode (hw_cipher cipherMode) km r kv = Inr gen"
    and h: "h = buildPacketHeader r dr sq kv ts (gen (buildNonceContext r dr ts sq kv))"
    using assms(3) by (auto simp: hw_header_def bindR_Inr_iff)
  let ?aad = "if aadMode \<noteq> ''none'' then to_bytes h else []"
  obtain ct tag where seal: "sealWithNonce so (SecureAead_init rnd1 k (hw_cipher cipherMode)) (bytes_of_string text)
      ?aad (h_nonce h) = Inr \<lparr>c_ct = ct, c_tag = tag, c_nonce = h_nonce h\<rparr>"
    and len: "length ct = length text" "length tag = 16"
    using sealWithNonce_ok [OF assms(1), of "SecureAead_init rnd1 k (hw_cipher cipherMode)" "bytes_of_string text" ?aad "h_nonce h"]
    by auto
  have nonce: "h_nonce h = gen (buildNonceContext r dr ts sq kv)" by (simp add: h buildPacketHeader_def)
  have "buildEncryptedFrameBytes so jl rnd1 rnd2 km r dr sq kv ts uid action keyDerivationMode aadMode cipherMode nonceMode =
      encryptAndSerialize so (SecureAead_init rnd1 k (hw_cipher cipherMode)) h text (h_nonce h) aadMode"
    using assms(2,4) gen nonce
    by (simp add: buildEncryptedFrameBytes_def hw_key_def [symmetric] hw_cipher_def [symmetric] Let_def h [symmetric])
  also have "\<dots> = Inr (serialize \<lparr>fr_header = h, fr_ct = ct, fr_tag = tag\<rparr>)"
    using seal by (simp add: encryptAndSerialize_def Let_def)
  finally show thesis using that seal len by blast
qed

end
