(* ===== verification/Admin_Services.thy ===== *)
theory Admin_Services
  imports Admin_State Hw_Frames
begin

text \<open>
  \<^verbatim>\<open>access_admin/src/service\<close>: the services behind the HTTP endpoints, as state transformers over the
  server's state. The mutex of the state makes each of them one step; the hardware service holds it
  twice, for building the frame and for deciding on it.
\<close>

section \<open>Results\<close>

record ServiceResult =
  sr_ok :: bool
  sr_http_status :: int
  sr_body :: json

definition kHttpOk :: int where "kHttpOk = 200"
definition kHttpBadRequest :: int where "kHttpBadRequest = 400"
definition kHttpUnauthorized :: int where "kHttpUnauthorized = 401"
definition kHttpPayloadTooLarge :: int where "kHttpPayloadTooLarge = 413"
definition kHttpServerError :: int where "kHttpServerError = 500"

definition errorResult :: "string \<Rightarrow> int \<Rightarrow> ServiceResult" where
  "errorResult message status =
     \<lparr>sr_ok = False, sr_http_status = status, sr_body = JObject [(''error'', JString message)]\<rparr>"

definition okResult :: "json \<Rightarrow> ServiceResult" where
  "okResult body = \<lparr>sr_ok = True, sr_http_status = kHttpOk, sr_body = body\<rparr>"

definition ok_true :: ServiceResult where
  "ok_true = okResult (JObject [(''ok'', JBool True)])"

text \<open>A call of the store behind its pointer, changing or only reading the database.\<close>

definition on_store :: "(Database, 'r) prog \<Rightarrow> (AppState, 'r) prog" where
  "on_store m app =
     (case app_store app of
        None \<Rightarrow> (Inl UndefinedBehaviour, app)
      | Some (db, conn) \<Rightarrow> (case m db of (r, db) \<Rightarrow> (r, app\<lparr>app_store := Some (db, conn)\<rparr>)))"

definition read_store :: "(Database \<Rightarrow> 'r result) \<Rightarrow> (AppState, 'r) prog" where
  "read_store f = on_store (\<lambda>db. (f db, db))"

section \<open>Readers\<close>

text \<open>\<^verbatim>\<open>byReader[id]\<close>: the doors of the reader, in the order of the rows.\<close>

definition doors_of :: "ReaderDoorRow list \<Rightarrow> u32 \<Rightarrow> u32 list" where
  "doors_of doors r = map rd_door_id (filter (\<lambda>d. rd_reader_id d = r) doors)"

definition svc_listReaders :: "admin_env \<Rightarrow> (AppState, ServiceResult) prog" where
  "svc_listReaders env =
     bindM (read_store (listReaders (av_stmt env))) (\<lambda>readers.
     bindM (read_store (\<lambda>db. listReaderDoors (av_stmt env) db 0)) (\<lambda>doors.
     returnM (okResult (JObject [(''readers'', JArray (map (\<lambda>r. JObject
       [(''current_key_version'', JWord (rr_current_key_version r)),
        (''doors'', JArray (map JWord (doors_of doors (rr_reader_id r)))),
        (''reader_id'', JWord (rr_reader_id r))]) readers))]))))"

definition svc_upsertReader :: "admin_env \<Rightarrow> u32 \<Rightarrow> u32 \<Rightarrow> (AppState, ServiceResult) prog" where
  "svc_upsertReader env reader_id key_version =
     bindM (on_store (upsertReader (av_stmt env) reader_id key_version)) (\<lambda>_.
     bindM (app_event env ''admin'' ''upsertReader'' reader_id 0 0) (\<lambda>_. returnM ok_true))"

definition svc_deleteReader :: "admin_env \<Rightarrow> u32 \<Rightarrow> (AppState, ServiceResult) prog" where
  "svc_deleteReader env reader_id =
     bindM (on_store (deleteReader (av_stmt env) reader_id)) (\<lambda>_.
     bindM (app_event env ''admin'' ''deleteReader'' reader_id 0 0) (\<lambda>_. returnM ok_true))"

definition svc_bindDoor :: "admin_env \<Rightarrow> u32 \<Rightarrow> u32 \<Rightarrow> (AppState, ServiceResult) prog" where
  "svc_bindDoor env reader_id door_id =
     bindM (on_store (allowDoorForReader (av_stmt env) reader_id door_id)) (\<lambda>_.
     bindM (app_event env ''admin'' ''bindDoor'' reader_id door_id 0) (\<lambda>_. returnM ok_true))"

definition svc_unbindDoor :: "admin_env \<Rightarrow> u32 \<Rightarrow> u32 \<Rightarrow> (AppState, ServiceResult) prog" where
  "svc_unbindDoor env reader_id door_id =
     bindM (on_store (revokeDoorForReader (av_stmt env) reader_id door_id)) (\<lambda>_.
     bindM (app_event env ''admin'' ''unbindDoor'' reader_id door_id 0) (\<lambda>_. returnM ok_true))"

definition svc_unquarantineReader :: "admin_env \<Rightarrow> u32 \<Rightarrow> (AppState, ServiceResult) prog" where
  "svc_unquarantineReader env reader_id app =
     (if \<not> dc_enabled (ad_config (app_anomalyDetector app))
      then (Inr (errorResult ''misuse_detection_disabled'' kHttpBadRequest), app)
      else (case unquarantine reader_id (app_anomalyDetector app) of (was, det) \<Rightarrow>
        (let app = app\<lparr>app_anomalyDetector := det\<rparr> in
         if \<not> was then (Inr (errorResult ''not_quarantined'' kHttpBadRequest), app)
         else bindM (app_event env ''admin'' ''unquarantine'' reader_id 0 0) (\<lambda>_.
           returnM (okResult (JObject [(''ok'', JBool True), (''reader_id'', JWord reader_id)]))) app)))"

section \<open>Door roles\<close>

definition svc_listDoorRoles :: "admin_env \<Rightarrow> (AppState, ServiceResult) prog" where
  "svc_listDoorRoles env =
     bindM (read_store (\<lambda>db. listDoorRoles (av_stmt env) db 0)) (\<lambda>rows.
     returnM (okResult (JObject [(''door_roles'', JArray (map (\<lambda>r. JObject
       [(''door_id'', JWord (dr_door_id r)), (''role'', JString (dr_role r))]) rows))])))"

definition svc_allowRole :: "admin_env \<Rightarrow> u32 \<Rightarrow> string \<Rightarrow> (AppState, ServiceResult) prog" where
  "svc_allowRole env door_id role =
     bindM (on_store (allowRole (av_stmt env) door_id role)) (\<lambda>_.
     bindM (app_event env ''admin'' (''allowRole: '' @ role) 0 door_id 0) (\<lambda>_. returnM ok_true))"

definition svc_revokeRole :: "admin_env \<Rightarrow> u32 \<Rightarrow> string \<Rightarrow> (AppState, ServiceResult) prog" where
  "svc_revokeRole env door_id role =
     bindM (on_store (revokeRole (av_stmt env) door_id role)) (\<lambda>_.
     bindM (app_event env ''admin'' (''revokeRole: '' @ role) 0 door_id 0) (\<lambda>_. returnM ok_true))"

section \<open>Cards\<close>

definition svc_listCards :: "admin_env \<Rightarrow> u64 \<Rightarrow> u64 \<Rightarrow> (AppState, ServiceResult) prog" where
  "svc_listCards env limit offset =
     bindM (read_store (\<lambda>db. listCards (av_stmt env) db limit offset)) (\<lambda>rows.
     returnM (okResult (JObject [(''cards'', JArray (map (\<lambda>r. JObject
       [(''card_hmac'', JString (cr_card_hmac r)), (''role'', JString (cr_role r))]) rows))])))"

definition svc_upsertCard :: "admin_env \<Rightarrow> string \<Rightarrow> string \<Rightarrow> u32 option \<Rightarrow> (AppState, ServiceResult) prog" where
  "svc_upsertCard env card_id role key_version app =
     (let so = en_sodium (av_engine env);
          kv = (case key_version of Some v \<Rightarrow> v
                | None \<Rightarrow> kmy_currentKeyVersion (cf_keyManagement (app_cfg app)))
      in case bindR (deriveCardPepper so (app_keyManager app) kv) (\<lambda>pepper.
                hmacHex so (CardIdHasher_init pepper) card_id) of
        Inl e \<Rightarrow> (Inl e, app)
      | Inr h \<Rightarrow>
          bindM (on_store (upsertCardHmac (av_stmt env) h role)) (\<lambda>_.
          bindM (app_event env ''admin'' (''upsertCard role='' @ role) 0 0 0) (\<lambda>_.
          returnM (okResult (JObject [(''card_hmac'', JString h), (''ok'', JBool True)])))) app)"

definition svc_deleteCard :: "admin_env \<Rightarrow> string \<Rightarrow> (AppState, ServiceResult) prog" where
  "svc_deleteCard env card_hmac =
     bindM (on_store (deleteCardHmac (av_stmt env) card_hmac)) (\<lambda>_.
     bindM (app_event env ''admin'' ''deleteCard'' 0 0 0) (\<lambda>_. returnM ok_true))"

section \<open>Events\<close>

definition svc_getEvents :: "admin_env \<Rightarrow> u64 \<Rightarrow> u64 \<Rightarrow> (AppState, ServiceResult) prog" where
  "svc_getEvents env after_id limit app =
     (case getAfter (av_vectorMax env) (app_events app) after_id (unat limit) of
        Inl e \<Rightarrow> (Inl e, app)
      | Inr evs \<Rightarrow> (Inr (okResult (JObject
          [(''events'', JArray (map (\<lambda>e. JObject
             [(''allow'', JBool (ev_allow e)), (''door_id'', JWord (ev_door_id e)), (''id'', JWord (ev_id e)),
              (''kind'', JString (ev_kind e)), (''message'', JString (ev_message e)),
              (''reader_id'', JWord (ev_reader_id e)), (''reason'', JString (ev_reason e)),
              (''seq'', JWord (ev_seq e)), (''ts_unix_ms'', JWord (ev_ts_unix_ms e))]) evs)),
           (''last_id'', JWord (lastId (app_events app)))])), app))"

section \<open>Audit\<close>

definition parseAuditRow :: "AuditLogRow \<Rightarrow> json" where
  "parseAuditRow r = JObject
     [(''action'', JString (c_str (case ar_action r of None \<Rightarrow> [] | Some t \<Rightarrow> t))),
      (''allow'', JBool (word_of_int (ar_allow r) \<noteq> (0 :: u32))),
      (''card_hmac'', JString (c_str (case ar_card_hmac r of None \<Rightarrow> [] | Some t \<Rightarrow> t))),
      (''door_id'', JInt (sint (word_of_int (ar_door_id r) :: u32))), (''id'', JInt (ar_id r)),
      (''reader_id'', JInt (sint (word_of_int (ar_reader_id r) :: u32))),
      (''reason'', JString (c_str (ar_reason r))), (''seq'', JInt (ar_seq r)),
      (''ts_unix_ms'', JInt (ar_ts_unix_ms r))]"

text \<open>\<^verbatim>\<open>LIMIT\<close> and \<^verbatim>\<open>OFFSET\<close> are signed 32-bit values; a negative limit is none.\<close>

definition svc_listAuditLog :: "admin_env \<Rightarrow> int \<Rightarrow> int \<Rightarrow> (AppState, ServiceResult) prog" where
  "svc_listAuditLog env limit offset app =
     (case app_store app of
        None \<Rightarrow> (Inl UndefinedBehaviour, app)
      | Some (_, conn) \<Rightarrow>
          if av_rows env = PrepareFails then (Inr (errorResult ''prepare failed'' kHttpServerError), app)
          else (let ordered = drop (nat offset) (rev (by_id (ac_tables conn)));
                    rows = (if limit < 0 then ordered else take (nat limit) ordered)
                in (Inr (okResult (JObject [(''audit'', JArray (map parseAuditRow (rows_read (av_rows env) rows)))])), app)))"

definition svc_verifyAuditChain :: "admin_env \<Rightarrow> (AppState, ServiceResult) prog" where
  "svc_verifyAuditChain env app =
     (case deriveAuditHash (en_sodium (av_engine env)) (app_keyManager app) of
        Inl e \<Rightarrow> (Inl e, app)
      | Inr h \<Rightarrow>
        (case app_store app of
           None \<Rightarrow> (Inl UndefinedBehaviour, app)
         | Some (_, conn) \<Rightarrow>
           (case verifyAuditChain (en_sodium (av_engine env)) (av_rows env) (av_anchor env) (Some (ac_tables conn)) h of
              Inl e \<Rightarrow> (Inl e, app)
            | Inr vr \<Rightarrow> (Inr (okResult (JObject [(''error'', JString (vr_error vr)), (''ok'', JBool (vr_ok vr))])), app))))"

section \<open>Database\<close>

record DbExportResult =
  dx_ok :: bool
  dx_http_status :: int
  dx_error :: string
  dx_data :: string

definition svc_exportDatabase :: "admin_env \<Rightarrow> DbExportResult" where
  "svc_exportDatabase env =
     (case av_file env of
        None \<Rightarrow> \<lparr>dx_ok = False, dx_http_status = kHttpServerError, dx_error = ''cannot open db file'', dx_data = []\<rparr>
      | Some content \<Rightarrow> \<lparr>dx_ok = True, dx_http_status = kHttpOk, dx_error = [], dx_data = content\<rparr>)"

text \<open>The uploaded bytes are written to a temporary file, whose contents are \<open>av_upload env\<close>.\<close>

definition svc_importDatabase :: "admin_env \<Rightarrow> string \<Rightarrow> (AppState, ServiceResult) prog" where
  "svc_importDatabase env data app =
     (if length data > unat (adm_maxUploadBytes (cf_admin (app_cfg app)))
      then (Inr (errorResult ''file too large'' kHttpPayloadTooLarge), app)
      else bindM (importDbFile env) (\<lambda>error. returnM (case error of
          Some e \<Rightarrow> errorResult (''IMPORT FAILED: '' @ e) kHttpBadRequest
        | None \<Rightarrow> okResult (JObject [(''message'',
            JString ''IMPORT OK (integrity + verify passed, DB swapped, reopened)'')]))) app)"

section \<open>Hardware\<close>

definition pushHwEvent :: "admin_env \<Rightarrow> string \<Rightarrow> u32 \<Rightarrow> u32 \<Rightarrow> u64 \<Rightarrow> (AppState, unit) prog" where
  "pushHwEvent env message reader_id door_id sq = app_event env ''hw'' message reader_id door_id sq"

text \<open>The three attempts to reach the remote decision service; \<open>k\<close> is the number of attempts left.\<close>

primrec remote_decision :: "json_lib \<Rightarrow> (nat \<Rightarrow> (int \<times> string) option) \<Rightarrow> nat \<Rightarrow> DecisionResult \<Rightarrow> DecisionResult result" where
  "remote_decision jl http 0 r = Inr r"
| "remote_decision jl http (Suc k) r =
     (let attempt = 2 - k;
          next = (if attempt < 2 then remote_decision jl http k r
                  else remote_decision jl http k \<lparr>de_allow = False, de_reason = ''remote_unavailable''\<rparr>)
      in case http attempt of
           None \<Rightarrow> next
         | Some (status, body) \<Rightarrow>
             if status \<noteq> 200 then next
             else (case jl_parse jl body of
                 Inl what \<Rightarrow> Inl (RuntimeError what)
               | Inr j \<Rightarrow>
                   bindR (json_value jl (json_bool jl) ''allow'' False j) (\<lambda>allow.
                   bindR (json_value jl (json_string jl) ''reason'' ''remote_error'' j) (\<lambda>reason.
                   Inr \<lparr>de_allow = allow, de_reason = reason\<rparr>))))"

text \<open>The first critical section: the frame, or the answer for an unknown reader.\<close>

definition hw_build :: "admin_env \<Rightarrow> HwUidRequest \<Rightarrow> u64 \<Rightarrow> (AppState, ServiceResult + u32 \<times> bytes) prog" where
  "hw_build env req ts =
     bindM (read_store (\<lambda>db. currentKeyVersionForReader (av_query env KeyVersionQuery) db (hw_reader_id req))) (\<lambda>kv.
       if kv = 0
       then bindM (pushHwEvent env ''hw uid: unknown_reader'' (hw_reader_id req) (hw_door_id req) 0) (\<lambda>_.
         returnM (Inl (okResult (JObject [(''allow'', JBool False), (''reason'', JString ''unknown_reader'')]))))
       else bindM (pushHwEvent env (''uid='' @ hw_uid req) (hw_reader_id req) (hw_door_id req) (hw_hw_seq req)) (\<lambda>_ app.
         case buildEncryptedFrameBytes (en_sodium (av_engine env)) (en_json (av_engine env)) (av_rnd_prefix env)
           (av_rnd_nonce env) (app_keyManager app) (hw_reader_id req) (hw_door_id req) (hw_hw_seq req) kv ts
           (hw_uid req) (hw_action req) (ex_keyDerivationMode (cf_experiment (app_cfg app)))
           (ex_aadMode (cf_experiment (app_cfg app))) (ex_cipherMode (cf_experiment (app_cfg app)))
           (ex_nonceMode (cf_experiment (app_cfg app))) of
           Inl e \<Rightarrow> (Inl e, app)
         | Inr frameBytes \<Rightarrow> (Inr (Inr (kv, frameBytes)), app)))"

text \<open>The second one, or the remote call.\<close>

definition hw_decide :: "admin_env \<Rightarrow> bytes \<Rightarrow> (AppState, DecisionResult) prog" where
  "hw_decide env frameBytes app =
     (if adm_decisionMode (cf_admin (app_cfg app)) = ''remote''
      then (remote_decision (en_json (av_engine env)) (av_http env) 3 \<lparr>de_allow = False, de_reason = []\<rparr>, app)
      else app_run_engine env frameBytes app)"

definition svc_processHwUid :: "admin_env \<Rightarrow> HwUidRequest \<Rightarrow> (AppState, ServiceResult) prog" where
  "svc_processHwUid env req =
     bindM (app_now env) (\<lambda>ts.
     bindM (hw_build env req ts) (\<lambda>built.
       case built of
         Inl res \<Rightarrow> returnM res
       | Inr (kv, frameBytes) \<Rightarrow>
           bindM (hw_decide env frameBytes) (\<lambda>r.
           returnM (okResult (buildHwResponse (de_allow r) (de_reason r) (hw_reader_id req) (hw_door_id req)
             (hw_hw_seq req) kv)))))"

text \<open>\<^verbatim>\<open>access_service.cpp\<close>: the same call for a caller that has a frame.\<close>

definition svc_checkAccess :: "admin_env \<Rightarrow> bytes \<Rightarrow> (AppState, ServiceResult) prog" where
  "svc_checkAccess env frame_bytes =
     bindM (app_run_engine env frame_bytes) (\<lambda>r.
     returnM (okResult (JObject [(''allow'', JBool (de_allow r)), (''reason'', JString (de_reason r))])))"

end
