(* ===== verification/Admin_Routes.thy ===== *)
theory Admin_Routes
  imports Admin_Services
begin

text \<open>
  \<^verbatim>\<open>access_admin/src/routes_api.cpp\<close> and the decision endpoint of \<^verbatim>\<open>main.cpp\<close>: one definition per
  registered handler, and one function that runs the handler of a route. The HTTP library matches
  the request's path to the route, and answers 500 itself when a handler throws; both are outside.
\<close>

section \<open>Requests and responses\<close>

text \<open>\<open>ht_header\<close> gives the empty string for a missing header; \<open>ht_match n\<close> is the text the \<open>n\<close>-th
  group of the route's pattern matched, \<^verbatim>\<open>\d+\<close> in all of them.\<close>

record HttpRequest =
  ht_header :: "string \<Rightarrow> string"
  ht_param :: "string \<Rightarrow> string option"
  ht_body :: string
  ht_match :: "nat \<Rightarrow> string"
  ht_is_multipart :: bool
  ht_file :: "string \<Rightarrow> string option"

datatype content = NoContent | JsonContent json | TextContent string | DataContent string

record HttpResponse =
  rs_status :: int
  rs_content :: content
  rs_headers :: "(string \<times> string) list"

text \<open>A response no handler has set a status for is sent as 200.\<close>

definition empty_response :: HttpResponse where
  "empty_response = \<lparr>rs_status = 200, rs_content = NoContent, rs_headers = []\<rparr>"

text \<open>The printer throws on text that is not UTF-8.\<close>

definition setJson :: "json_lib \<Rightarrow> HttpResponse \<Rightarrow> json \<Rightarrow> int \<Rightarrow> HttpResponse result" where
  "setJson jl res j status =
     bindR (jl_pretty jl j) (\<lambda>_. Inr (res\<lparr>rs_status := status, rs_content := JsonContent j\<rparr>))"

definition sendResult :: "json_lib \<Rightarrow> HttpResponse \<Rightarrow> ServiceResult \<Rightarrow> HttpResponse result" where
  "sendResult jl res r = setJson jl res (sr_body r) (sr_http_status r)"

definition checkAuth :: "HttpRequest \<Rightarrow> string \<Rightarrow> bool" where
  "checkAuth req token = (if token = [] then True else ht_header req ''X-Admin-Token'' = token)"

section \<open>Numbers in paths and parameters\<close>

text \<open>\<^verbatim>\<open>strtoull\<close> and its kin: leading white space, a sign, digits; what follows is ignored. \<open>None\<close>
  when there is no digit, else the sign and the magnitude.\<close>

definition is_digit :: "char \<Rightarrow> bool" where
  "is_digit c \<longleftrightarrow> (let n = of_char c :: nat in 48 \<le> n \<and> n \<le> 57)"

definition digits_value :: "string \<Rightarrow> nat" where
  "digits_value ds = foldl (\<lambda>v c. 10 * v + (of_char c - 48)) 0 ds"

definition strto :: "string \<Rightarrow> (bool \<times> nat) option" where
  "strto s =
     (let s = dropWhile isspace s;
          neg = (s \<noteq> [] \<and> hd s = CHR ''-'');
          s = (if s \<noteq> [] \<and> (hd s = CHR ''-'' \<or> hd s = CHR ''+'') then tl s else s);
          ds = takeWhile is_digit s
      in if ds = [] then None else Some (neg, digits_value ds))"

text \<open>\<^verbatim>\<open>std::stoull\<close> and \<^verbatim>\<open>std::stoul\<close> (both 64 bits wide): a negative number wraps around.\<close>

definition std_stoull :: "string \<Rightarrow> string \<Rightarrow> u64 result" where
  "std_stoull name s =
     (case strto s of
        None \<Rightarrow> Inl (InvalidArgument name)
      | Some (neg, v) \<Rightarrow>
          if v \<ge> 2 ^ 64 then Inl (OutOfRange name)
          else Inr (if neg then - of_nat v else of_nat v))"

definition stoull :: "string \<Rightarrow> u64 result" where "stoull = std_stoull ''stoull''"
definition stoul :: "string \<Rightarrow> u64 result" where "stoul = std_stoull ''stoul''"

definition stoi :: "string \<Rightarrow> int result" where
  "stoi s =
     (case strto s of
        None \<Rightarrow> Inl (InvalidArgument ''stoi'')
      | Some (neg, v) \<Rightarrow>
          (let i = (if neg then - int v else int v) in
           if i < - (2 ^ 31) \<or> i \<ge> 2 ^ 31 then Inl (OutOfRange ''stoi'') else Inr i))"

text \<open>\<^verbatim>\<open>static_cast<uint32_t>(std::stoul(req.matches[n]))\<close>.\<close>

definition path_u32 :: "HttpRequest \<Rightarrow> nat \<Rightarrow> u32 result" where
  "path_u32 req n = bindR (stoul (ht_match req n)) (\<lambda>v. Inr (ucast v))"

definition param_u64 :: "HttpRequest \<Rightarrow> string \<Rightarrow> u64 \<Rightarrow> u64 result" where
  "param_u64 req k d = (case ht_param req k of Some v \<Rightarrow> stoull v | None \<Rightarrow> Inr d)"

definition param_int :: "HttpRequest \<Rightarrow> string \<Rightarrow> int \<Rightarrow> int result" where
  "param_int req k d = (case ht_param req k of Some v \<Rightarrow> stoi v | None \<Rightarrow> Inr d)"

definition kDefaultLimit :: nat where "kDefaultLimit = 200"

section \<open>Building blocks of the handlers\<close>

text \<open>Every handler starts from an empty response.\<close>

definition reply :: "admin_env \<Rightarrow> ServiceResult \<Rightarrow> (AppState, HttpResponse) prog" where
  "reply env r = liftR (sendResult (en_json (av_engine env)) empty_response r)"

text \<open>\<^verbatim>\<open>if (!requireAuth(...)) return;\<close> in front of a handler's body.\<close>

definition requireAuth :: "admin_env \<Rightarrow> HttpRequest \<Rightarrow> (AppState, HttpResponse) prog \<Rightarrow> (AppState, HttpResponse) prog" where
  "requireAuth env req body app =
     (if \<not> checkAuth req (adm_adminToken (cf_admin (app_cfg app)))
      then reply env (errorResult ''unauthorized'' kHttpUnauthorized) app
      else body app)"

text \<open>\<^verbatim>\<open>try { ... } catch (const std::exception& e) { sendResult(res, errorResult(e.what(), status)); }\<close>.
  Undefined behaviour is no exception.\<close>

definition try_catch :: "admin_env \<Rightarrow> int \<Rightarrow> (AppState, HttpResponse) prog \<Rightarrow> (AppState, HttpResponse) prog" where
  "try_catch env status body app =
     (case body app of
        (Inl UndefinedBehaviour, app) \<Rightarrow> (Inl UndefinedBehaviour, app)
      | (Inl e, app) \<Rightarrow> reply env (errorResult (exn_what e) status) app
      | (Inr res, app) \<Rightarrow> (Inr res, app))"

definition json_body :: "admin_env \<Rightarrow> HttpRequest \<Rightarrow> (AppState, json) prog" where
  "json_body env req =
     liftR (case jl_parse (en_json (av_engine env)) (ht_body req) of
       Inl what \<Rightarrow> Inl (RuntimeError what) | Inr j \<Rightarrow> Inr j)"

definition at_u32 :: "admin_env \<Rightarrow> string \<Rightarrow> json \<Rightarrow> (AppState, u32) prog" where
  "at_u32 env k j = liftR (bindR (json_at (en_json (av_engine env)) k j) (json_u32 (en_json (av_engine env))))"

definition at_string :: "admin_env \<Rightarrow> string \<Rightarrow> json \<Rightarrow> (AppState, string) prog" where
  "at_string env k j = liftR (bindR (json_at (en_json (av_engine env)) k j) (json_string (en_json (av_engine env))))"

section \<open>The handlers\<close>

definition route_root :: "(AppState, HttpResponse) prog" where
  "route_root = returnM (empty_response\<lparr>rs_status := 302, rs_headers := [(''Location'', ''/static/index.html'')]\<rparr>)"

definition route_events :: "admin_env \<Rightarrow> HttpRequest \<Rightarrow> (AppState, HttpResponse) prog" where
  "route_events env req =
     requireAuth env req
       (bindM (liftR (param_u64 req ''after'' 0)) (\<lambda>after.
        bindM (liftR (param_u64 req ''limit'' (of_nat kDefaultLimit))) (\<lambda>limit.
        bindM (svc_getEvents env after limit) (reply env))))"

definition route_readers :: "admin_env \<Rightarrow> HttpRequest \<Rightarrow> (AppState, HttpResponse) prog" where
  "route_readers env req = requireAuth env req (bindM (svc_listReaders env) (reply env))"

definition route_post_reader :: "admin_env \<Rightarrow> HttpRequest \<Rightarrow> (AppState, HttpResponse) prog" where
  "route_post_reader env req =
     requireAuth env req (try_catch env kHttpBadRequest
       (bindM (json_body env req) (\<lambda>j.
        bindM (at_u32 env ''reader_id'' j) (\<lambda>reader_id.
        bindM (at_u32 env ''current_key_version'' j) (\<lambda>kv.
        bindM (svc_upsertReader env reader_id kv) (reply env))))))"

definition route_delete_reader :: "admin_env \<Rightarrow> HttpRequest \<Rightarrow> (AppState, HttpResponse) prog" where
  "route_delete_reader env req =
     requireAuth env req (try_catch env kHttpServerError
       (bindM (liftR (path_u32 req 1)) (\<lambda>reader_id.
        bindM (svc_deleteReader env reader_id) (reply env))))"

definition route_bind_door :: "admin_env \<Rightarrow> HttpRequest \<Rightarrow> (AppState, HttpResponse) prog" where
  "route_bind_door env req =
     requireAuth env req (try_catch env kHttpBadRequest
       (bindM (json_body env req) (\<lambda>j.
        bindM (liftR (path_u32 req 1)) (\<lambda>reader_id.
        bindM (at_u32 env ''door_id'' j) (\<lambda>door_id.
        bindM (svc_bindDoor env reader_id door_id) (reply env))))))"

definition route_unbind_door :: "admin_env \<Rightarrow> HttpRequest \<Rightarrow> (AppState, HttpResponse) prog" where
  "route_unbind_door env req =
     requireAuth env req (try_catch env kHttpServerError
       (bindM (liftR (path_u32 req 1)) (\<lambda>reader_id.
        bindM (liftR (path_u32 req 2)) (\<lambda>door_id.
        bindM (svc_unbindDoor env reader_id door_id) (reply env)))))"

definition route_unquarantine :: "admin_env \<Rightarrow> HttpRequest \<Rightarrow> (AppState, HttpResponse) prog" where
  "route_unquarantine env req =
     requireAuth env req (try_catch env kHttpServerError
       (bindM (liftR (path_u32 req 1)) (\<lambda>reader_id.
        bindM (svc_unquarantineReader env reader_id) (reply env))))"

definition route_door_roles :: "admin_env \<Rightarrow> HttpRequest \<Rightarrow> (AppState, HttpResponse) prog" where
  "route_door_roles env req = requireAuth env req (bindM (svc_listDoorRoles env) (reply env))"

definition route_allow_role :: "admin_env \<Rightarrow> HttpRequest \<Rightarrow> (AppState, HttpResponse) prog" where
  "route_allow_role env req =
     requireAuth env req (try_catch env kHttpBadRequest
       (bindM (json_body env req) (\<lambda>j.
        bindM (at_u32 env ''door_id'' j) (\<lambda>door_id.
        bindM (at_string env ''role'' j) (\<lambda>role.
        bindM (svc_allowRole env door_id role) (reply env))))))"

definition route_revoke_role :: "admin_env \<Rightarrow> HttpRequest \<Rightarrow> (AppState, HttpResponse) prog" where
  "route_revoke_role env req =
     requireAuth env req (try_catch env kHttpBadRequest
       (bindM (json_body env req) (\<lambda>j.
        bindM (at_u32 env ''door_id'' j) (\<lambda>door_id.
        bindM (at_string env ''role'' j) (\<lambda>role.
        bindM (svc_revokeRole env door_id role) (reply env))))))"

definition route_cards :: "admin_env \<Rightarrow> HttpRequest \<Rightarrow> (AppState, HttpResponse) prog" where
  "route_cards env req =
     requireAuth env req
       (bindM (liftR (param_u64 req ''limit'' (of_nat kDefaultLimit))) (\<lambda>limit.
        bindM (liftR (param_u64 req ''offset'' 0)) (\<lambda>offset.
        bindM (svc_listCards env limit offset) (reply env))))"

definition route_post_card :: "admin_env \<Rightarrow> HttpRequest \<Rightarrow> (AppState, HttpResponse) prog" where
  "route_post_card env req =
     requireAuth env req (try_catch env kHttpBadRequest
       (bindM (json_body env req) (\<lambda>j.
        bindM (if json_contains j ''key_version''
               then bindM (at_u32 env ''key_version'' j) (\<lambda>kv. returnM (Some kv)) else returnM None) (\<lambda>kv.
        bindM (at_string env ''card_id'' j) (\<lambda>card_id.
        bindM (at_string env ''role'' j) (\<lambda>role.
        bindM (svc_upsertCard env card_id role kv) (reply env)))))))"

definition route_delete_card :: "admin_env \<Rightarrow> HttpRequest \<Rightarrow> (AppState, HttpResponse) prog" where
  "route_delete_card env req =
     requireAuth env req (try_catch env kHttpBadRequest
       (bindM (json_body env req) (\<lambda>j.
        bindM (at_string env ''card_hmac'' j) (\<lambda>card_hmac.
        bindM (svc_deleteCard env card_hmac) (reply env)))))"

definition route_audit :: "admin_env \<Rightarrow> HttpRequest \<Rightarrow> (AppState, HttpResponse) prog" where
  "route_audit env req =
     requireAuth env req
       (bindM (liftR (param_int req ''limit'' (int kDefaultLimit))) (\<lambda>limit.
        bindM (liftR (param_int req ''offset'' 0)) (\<lambda>offset.
        bindM (svc_listAuditLog env limit offset) (reply env))))"

definition route_audit_verify :: "admin_env \<Rightarrow> HttpRequest \<Rightarrow> (AppState, HttpResponse) prog" where
  "route_audit_verify env req = requireAuth env req (bindM (svc_verifyAuditChain env) (reply env))"

definition route_db_export :: "admin_env \<Rightarrow> HttpRequest \<Rightarrow> (AppState, HttpResponse) prog" where
  "route_db_export env req =
     requireAuth env req
       (let result = svc_exportDatabase env in
        if \<not> dx_ok result
        then returnM (empty_response\<lparr>rs_status := dx_http_status result, rs_content := TextContent (dx_error result)\<rparr>)
        else returnM (empty_response\<lparr>rs_headers := [(''Content-Disposition'', ''attachment; filename='' @ [CHR 0x22] @ ''access.db'' @ [CHR 0x22])],
               rs_content := DataContent (dx_data result)\<rparr>))"

definition route_db_import :: "admin_env \<Rightarrow> HttpRequest \<Rightarrow> (AppState, HttpResponse) prog" where
  "route_db_import env req =
     requireAuth env req
       (case (if ht_is_multipart req then ht_file req ''db'' else None) of
          None \<Rightarrow> returnM (empty_response\<lparr>rs_status := kHttpBadRequest,
            rs_content := TextContent (''expected multipart form-data with file field '' @
              [CHR 0x27] @ ''db'' @ [CHR 0x27])\<rparr>)
        | Some content \<Rightarrow>
            bindM (svc_importDatabase env content) (\<lambda>result.
              let jl = en_json (av_engine env) in
              if \<not> sr_ok result
              then bindM (liftR (json_value jl (json_string jl) ''error'' ''unknown error'' (sr_body result))) (\<lambda>t.
                   returnM (empty_response\<lparr>rs_status := sr_http_status result, rs_content := TextContent t\<rparr>))
              else bindM (liftR (json_value jl (json_string jl) ''message'' ''OK'' (sr_body result))) (\<lambda>t.
                   returnM (empty_response\<lparr>rs_content := TextContent t\<rparr>))))"

text \<open>The hardware endpoint authenticates by signature, not by the admin token.\<close>

definition route_hw_uid :: "admin_env \<Rightarrow> HttpRequest \<Rightarrow> (AppState, HttpResponse) prog" where
  "route_hw_uid env req app =
     (let jl = en_json (av_engine env) in
      case verifyHwSignature (en_sodium (av_engine env)) (av_sodium_init env) (ht_header req ''X-HW-Signature'')
             (ht_body req) (adm_hwSharedSecretHex (cf_admin (app_cfg app))) of
        Some sigErr \<Rightarrow>
          (setJson jl empty_response (JObject [(''allow'', JBool False), (''reason'', JString sigErr)])
             (if sigErr = ''misconfigured'' then kHttpServerError else kHttpUnauthorized), app)
      | None \<Rightarrow>
          try_catch env kHttpBadRequest
            (bindM (json_body env req) (\<lambda>j.
             bindM (liftR (parseHwUidRequest jl j)) (\<lambda>parsed.
               case parsed of
                 None \<Rightarrow> reply env (errorResult ''invalid request'' kHttpBadRequest)
               | Some hwReq \<Rightarrow>
                   if hw_hw_seq hwReq = 0 then reply env (errorResult ''hw_seq must be > 0'' kHttpBadRequest)
                   else bindM (svc_processHwUid env hwReq) (reply env)))) app)"

text \<open>The decision endpoint, on a server and a port of its own, without authentication of the
  caller: the frame authenticates itself.\<close>

definition route_decision :: "admin_env \<Rightarrow> HttpRequest \<Rightarrow> (AppState, HttpResponse) prog" where
  "route_decision env req app =
     (let jl = en_json (av_engine env);
          answer = (\<lambda>allow reason status. setJson jl empty_response
            (JObject [(''allow'', JBool allow), (''reason'', JString reason)]) status)
      in if ht_body req = [] then (answer False ''empty_frame'' 400, app)
         else (case bindM (app_run_engine env (bytes_of_string (ht_body req)))
                (\<lambda>r. liftR (answer (de_allow r) (de_reason r) 200)) app of
             (Inl UndefinedBehaviour, app) \<Rightarrow> (Inl UndefinedBehaviour, app)
           | (Inl e, app) \<Rightarrow> (answer False ''internal_error'' 500, app)
           | (Inr res, app) \<Rightarrow> (Inr res, app)))"

section \<open>The server\<close>

datatype route =
    Root | Events | Readers | PostReader | DeleteReader | BindDoor | UnbindDoor | Unquarantine
  | DoorRoles | AllowRole | RevokeRole | Cards | PostCard | DeleteCard | Audit | AuditVerify
  | DbExport | DbImport | HwUid | Decision

fun registerRoutes :: "route \<Rightarrow> admin_env \<Rightarrow> HttpRequest \<Rightarrow> (AppState, HttpResponse) prog" where
  "registerRoutes Root env req = route_root"
| "registerRoutes Events env req = route_events env req"
| "registerRoutes Readers env req = route_readers env req"
| "registerRoutes PostReader env req = route_post_reader env req"
| "registerRoutes DeleteReader env req = route_delete_reader env req"
| "registerRoutes BindDoor env req = route_bind_door env req"
| "registerRoutes UnbindDoor env req = route_unbind_door env req"
| "registerRoutes Unquarantine env req = route_unquarantine env req"
| "registerRoutes DoorRoles env req = route_door_roles env req"
| "registerRoutes AllowRole env req = route_allow_role env req"
| "registerRoutes RevokeRole env req = route_revoke_role env req"
| "registerRoutes Cards env req = route_cards env req"
| "registerRoutes PostCard env req = route_post_card env req"
| "registerRoutes DeleteCard env req = route_delete_card env req"
| "registerRoutes Audit env req = route_audit env req"
| "registerRoutes AuditVerify env req = route_audit_verify env req"
| "registerRoutes DbExport env req = route_db_export env req"
| "registerRoutes DbImport env req = route_db_import env req"
| "registerRoutes HwUid env req = route_hw_uid env req"
| "registerRoutes Decision env req = route_decision env req"

end
