(* ===== verification/Engine_Invariants.thy ===== *)
theory Engine_Invariants
  imports Engine_Audit
begin

text \<open>
  What every call of the engine keeps, whether it decides or throws and whatever SQLite does under
  it. The locale \<open>event_log\<close> is a log whose invariant every admissible event keeps; the engine is
  shown to keep it by a small calculus of invariants, which the server uses too.
\<close>

section \<open>Programs that keep an invariant\<close>

text \<open>\<open>keeps I m Q\<close>: from a state with \<open>I\<close>, the program ends in a state with \<open>I\<close>, and a value it
  returns satisfies \<open>Q\<close>.\<close>

definition keeps :: "('s \<Rightarrow> bool) \<Rightarrow> ('s, 'a) prog \<Rightarrow> ('a \<Rightarrow> bool) \<Rightarrow> bool" where
  "keeps I m Q \<longleftrightarrow> (\<forall>s. I s \<longrightarrow> I (snd (m s)) \<and> (\<forall>x. fst (m s) = Inr x \<longrightarrow> Q x))"

named_theorems keeps_rules

abbreviation any_value :: "'a \<Rightarrow> bool" where "any_value \<equiv> \<lambda>_. True"

lemma keepsI: "(\<And>s. I s \<Longrightarrow> I (snd (m s))) \<Longrightarrow> keeps I m any_value"
  by (simp add: keeps_def)

lemma keepsD: "keeps I m Q \<Longrightarrow> I s \<Longrightarrow> I (snd (m s))"
  by (simp add: keeps_def)

lemma keeps_weaken: "keeps I m Q \<Longrightarrow> keeps I m any_value"
  by (simp add: keeps_def)

lemma keeps_bind:
  assumes "keeps I m Q" and "\<And>x. Q x \<Longrightarrow> keeps I (f x) R"
  shows "keeps I (bindM m f) R"
  unfolding keeps_def
proof (intro allI impI)
  fix s assume "I s"
  obtain r t where m: "m s = (r, t)" by (cases "m s")
  have t: "I t" and q: "\<And>x. r = Inr x \<Longrightarrow> Q x" using assms(1) \<open>I s\<close> m by (auto simp: keeps_def)
  show "I (snd (bindM m f s)) \<and> (\<forall>x. fst (bindM m f s) = Inr x \<longrightarrow> R x)"
  proof (cases r)
    case (Inr x)
    with t assms(2) [OF q [OF Inr]] show ?thesis by (simp add: bindM_apply m keeps_def)
  qed (simp add: bindM_apply m t)
qed

lemma keeps_then [keeps_rules]:
  "keeps I m any_value \<Longrightarrow> (\<And>x. keeps I (f x) R) \<Longrightarrow> keeps I (bindM m f) R"
  by (rule keeps_bind)

lemma keeps_pure [keeps_rules]:
  "keeps I (returnM x) any_value" "keeps I (throwM e) any_value" "keeps I (liftR r) any_value"
  by (simp_all add: keeps_def)

lemma keeps_lift: "(\<And>x. r = Inr x \<Longrightarrow> Q x) \<Longrightarrow> keeps I (liftR r) Q"
  by (simp add: keeps_def)

lemma keeps_if [keeps_rules]:
  "(c \<Longrightarrow> keeps I m Q) \<Longrightarrow> (\<not> c \<Longrightarrow> keeps I n Q) \<Longrightarrow> keeps I (if c then m else n) Q"
  by simp

lemma keeps_option [keeps_rules]:
  "(x = None \<Longrightarrow> keeps I m Q) \<Longrightarrow> (\<And>y. x = Some y \<Longrightarrow> keeps I (f y) Q) \<Longrightarrow>
     keeps I (case x of None \<Rightarrow> m | Some y \<Rightarrow> f y) Q"
  by (cases x) simp_all

lemma keeps_sum [keeps_rules]:
  "(\<And>y. x = Inl y \<Longrightarrow> keeps I (f y) Q) \<Longrightarrow> (\<And>y. x = Inr y \<Longrightarrow> keeps I (g y) Q) \<Longrightarrow>
     keeps I (case x of Inl y \<Rightarrow> f y | Inr y \<Rightarrow> g y) Q"
  by (cases x) simp_all

lemma keeps_prod [keeps_rules]:
  "(\<And>a b. x = (a, b) \<Longrightarrow> keeps I (f a b) Q) \<Longrightarrow> keeps I (case x of (a, b) \<Rightarrow> f a b) Q"
  by (cases x) simp

section \<open>The engine\<close>

locale event_log =
  fixes log_append :: "AuditEvent \<Rightarrow> ('a, unit) prog"
    and log_ok :: "'a \<Rightarrow> bool"
  assumes append_ok: "log_ok a \<Longrightarrow> event_nul_free e \<Longrightarrow> log_ok (snd (log_append e a))"

text \<open>The invariant of the engine's surroundings: the log and the bus, where they are there.\<close>

definition around_ok :: "('a \<Rightarrow> bool) \<Rightarrow> 'a engine_state \<Rightarrow> bool" where
  "around_ok P s \<longleftrightarrow> (\<forall>a. es_audit s = Some a \<longrightarrow> P a) \<and> bus_ok s"

lemma keeps_clock [keeps_rules]: "keeps (around_ok P) (nowUnixMs env) any_value"
  by (rule keepsI) (simp add: around_ok_def nowUnixMs_def bus_ok_def)

lemma keeps_push_event [keeps_rules]: "keeps (around_ok P) (push_event ev) any_value"
proof (rule keepsI)
  fix s :: "'a engine_state" assume s: "around_ok P s"
  show "around_ok P (snd (push_event ev s))"
  proof (cases "es_events s")
    case (Some bus)
    with s have "bus_inv (snd (push ev bus))"
      by (intro bus_sink.invar_emit) (simp add: around_ok_def bus_ok_def)
    with s Some show ?thesis
      by (auto simp: push_event_def around_ok_def bus_ok_def split: prod.splits sum.splits)
  qed (use s in \<open>simp add: push_event_def\<close>)
qed

lemma keeps_when_events [keeps_rules]:
  "keeps (around_ok P) m any_value \<Longrightarrow> keeps (around_ok P) (when_events m) any_value"
  by (auto simp: keeps_def when_events_def)

lemma keeps_on_detector [keeps_rules]: "keeps (around_ok P) (on_detector f d) any_value"
  by (rule keepsI) (auto simp: on_detector_def around_ok_def bus_ok_def split: option.splits prod.splits)

lemma keeps_publish [keeps_rules]:
  "keeps (around_ok P) (publishFrameEvent env n) any_value"
  "keeps (around_ok P) (publishDecisionEvent env hr) any_value"
  "keeps (around_ok P) (publishAnomalyEvent env r ty d) any_value"
  unfolding publishFrameEvent_def publishDecisionEvent_def publishAnomalyEvent_def
  by (intro keeps_rules)+

lemma keeps_track_rejection [keeps_rules]:
  "keeps (around_ok P) (track_rejection env hr) any_value"
  unfolding track_rejection_def Let_def by (intro keeps_rules)

lemma run_handler_keeps:
  "keeps (around_ok P) (run_handler env eng bs) (\<lambda>hr. nul \<notin> set (hr_reason hr))"
proof -
  have "nul \<notin> set (hr_reason x)" if "fst (run_handler env eng bs s) = Inr x" for s :: "'a engine_state" and x
  proof -
    obtain r ws where h: "handle (en_sodium env) (en_rnd env) (en_clock env (es_ticks s)) (engine_handler eng) bs
        (es_windows s) = (r, ws)"
      by (cases "handle (en_sodium env) (en_rnd env) (en_clock env (es_ticks s)) (engine_handler eng) bs (es_windows s)")
    with that have "r = Inr x" by (simp add: run_handler_def bindM_apply nowUnixMs_def)
    with h have "handle (en_sodium env) (en_rnd env) (en_clock env (es_ticks s)) (engine_handler eng) bs
        (es_windows s) = (Inr x, ws)" by simp
    then show ?thesis by (rule handled_reason_nul_free)
  qed
  moreover have "around_ok P s \<Longrightarrow> around_ok P (snd (run_handler env eng bs s))" for s
    by (auto simp: run_handler_def bindM_apply nowUnixMs_def around_ok_def bus_ok_def split: prod.splits)
  ultimately show ?thesis by (simp add: keeps_def)
qed

lemma literals:
  "nul \<notin> set ''quarantined''" "nul \<notin> set ''bad_payload''" "nul \<notin> set ''bad_action''"
  "nul \<notin> set ''no_store''" "nul \<notin> set ''unknown_reader''" "nul \<notin> set ''unknown_card''"
  "nul \<notin> set ''forbidden''" "nul \<notin> set ''ok''" "nul \<notin> set ''open''" "nul \<notin> set []"
  by (simp_all add: nul_char)

context event_log
begin

lemma logAuditEvent_keeps:
  assumes "al_append (de_audit eng) = log_append"
    and "nul \<notin> set reason" and "nul \<notin> set card_id" and "nul \<notin> set act"
  shows "keeps (around_ok log_ok) (logAuditEvent env eng h allow reason card_id act) any_value"
proof (rule keepsI)
  fix s assume s: "around_ok log_ok s"
  let ?e = "make_audit_event h allow reason card_id act"
  let ?m = "\<lambda>ev. when_events (bindM (nowUnixMs env) (\<lambda>t. push_event (ev t)))"
  show "around_ok log_ok (snd (logAuditEvent env eng h allow reason card_id act s))"
  proof (cases "es_audit s")
    case (Some a)
    have "event_nul_free ?e" using assms(2-4) by (simp add: event_nul_free_def make_audit_event_def)
    then have "log_ok (snd (log_append ?e a))"
      using append_ok s Some by (simp add: around_ok_def)
    then have "around_ok log_ok (s\<lparr>es_audit := Some (snd (log_append ?e a))\<rparr>)"
      using s by (simp add: around_ok_def bus_ok_def)
    moreover have "around_ok log_ok (snd (?m ev t))" if "around_ok log_ok t" for ev t
      by (rule keepsD [where I = "around_ok log_ok" and m = "?m ev" and Q = any_value, OF _ that]) (intro keeps_rules)
    ultimately show ?thesis
      using assms(1) Some by (auto simp: logAuditEvent_def split: prod.splits sum.splits)
  qed (use s in \<open>simp add: logAuditEvent_def\<close>)
qed

lemma policy_keeps:
  assumes log: "al_append (de_audit eng) = log_append"
  shows "keeps (around_ok log_ok) (checkAccessPolicy env eng hr rq) any_value"
proof -
  note logged = logAuditEvent_keeps [OF log]
  have resolved: "keeps (around_ok log_ok) (liftR (resolveCardHmac env eng store c kv)) (\<lambda>x. nul \<notin> set (fst x))"
    for store c kv by (rule keeps_lift) (metis prod.collapse resolved_nul_free)
  have roles: "keeps (around_ok log_ok) (liftR (checkRoleAccess store d role)) (\<lambda>r. nul \<notin> set (de_reason r))"
    for store d role
    by (rule keeps_lift) (auto simp: checkRoleAccess_def bindR_Inr_iff nul_char split: if_splits)
  have checked: "keeps (around_ok log_ok) (bindM (liftR (checkRoleAccess store d role)) (\<lambda>result.
      bindM (logAuditEvent env eng (hr_header hr) (de_allow result) (de_reason result) cid ''open'') (\<lambda>_.
      returnM result))) any_value" if "nul \<notin> set cid" for store d role cid
    by (rule keeps_bind [OF roles]) (intro keeps_then keeps_pure logged literals that)
  have found: "keeps (around_ok log_ok) (bindM (liftR (resolveCardHmac env eng store c kv)) (\<lambda>(cardHmac, roleOpt).
      case roleOpt of
        None \<Rightarrow> bindM (logAuditEvent env eng (hr_header hr) False ''unknown_card'' cardHmac ''open'')
                (\<lambda>_. returnM (createDeniedResult ''unknown_card''))
      | Some role \<Rightarrow> bindM (liftR (checkRoleAccess store d role)) (\<lambda>result.
          bindM (logAuditEvent env eng (hr_header hr) (de_allow result) (de_reason result) cardHmac ''open'') (\<lambda>_.
          returnM result)))) any_value" for store c kv d
    by (rule keeps_bind [OF resolved], clarsimp simp only: prod.case fst_conv)
      (intro keeps_option keeps_then keeps_pure logged literals checked)
  show ?thesis
    unfolding checkAccessPolicy_def Let_def
    by (cases "rq_action rq = ''open''"; simp only: not_True_eq_False not_False_eq_True simp_thms if_False if_True)
      (intro keeps_option keeps_then keeps_if keeps_pure logged literals found)+
qed

lemma stages_keep:
  assumes log: "al_append (de_audit eng) = log_append"
  shows "keeps (around_ok log_ok) (deny_quarantined env eng hr) any_value"
    and "nul \<notin> set (hr_reason hr) \<Longrightarrow> keeps (around_ok log_ok) (check_rollback env eng b hr) any_value"
proof -
  note logged = logAuditEvent_keeps [OF log] literals
  have denied: "keeps (around_ok log_ok) (deny_quarantined env eng hr) any_value" for hr
    unfolding deny_quarantined_def by (intro keeps_rules logged)
  have accepted: "keeps (around_ok log_ok) (after_acceptance env eng hr) any_value"
    unfolding after_acceptance_def by (intro keeps_rules logged policy_keeps [OF log])
  have monitor: "keeps (around_ok log_ok) (after_monitor env eng b hr) any_value" if "nul \<notin> set (hr_reason hr)" for b
    unfolding after_monitor_def Let_def by (intro keeps_rules logged accepted that)
  have nonce: "keeps (around_ok log_ok) (check_nonce env eng b hr) any_value" if "nul \<notin> set (hr_reason hr)" for b
    unfolding check_nonce_def Let_def by (intro keeps_rules denied monitor that)
  show "keeps (around_ok log_ok) (deny_quarantined env eng hr) any_value" by (rule denied)
  show "keeps (around_ok log_ok) (check_rollback env eng b hr) any_value" if "nul \<notin> set (hr_reason hr)"
    unfolding check_rollback_def Let_def by (intro keeps_rules denied nonce that)
qed

lemma engine_keeps:
  assumes log: "al_append (de_audit eng) = log_append"
  shows "keeps (around_ok log_ok) (handleFrameBytes env eng bs) any_value"
  unfolding handleFrameBytes_def
proof (rule keeps_bind [OF run_handler_keeps])
  fix hr :: HandleResult assume "nul \<notin> set (hr_reason hr)"
  note stages = stages_keep(1) [OF log, of env hr] stages_keep(2) [OF log this, of env]
  have "keeps (around_ok log_ok) (bindM (publishFrameEvent env (length bs)) (\<lambda>_. monitored env eng active hr)) any_value"
    for active
    by (rule keeps_then [OF keeps_publish(1)]) (use stages in \<open>simp add: keeps_def\<close>)
  then show "keeps (around_ok log_ok) (after_handler env eng (length bs) hr) any_value"
    by (simp add: keeps_def after_handler_def Let_def)
qed

end

text \<open>The SQLite log is such a log, for any outcome of its statements except a failing look-up of the
  last entry.\<close>

interpretation sqlite_event_log: event_log "audit_append so lg st"
  "\<lambda>c. sl_chainEnabled lg \<and> lookup_works st \<and> audit_valid so (sl_key lg) (committed c)"
proof unfold_locales
  fix c e
  assume c: "sl_chainEnabled lg \<and> lookup_works st \<and> audit_valid so (sl_key lg) (committed c)"
    and e: "event_nul_free e"
  have "snd (audit_run so lg [(st, e)] c) = snd (audit_append so lg st e c)"
    by (auto split: prod.splits sum.splits)
  with audit_run_valid [of lg "[(st, e)]" so c] c e
  show "sl_chainEnabled lg \<and> lookup_works st \<and> audit_valid so (sl_key lg) (committed (snd (audit_append so lg st e c)))"
    by simp
qed

end
