(* ===== verification/Server_Invariants.thy ===== *)
theory Server_Invariants
  imports Admin_Routes Engine_Invariants
begin

text \<open>
  The server as a state machine: its steps are the handlers of the routes, run on any request in any
  environment. Two invariants are shown with the calculus of \<open>Engine_Invariants\<close>: the audit log on
  disk verifies, and only an authorised request changes the access policy.
\<close>

section \<open>Rules for the handlers\<close>

lemma same_store [simp]: "app_store app = st \<Longrightarrow> app\<lparr>app_store := st\<rparr> = app"
  by (cases app) simp

lemma keeps_read_store [keeps_rules]: "keeps I (read_store f) any_value"
  by (rule keepsI) (auto simp: read_store_def on_store_def split: option.splits prod.splits)

lemma keeps_throw_if [keeps_rules]: "keeps I (throw_if err) any_value"
  by (cases err) (simp_all add: throw_if_def keeps_pure)

lemma keeps_either:
  "(\<And>x. keeps I (g x) any_value) \<Longrightarrow>
     keeps I (\<lambda>s. case f s of Inl e \<Rightarrow> (Inl e, s) | Inr x \<Rightarrow> g x s) any_value"
  "keeps I (\<lambda>s. case f s of Inl e \<Rightarrow> (Inl e, s) | Inr x \<Rightarrow> (Inr (h x), s)) any_value"
  by (auto simp: keeps_def split: sum.splits)

lemma keeps_catch:
  assumes "keeps I m any_value"
  shows "keeps I (\<lambda>s. case m s of (Inl UndefinedBehaviour, s) \<Rightarrow> (Inl UndefinedBehaviour, s)
    | (Inl e, s) \<Rightarrow> (g, s) | (Inr x, s) \<Rightarrow> (Inr x, s)) any_value"
proof (rule keepsI)
  fix s assume "I s"
  obtain r t where "m s = (r, t)" by (cases "m s")
  with keepsD [OF assms \<open>I s\<close>] show "I (snd (case m s of (Inl UndefinedBehaviour, s) \<Rightarrow> (Inl UndefinedBehaviour, s)
    | (Inl e, s) \<Rightarrow> (g, s) | (Inr x, s) \<Rightarrow> (Inr x, s)))"
    by (simp split: sum.splits exn.splits)
qed

lemma keeps_reply [keeps_rules]: "keeps I (reply env r) any_value"
  by (simp add: reply_def keeps_pure)

lemma keeps_requireAuth [keeps_rules]:
  "keeps I body any_value \<Longrightarrow> keeps I (requireAuth env req body) any_value"
  using keeps_reply [of I env] by (auto simp: keeps_def requireAuth_def)

lemma keeps_try_catch [keeps_rules]:
  assumes "keeps I body any_value" shows "keeps I (try_catch env st body) any_value"
proof (rule keepsI)
  fix app assume app: "I app"
  obtain r app' where b: "body app = (r, app')" by (cases "body app")
  have "I app'" using keepsD [OF assms app] b by simp
  moreover from this have "I (snd (reply env x app'))" for x by (rule keepsD [OF keeps_reply])
  ultimately show "I (snd (try_catch env st body app))"
    by (auto simp: try_catch_def b split: sum.splits exn.splits)
qed

lemma keeps_json [keeps_rules]:
  "keeps I (json_body env req) any_value" "keeps I (at_u32 env k j) any_value" "keeps I (at_string env k j) any_value"
  by (simp_all add: json_body_def at_u32_def at_string_def keeps_pure)

section \<open>Servers that keep an invariant\<close>

text \<open>What a server needs for its hardware, decision and reading endpoints to keep an invariant.\<close>

locale server_core =
  fixes I :: "AppState \<Rightarrow> bool" and env :: admin_env
  assumes now_ok: "keeps I (app_now env) any_value"
    and push_ok: "keeps I (app_push e) any_value"
    and engine_ok: "keeps I (app_run_engine env bs) any_value"
    and detector_ok: "I app \<Longrightarrow> I (app\<lparr>app_anomalyDetector := det\<rparr>)"
begin

lemma event_ok: "keeps I (app_event env k msg r d q) any_value"
  unfolding app_event_def by (intro keeps_rules now_ok push_ok)

lemma services_ok:
  "keeps I (svc_listReaders env) any_value" "keeps I (svc_listDoorRoles env) any_value"
  "keeps I (svc_listCards env limit offset) any_value" "keeps I (svc_getEvents env after n) any_value"
  "keeps I (svc_listAuditLog env l o') any_value" "keeps I (svc_verifyAuditChain env) any_value"
  unfolding svc_listReaders_def svc_listDoorRoles_def svc_listCards_def
  by (intro keeps_rules, intro keeps_rules, intro keeps_rules)
    (auto intro!: keepsI simp: svc_getEvents_def svc_listAuditLog_def svc_verifyAuditChain_def Let_def
      split: sum.splits option.splits)

lemma unquarantine_ok: "keeps I (svc_unquarantineReader env r) any_value"
proof (rule keepsI)
  fix app assume "I app"
  then have "I (app\<lparr>app_anomalyDetector := det\<rparr>)" for det by (rule detector_ok)
  moreover have "keeps I (bindM (app_event env ''admin'' ''unquarantine'' r 0 0) (\<lambda>_.
      returnM (okResult (JObject [(''ok'', JBool True), (''reader_id'', JWord r)])))) any_value"
    by (intro keeps_rules event_ok)
  ultimately show "I (snd (svc_unquarantineReader env r app))"
    using \<open>I app\<close> by (auto simp: svc_unquarantineReader_def Let_def keepsD split: prod.splits)
qed

lemma hw_build_ok: "keeps I (hw_build env req ts) any_value"
  unfolding hw_build_def pushHwEvent_def by (intro keeps_rules keeps_either event_ok)

lemma hw_decide_ok: "keeps I (hw_decide env bs) any_value"
  using engine_ok [of bs] by (auto simp: keeps_def hw_decide_def)

lemma processHwUid_ok: "keeps I (svc_processHwUid env req) any_value"
  unfolding svc_processHwUid_def by (intro keeps_rules now_ok hw_build_ok hw_decide_ok)

lemma hw_uid_ok: "keeps I (route_hw_uid env req) any_value"
proof -
  have "keeps I (try_catch env kHttpBadRequest
      (bindM (json_body env req) (\<lambda>j.
       bindM (liftR (parseHwUidRequest (en_json (av_engine env)) j)) (\<lambda>parsed.
         case parsed of
           None \<Rightarrow> reply env (errorResult ''invalid request'' kHttpBadRequest)
         | Some hwReq \<Rightarrow>
             if hw_hw_seq hwReq = 0 then reply env (errorResult ''hw_seq must be > 0'' kHttpBadRequest)
             else bindM (svc_processHwUid env hwReq) (reply env))))) any_value"
    by (intro keeps_rules processHwUid_ok)
  then show ?thesis by (auto simp: keeps_def route_hw_uid_def Let_def split: option.splits)
qed

lemma decision_ok: "keeps I (route_decision env req) any_value"
proof (rule keepsI)
  fix app assume "I app"
  have "keeps I (\<lambda>app. case bindM (app_run_engine env (bytes_of_string (ht_body req))) (\<lambda>r. liftR (f r)) app of
      (Inl UndefinedBehaviour, app) \<Rightarrow> (Inl UndefinedBehaviour, app)
    | (Inl e, app) \<Rightarrow> (g, app) | (Inr res, app) \<Rightarrow> (Inr res, app)) any_value"
    for f :: "DecisionResult \<Rightarrow> HttpResponse result" and g
    by (intro keeps_catch keeps_rules engine_ok)
  note keepsD [OF this \<open>I app\<close>]
  with \<open>I app\<close> show "I (snd (route_decision env req app))"
    by (simp add: route_decision_def Let_def)
qed

lemma reads_ok:
  "keeps I route_root any_value" "keeps I (route_events env req) any_value"
  "keeps I (route_readers env req) any_value" "keeps I (route_door_roles env req) any_value"
  "keeps I (route_cards env req) any_value" "keeps I (route_audit env req) any_value"
  "keeps I (route_audit_verify env req) any_value" "keeps I (route_db_export env req) any_value"
  "keeps I (route_unquarantine env req) any_value"
  unfolding route_root_def route_events_def route_readers_def route_door_roles_def route_cards_def
    route_audit_def route_audit_verify_def route_db_export_def route_unquarantine_def Let_def
  by (intro keeps_rules services_ok unquarantine_ok)+

end

text \<open>And for the endpoints that write to the store or replace it.\<close>

locale server_writes = server_core +
  assumes write_ok: "keeps I (on_store m :: (AppState, unit) prog) any_value"
    and import_ok: "keeps I (importDbFile env) any_value"
begin

lemma write_services_ok:
  "keeps I (svc_upsertReader env r kv) any_value" "keeps I (svc_deleteReader env r) any_value"
  "keeps I (svc_bindDoor env r d) any_value" "keeps I (svc_unbindDoor env r d) any_value"
  "keeps I (svc_allowRole env d role) any_value" "keeps I (svc_revokeRole env d role) any_value"
  "keeps I (svc_deleteCard env h) any_value"
  unfolding svc_upsertReader_def svc_deleteReader_def svc_bindDoor_def svc_unbindDoor_def
    svc_allowRole_def svc_revokeRole_def svc_deleteCard_def
  by (intro keeps_rules write_ok event_ok)+

lemma upsertCard_ok: "keeps I (svc_upsertCard env cid role kv) any_value"
  unfolding svc_upsertCard_def Let_def by (intro keeps_rules keeps_either write_ok event_ok)

lemma importDatabase_ok: "keeps I (svc_importDatabase env data) any_value"
proof (rule keepsI)
  fix app assume "I app"
  moreover have "keeps I (bindM (importDbFile env) (\<lambda>error. returnM (f error))) any_value"
    for f :: "string option \<Rightarrow> ServiceResult" by (intro keeps_rules import_ok)
  note keepsD [OF this \<open>I app\<close>]
  ultimately show "I (snd (svc_importDatabase env data app))"
    by (simp add: svc_importDatabase_def)
qed

lemma writes_ok:
  "keeps I (route_post_reader env req) any_value" "keeps I (route_delete_reader env req) any_value"
  "keeps I (route_bind_door env req) any_value" "keeps I (route_unbind_door env req) any_value"
  "keeps I (route_allow_role env req) any_value" "keeps I (route_revoke_role env req) any_value"
  "keeps I (route_post_card env req) any_value" "keeps I (route_delete_card env req) any_value"
  "keeps I (route_db_import env req) any_value"
  unfolding route_post_reader_def route_delete_reader_def route_bind_door_def route_unbind_door_def
    route_allow_role_def route_revoke_role_def route_post_card_def route_delete_card_def
    route_db_import_def Let_def
  by (intro keeps_rules write_services_ok upsertCard_ok importDatabase_ok)+

lemma server_step_ok: "keeps I (registerRoutes rt env req) any_value"
  by (cases rt) (simp_all add: reads_ok writes_ok hw_uid_ok decision_ok)

end

section \<open>The access policy\<close>

text \<open>What decides about access, besides the state of the replay windows and the monitor.\<close>

definition app_policy ::
    "AppState \<Rightarrow> Database option \<times> (CardIdHasher \<times> FrameHandlerConfig) option \<times> SqliteAuditLog option \<times> Config \<times> KeyManager" where
  "app_policy app =
     (map_option fst (app_store app), app_engine app, app_audit app, app_cfg app, app_keyManager app)"

interpretation same_policy: server_core "\<lambda>app. app_policy app = D" env
  by unfold_locales
    (auto intro!: keepsI simp: app_policy_def app_now_def app_push_def app_run_engine_unfold Let_def
      split: prod.splits sum.splits option.splits)

section \<open>The audit log of the server\<close>

definition server_ok :: "sodium \<Rightarrow> bytes \<Rightarrow> AppState \<Rightarrow> bool" where
  "server_ok so key app \<longleftrightarrow>
     bus_inv (app_events app) \<and> deriveAuditHash so (app_keyManager app) = Inr key \<and>
     ex_auditChainEnabled (cf_experiment (app_cfg app)) \<and>
     (\<forall>found. database_file app = Some found \<longrightarrow> audit_valid so key (im_audit found)) \<and>
     (\<forall>lg. app_audit app = Some lg \<longrightarrow> lg = \<lparr>sl_key = key, sl_chainEnabled = True\<rparr>)"

lemma database_file_store [simp]:
  "app_store app = Some (db, c) \<Longrightarrow> database_file app = Some \<lparr>im_access = Some db, im_audit = committed c\<rparr>"
  "app_store app = None \<Longrightarrow> database_file app = app_file app"
  by (simp_all add: database_file_def)

lemma database_file_frame [simp]:
  "database_file (app\<lparr>app_events := bus\<rparr>) = database_file app" "database_file (app\<lparr>app_ticks := t\<rparr>) = database_file app"
  "database_file (app\<lparr>app_anomalyDetector := det\<rparr>) = database_file app"
  "database_file (app\<lparr>app_replayByReader := ws\<rparr>) = database_file app"
  "database_file (app\<lparr>app_engine := eng\<rparr>) = database_file app" "database_file (app\<lparr>app_audit := lg\<rparr>) = database_file app"
  by (simp_all add: database_file_def split: option.splits)

text \<open>The environments considered: one libsodium, and the look-up of the last entry works.\<close>

definition env_ok :: "sodium \<Rightarrow> admin_env \<Rightarrow> bool" where
  "env_ok so env \<longleftrightarrow> sodium_spec so \<and> en_sodium (av_engine env) = so \<and> lookup_works (av_append env)"

lemma server_push: "keeps (server_ok so key) (app_push e) any_value"
proof (rule keepsI)
  fix app assume app: "server_ok so key app"
  then have "bus_inv (snd (push e (app_events app)))"
    by (intro bus_sink.invar_emit) (simp add: server_ok_def)
  with app show "server_ok so key (snd (app_push e app))"
    by (auto simp: app_push_def server_ok_def split: prod.splits sum.splits)
qed

lemma server_now: "keeps (server_ok so key) (app_now env) any_value"
  by (rule keepsI) (simp add: server_ok_def app_now_def)

lemma server_event: "keeps (server_ok so key) (app_event env k msg r d q) any_value"
  unfolding app_event_def by (intro keeps_rules server_now server_push)

lemma server_on_store: "keeps (server_ok so key) (on_store m :: (AppState, 'r) prog) any_value"
  by (rule keepsI) (auto simp: on_store_def server_ok_def split: option.splits prod.splits)

lemma server_engine:
  assumes "env_ok so env"
  shows "keeps (server_ok so key) (app_run_engine env bs) any_value"
proof (rule keepsI)
  fix app assume app: "server_ok so key app"
  show "server_ok so key (snd (app_run_engine env bs app))"
  proof (cases "\<exists>hasher cfg db c lg. app_engine app = Some (hasher, cfg) \<and> app_store app = Some (db, c) \<and> app_audit app = Some lg")
    case True
    then obtain hasher cfg db c lg where ptrs: "app_engine app = Some (hasher, cfg)" "app_store app = Some (db, c)"
      "app_audit app = Some lg" by blast
    let ?so = "en_sodium (av_engine env)"
    let ?P = "\<lambda>c. sl_chainEnabled lg \<and> lookup_works (av_append env) \<and> audit_valid ?so (sl_key lg) (committed c)"
    let ?eng = "\<lparr>de_store = Some (SqliteAccessStore (av_query env) db), de_hasher = hasher,
        de_audit = \<lparr>al_append = audit_append ?so lg (av_append env)\<rparr>, de_keyManager = app_keyManager app,
        de_frameHandlerCfg = cfg\<rparr>"
    let ?s = "\<lparr>es_windows = app_replayByReader app, es_detector = Some (app_anomalyDetector app),
        es_audit = Some c, es_events = Some (app_events app), es_ticks = app_ticks app\<rparr>"
    have lg: "lg = \<lparr>sl_key = key, sl_chainEnabled = True\<rparr>" and so: "?so = so"
      using app ptrs assms by (auto simp: server_ok_def env_ok_def)
    have "around_ok ?P ?s"
      using app ptrs assms by (auto simp: around_ok_def bus_ok_def server_ok_def env_ok_def lg)
    moreover have "keeps (around_ok ?P) (handleFrameBytes (av_engine env) ?eng bs) any_value"
      by (rule sqlite_event_log.engine_keeps) simp
    ultimately have after: "around_ok ?P (snd (handleFrameBytes (av_engine env) ?eng bs ?s))" by (rule keepsD [rotated])
    show ?thesis
      using app ptrs after lg so
      by (auto simp: app_run_engine_unfold Let_def server_ok_def around_ok_def bus_ok_def split: prod.splits option.splits)
  next
    case False
    then show ?thesis using app by (auto simp: app_run_engine_unfold split: option.splits)
  qed
qed

lemma server_open:
  assumes "env_ok so env" and "audit_valid so key (im_audit found)"
  shows "keeps (server_ok so key) (openOrCreate env found) any_value"
proof -
  have "keeps (server_ok so key) (open_store env found) any_value"
    unfolding open_store_def
    by (intro keeps_rules keepsI) (use assms(2) in \<open>simp add: server_ok_def committed_def\<close>)
  moreover have "keeps (server_ok so key) (open_audit env) any_value"
  proof (rule keepsI)
    fix app assume app: "server_ok so key app"
    have h: "deriveAuditHash (en_sodium (av_engine env)) (app_keyManager app) = Inr key"
      using app assms(1) by (simp add: server_ok_def env_ok_def)
    have "audit_valid so key (committed d)"
      if "audit_valid so key (committed c)" "audit_initSchema err c = (r, d)" for err c r d
      using that by (auto simp: audit_initSchema_def committed_def audit_valid_def by_id_def split: option.splits)
    with app h show "server_ok so key (snd (open_audit env app))"
      by (auto simp: open_audit_def SqliteAuditLog_init_def server_ok_def split: option.splits prod.splits sum.splits)
  qed
  moreover have "keeps (server_ok so key) (open_engine env) any_value"
    by (rule keepsI) (auto simp: open_engine_def server_ok_def split: sum.splits)
  moreover have "keeps (server_ok so key) (\<lambda>app. app_event env ''admin'' (f app) 0 0 0 app) any_value" for f
    using server_event by (simp add: keeps_def)
  ultimately show ?thesis
    unfolding openOrCreate_def by (intro keeps_rules)
qed

text \<open>The checks of an uploaded database let through only one whose log verifies.\<close>

lemma checked_upload_valid:
  assumes "env_ok so env" and "server_ok so key app" and "fst (import_check env app) = Inr None"
  shows "audit_valid so key (im_audit (up_image (av_upload env)))"
  using assms
  by (auto simp: import_check_def verifyUploadedAuditChain_def server_ok_def env_ok_def bindR_Inr_iff
      intro: verified_valid split: option.splits if_splits)

lemma server_check: "snd (import_check env app) = app"
  by (simp add: import_check_def split: option.splits)

lemma server_replace:
  assumes "server_ok so key app" and "audit_valid so key (im_audit (up_image (av_upload env)))"
  shows "server_ok so key (snd (import_replace env app))"
  using assms by (auto simp: import_replace_def replaceDbFile_def server_ok_def split: option.splits)

lemma replaced_file: "fst (import_replace env app) = Inr None \<Longrightarrow> database_file (snd (import_replace env app)) \<noteq> None"
  by (auto simp: import_replace_def replaceDbFile_def split: option.splits)

lemma server_reopen:
  assumes "env_ok so env" and "server_ok so key app" and "database_file app \<noteq> None"
  shows "server_ok so key (snd (import_reopen env app))"
proof -
  obtain found where found: "database_file app = Some found" using assms(3) by auto
  then have "audit_valid so key (im_audit found)" using assms(2) by (simp add: server_ok_def)
  from keepsD [OF server_open [OF assms(1) this] assms(2)] found show ?thesis by (simp add: import_reopen_def)
qed

lemma server_import:
  assumes "env_ok so env"
  shows "keeps (server_ok so key) (importDbFile env) any_value"
proof (rule keepsI)
  fix app assume app: "server_ok so key app"
  let ?announce = "bindM (app_event env ''admin'' ''db imported + reopened'' 0 0 0) (\<lambda>_. returnM (None :: string option))"
  obtain r1 where check: "import_check env app = (r1, app)" using server_check [of env app] by (metis prod.collapse)
  obtain r2 app2 where replace: "import_replace env app = (r2, app2)" by (metis prod.collapse)
  obtain r3 app3 where reopen: "import_reopen env app2 = (r3, app3)" by (metis prod.collapse)
  have app2: "server_ok so key app2" if "r1 = Inr None"
    using server_replace [OF app checked_upload_valid [OF assms app]] that check replace by simp
  have app3: "server_ok so key app3" if "r1 = Inr None" "r2 = Inr None"
    using server_reopen [OF assms app2 [OF that(1)]] replaced_file [of env app] that(2) replace reopen by simp
  have "keeps (server_ok so key) ?announce any_value" by (intro keeps_rules server_event)
  with app app2 app3 show "server_ok so key (snd (importDbFile env app))"
    by (auto simp: importDbFile_def bindM_apply [of "import_check env"] bindM_apply [of "import_replace env"]
        bindM_apply [of "import_reopen env"] check replace reopen keepsD split: option.splits sum.splits)
qed

interpretation logged_server: server_writes "\<lambda>app. env_ok so env \<and> server_ok so key app" env
proof unfold_locales
  have guarded: "keeps (\<lambda>app. env_ok so env \<and> server_ok so key app) m any_value"
    if "env_ok so env \<Longrightarrow> keeps (server_ok so key) m any_value" for m :: "(AppState, 'x) prog"
    using that by (simp add: keeps_def)
  show "keeps (\<lambda>app. env_ok so env \<and> server_ok so key app) (app_now env) any_value"
    and "keeps (\<lambda>app. env_ok so env \<and> server_ok so key app) (app_push e) any_value"
    and "keeps (\<lambda>app. env_ok so env \<and> server_ok so key app) (app_run_engine env bs) any_value"
    and "keeps (\<lambda>app. env_ok so env \<and> server_ok so key app) (on_store m :: (AppState, unit) prog) any_value"
    and "keeps (\<lambda>app. env_ok so env \<and> server_ok so key app) (importDbFile env) any_value" for e bs m
    by (intro keepsI conjI; elim conjE; assumption?;
        blast intro: keepsD [OF server_now] keepsD [OF server_push] keepsD [OF server_engine]
          keepsD [OF server_on_store] keepsD [OF server_import])+
qed (simp add: server_ok_def)

section \<open>Runs of the server\<close>

text \<open>A request is served in one step. The critical sections of the hardware service and of an import
  are also steps of their own, since other requests can come between them. What has undefined
  behaviour has no successor.

  A server is started on a fresh database, or on what a process that ended left in the file: after
  any step, and so also when it ended by a null pointer behind a failed import. Within a step the file
  changes at most once, by one transaction, except while an import copies the upload over it: the
  copy that fails or is broken off there may leave a part of a database (\<open>database_file app = None\<close>),
  from which no restart is considered.\<close>

inductive server_step :: "sodium \<Rightarrow> AppState \<Rightarrow> AppState \<Rightarrow> bool" where
  request: "env_ok so env \<Longrightarrow> registerRoutes rt env req app = (r, app') \<Longrightarrow> r \<noteq> Inl UndefinedBehaviour \<Longrightarrow>
    server_step so app app'"
| building: "env_ok so env \<Longrightarrow> hw_build env hw ts app = (b, app') \<Longrightarrow> b \<noteq> Inl UndefinedBehaviour \<Longrightarrow>
    server_step so app app'"
| deciding: "env_ok so env \<Longrightarrow> hw_decide env bs app = (d, app') \<Longrightarrow> d \<noteq> Inl UndefinedBehaviour \<Longrightarrow>
    server_step so app app'"
| replacing: "env_ok so env \<Longrightarrow> fst (import_check env app) = Inr None \<Longrightarrow> import_replace env app = (e, app') \<Longrightarrow>
    server_step so app app'"
| reopening: "env_ok so env \<Longrightarrow> database_file app \<noteq> None \<Longrightarrow> import_reopen env app = (u, app') \<Longrightarrow>
    u \<noteq> Inl UndefinedBehaviour \<Longrightarrow> server_step so app app'"
| announcing: "env_ok so env \<Longrightarrow> app_event env ''admin'' ''db imported + reopened'' 0 0 0 app = (u, app') \<Longrightarrow>
    u \<noteq> Inl UndefinedBehaviour \<Longrightarrow> server_step so app app'"

inductive server_reachable :: "sodium \<Rightarrow> Config \<Rightarrow> KeyManager \<Rightarrow> AppState \<Rightarrow> bool"
  for so :: sodium and cfg :: Config and km :: KeyManager where
  started: "env_ok so env \<Longrightarrow> openOrCreate env fresh_image (AppState_init cfg path km) = (Inr (), app) \<Longrightarrow>
    server_reachable so cfg km app"
| restarted: "server_reachable so cfg km app \<Longrightarrow> database_file app = Some found \<Longrightarrow> env_ok so env \<Longrightarrow>
    openOrCreate env found (AppState_init cfg path km) = (Inr (), app') \<Longrightarrow> server_reachable so cfg km app'"
| stepped: "server_reachable so cfg km app \<Longrightarrow> server_step so app app' \<Longrightarrow> server_reachable so cfg km app'"

lemma bus_inv_init: "mx \<noteq> 0 \<Longrightarrow> bus_inv (EventBus_init mx)"
  by (simp add: bus_inv_def EventBus_init_def word_gt_0)

lemma init_server_ok:
  assumes "deriveAuditHash so km = Inr key" and "ex_auditChainEnabled (cf_experiment cfg)"
    and "adm_maxEvents (cf_admin cfg) \<noteq> 0"
  shows "server_ok so key (AppState_init cfg path km)"
  using assms by (simp add: server_ok_def AppState_init_def bus_inv_init)

lemma store_audit_commute: "app\<lparr>app_store := x, app_audit := y\<rparr> = app\<lparr>app_audit := y, app_store := x\<rparr>"
  by (cases app) simp

lemma fresh_open_ok:
  assumes "server_ok so key app" and "env_ok so env" and "openOrCreate env fresh_image app = (Inr (), app')"
  shows "server_ok so key app'"
proof -
  have "openOrCreate env (fresh_image\<lparr>im_audit := no_audit_tables\<lparr>at_anchor := Some (zero_hash, 0)\<rparr>\<rparr>) app = (Inr (), app')"
    using assms(3)
    by (auto simp: openOrCreate_def open_store_def open_audit_def SqliteAuditLog_init_def audit_initSchema_def
        fresh_image_def no_audit_tables_def throw_if_def bindM_apply store_audit_commute split: prod.splits sum.splits option.splits)
  moreover have "audit_valid so key (no_audit_tables\<lparr>at_anchor := Some (zero_hash, 0)\<rparr>)"
    by (simp add: audit_valid_def by_id_def no_audit_tables_def)
  ultimately show ?thesis
    using keepsD [OF server_open [OF assms(2)] assms(1)] by (metis db_image.select_convs(2) db_image.update_convs(2) db_image.surjective snd_conv)
qed

lemma reachable_server_ok:
  assumes "server_reachable so cfg km app"
    and "deriveAuditHash so km = Inr key" and "ex_auditChainEnabled (cf_experiment cfg)"
    and "adm_maxEvents (cf_admin cfg) \<noteq> 0"
  shows "server_ok so key app"
  using assms(1)
proof induction
  case (started env path app)
  then show ?case using fresh_open_ok init_server_ok assms(2-4) by blast
next
  case (restarted app found env path app')
  then have "audit_valid so key (im_audit found)" by (simp add: server_ok_def)
  with restarted have "keeps (server_ok so key) (openOrCreate env found) any_value"
    by (intro server_open) simp_all
  from keepsD [OF this init_server_ok [OF assms(2-4)]] show ?case
    using restarted by (metis snd_conv)
next
  case (stepped app app')
  note app = stepped.IH
  from \<open>server_step so app app'\<close> show ?case
  proof (cases rule: server_step.cases)
    case (request env rt req r)
    with keepsD [OF logged_server.server_step_ok, where s = app] app show ?thesis by (metis snd_conv)
  next
    case (building env hw ts b)
    with keepsD [OF logged_server.hw_build_ok, where s = app] app show ?thesis by (metis snd_conv)
  next
    case (deciding env bs d)
    with keepsD [OF logged_server.hw_decide_ok, where s = app] app show ?thesis by (metis snd_conv)
  next
    case (replacing env e)
    then show ?thesis using server_replace [OF app checked_upload_valid] app by (metis snd_conv)
  next
    case (reopening env u)
    then show ?thesis using server_reopen app by (metis snd_conv)
  next
    case (announcing env u)
    then show ?thesis using keepsD [OF server_event app] by (metis snd_conv)
  qed
qed

text \<open>What \<^verbatim>\<open>main\<close> starts on a fresh database is such a server.\<close>

lemma server_start_opened:
  assumes "server_start env yl files databases path = Inr app"
  obtains cfg km where "loadFromYaml yl path = Inr cfg"
    and "openOrCreate env (databases (sc_sqlitePath (cf_storage cfg))) (AppState_init cfg (sc_sqlitePath (cf_storage cfg)) km) =
      (Inr (), app)"
proof -
  obtain cfg master km where cfg: "loadFromYaml yl path = Inr cfg"
    and run: "fst (bindM (openOrCreate env (databases (sc_sqlitePath (cf_storage cfg)))) (\<lambda>_ app. (Inr app, app))
      (AppState_init cfg (sc_sqlitePath (cf_storage cfg)) km)) = Inr app"
    using assms by (auto simp: server_start_def Let_def bindR_Inr_iff)
  from run have "openOrCreate env (databases (sc_sqlitePath (cf_storage cfg)))
      (AppState_init cfg (sc_sqlitePath (cf_storage cfg)) km) = (Inr (), app)"
    by (simp add: bindM_apply split: prod.splits sum.splits)
  with cfg show thesis by (rule that)
qed

lemma server_start_reachable:
  assumes "server_start env yl files (\<lambda>_. fresh_image) path = Inr app" and "env_ok so env"
  obtains cfg km where "loadFromYaml yl path = Inr cfg" and "server_reachable so cfg km app"
  using server_start_opened [OF assms(1)] started [OF assms(2)] that by metis

end
