(* ===== verification/Server_Properties.thy ===== *)
theory Server_Properties
  imports Server_Invariants
begin

text \<open>
  The guarantees of the running server: its audit log verifies at all times, only authorised requests
  change the policy, and a card presented at a reader's hardware opens the door exactly when the
  policy says so. The last section shows what a failed import and an overlong identifier in a path
  do.
\<close>

section \<open>A concrete server\<close>

definition demo_km :: KeyManager where
  "demo_km = \<lparr>km_masterKey = replicate 32 7,
     km_cfg = \<lparr>kc_currentKeyVersion = 1, kc_allowPreviousKeyVersion = True\<rparr>\<rparr>"

definition demo_config :: Config where
  "demo_config = \<lparr>cf_frameHandler = default_FrameHandlerConfig, cf_storage = default_StorageConfig,
     cf_admin = default_AdminConfig\<lparr>adm_adminToken := ''secret''\<rparr>,
     cf_keyManagement = default_KeyManagementYaml, cf_experiment = default_ExperimentConfig\<rparr>"

definition demo_upload :: upload where
  "demo_upload = \<lparr>up_integrity_opens = True, up_verify_opens = True, up_integrity = IntegrityRow (Some ''ok''),
     up_image = fresh_image, up_rows = SqlOk, up_anchor = SqlOk, up_copy_error = None,
     up_copy_damages = False\<rparr>"

definition demo_admin_env :: admin_env where
  "demo_admin_env = \<lparr>av_engine = demo_env, av_query = (\<lambda>_. SqlOk), av_stmt = SqlOk, av_append = healthy,
     av_rows = SqlOk, av_anchor = SqlOk, av_open = opens_fine, av_upload = demo_upload, av_file = None,
     av_rnd_prefix = [], av_rnd_nonce = [], av_sodium_init = True, av_http = (\<lambda>_. None), av_vectorMax = 1000,
     av_salvaged = fresh_image\<rparr>"

section \<open>Starting\<close>

lemma auditHash_ok: "sodium_spec so \<Longrightarrow> \<exists>key. deriveAuditHash so km = Inr key"
  using derive_for_eq [of so AuditKey km] by (auto simp: deriveAuditHash_def)

lemma cardPepper_ok: "sodium_spec so \<Longrightarrow> kv \<noteq> 0 \<Longrightarrow> \<exists>p. deriveCardPepper so km kv = Inr p"
  using derive_for_eq [of so "CardPepper kv" km] by simp

text \<open>What a server is after its database was opened without failures.\<close>

lemma opened:
  assumes "av_open env = opens_fine" and "deriveAuditHash (en_sodium (av_engine env)) (app_keyManager app) = Inr key"
    and "deriveCardPepper (en_sodium (av_engine env)) (app_keyManager app)
      (kmy_currentKeyVersion (cf_keyManagement (app_cfg app))) = Inr pepper"
    and "bus_inv (app_events app)"
  obtains app' where "openOrCreate env found app = (Inr (), app')"
    and "app_engine app' = Some (CardIdHasher_init pepper, engine_config (app_cfg app))"
    and "app_audit app' = Some \<lparr>sl_key = key, sl_chainEnabled = ex_auditChainEnabled (cf_experiment (app_cfg app))\<rparr>"
    and "app_store app' = Some (initSchema (im_access found), \<lparr>ac_tables = (im_audit found)\<lparr>at_anchor :=
      (case at_anchor (im_audit found) of None \<Rightarrow> Some (zero_hash, 0) | Some a \<Rightarrow> Some a)\<rparr>, ac_saved = None\<rparr>)"
    and "app_cfg app' = app_cfg app" and "app_keyManager app' = app_keyManager app"
    and "app_anomalyDetector app' = app_anomalyDetector app" and "app_replayByReader app' = app_replayByReader app"
    and "bus_inv (app_events app')"
proof -
  let ?msg = "''storage opened: '' @ app_dbPath app"
  define e where "e = default_Event\<lparr>ev_ts_unix_ms := en_clock (av_engine env) (app_ticks app), ev_kind := ''admin'',
    ev_message := ?msg, ev_reader_id := 0, ev_door_id := 0, ev_seq := 0\<rparr>"
  obtain i bus where push: "push e (app_events app) = (Inr i, bus)" and bus: "bus_inv bus"
    using bus_sink.emit_total [OF assms(4), of e] bus_sink.invar_emit [OF assms(4), of e]
    by (cases "push e (app_events app)") auto
  let ?app = "app\<lparr>app_store := Some (initSchema (im_access found), \<lparr>ac_tables = (im_audit found)\<lparr>at_anchor :=
      (case at_anchor (im_audit found) of None \<Rightarrow> Some (zero_hash, 0) | Some a \<Rightarrow> Some a)\<rparr>, ac_saved = None\<rparr>),
    app_audit := Some \<lparr>sl_key = key, sl_chainEnabled = ex_auditChainEnabled (cf_experiment (app_cfg app))\<rparr>,
    app_engine := Some (CardIdHasher_init pepper, engine_config (app_cfg app)),
    app_ticks := Suc (app_ticks app), app_events := bus\<rparr>"
  have "openOrCreate env found app = (Inr (), ?app)"
    using assms(1-3) push
    by (simp add: openOrCreate_def open_store_def open_audit_def open_engine_def SqliteAuditLog_init_def
        audit_initSchema_def throw_if_def bindM_apply opens_fine_def app_event_def app_now_def app_push_def
        e_def store_audit_commute)
  then show thesis by (rule that) (simp_all add: bus)
qed

lemma demo_opened:
  obtains app c where "openOrCreate demo_admin_env fresh_image (AppState_init demo_config ''a.db'' demo_km) = (Inr (), app)"
    and "app_store app = Some (initSchema None, c)" and "app_cfg app = demo_config"
proof -
  obtain key where key: "deriveAuditHash toy_sodium demo_km = Inr key" using auditHash_ok [OF toy_sodium_spec] by blast
  obtain p where p: "deriveCardPepper toy_sodium demo_km 1 = Inr p" using cardPepper_ok [OF toy_sodium_spec] by fastforce
  have max: "adm_maxEvents (cf_admin demo_config) \<noteq> 0"
    by (simp add: demo_config_def default_AdminConfig_def)
  show thesis
    by (rule opened [where env = demo_admin_env and app = "AppState_init demo_config ''a.db'' demo_km" and key = key
          and pepper = p and found = fresh_image])
      (use key p max in \<open>auto intro!: that bus_inv_init simp: demo_admin_env_def demo_env_def AppState_init_def
        demo_config_def default_KeyManagementYaml_def default_AdminConfig_def fresh_image_def\<close>)
qed

section \<open>The audit log\<close>


lemma demo_env_ok: "env_ok toy_sodium demo_admin_env"
  by (simp add: env_ok_def toy_sodium_spec demo_admin_env_def demo_env_def lookup_works_def healthy_def)

text \<open>The witness is a server whose import failed in copying and that was started again.\<close>

definition demo_failing_env :: admin_env where
  "demo_failing_env = demo_admin_env\<lparr>av_upload := demo_upload\<lparr>up_copy_error := Some ''disk full'',
     up_image := \<lparr>im_access = None, im_audit = no_audit_tables\<lparr>at_anchor := Some (zero_hash, 0)\<rparr>\<rparr>\<rparr>\<rparr>"

lemma demo_failed_import:
  assumes "app_store app = Some (db, c)"
  shows "import_replace demo_failing_env app = (Inr (Some ''failed to replace db: disk full''),
    app\<lparr>app_file := Some \<lparr>im_access = Some db, im_audit = committed c\<rparr>, app_store := None, app_audit := None, app_engine := None\<rparr>)"
  using assms by (simp add: import_replace_def replaceDbFile_def demo_failing_env_def demo_upload_def)

lemma demo_check_passes: "fst (import_check demo_failing_env app) = Inr None"
proof -
  obtain key where key: "deriveAuditHash toy_sodium (app_keyManager app) = Inr key" using auditHash_ok [OF toy_sodium_spec] by blast
  show ?thesis
    by (simp add: import_check_def sqliteIntegrityOk_def verifyUploadedAuditChain_def demo_failing_env_def demo_upload_def
        demo_admin_env_def demo_env_def key verifyAuditChain_def verifyAnchor_def by_id_def no_audit_tables_def zero_hash_def
        step_fails_def kHashSize_def c_str_id nul_char)
qed


section \<open>Authorisation\<close>

definition open_routes :: "route set" where "open_routes = {Root, HwUid, Decision}"

definition policy_writes :: "route set" where
  "policy_writes = {PostReader, DeleteReader, BindDoor, UnbindDoor, AllowRole, RevokeRole, PostCard, DeleteCard, DbImport}"

lemmas route_defs = route_root_def route_events_def route_readers_def route_post_reader_def route_delete_reader_def
  route_bind_door_def route_unbind_door_def route_unquarantine_def route_door_roles_def route_allow_role_def
  route_revoke_role_def route_cards_def route_post_card_def route_delete_card_def route_audit_def
  route_audit_verify_def route_db_export_def route_db_import_def

abbreviation admin_token :: "AppState \<Rightarrow> string" where
  "admin_token app \<equiv> adm_adminToken (cf_admin (app_cfg app))"

lemma refused:
  assumes "rt \<notin> open_routes" and "\<not> checkAuth req (admin_token app)"
  shows "registerRoutes rt env req app =
    (sendResult (en_json (av_engine env)) empty_response (errorResult ''unauthorized'' kHttpUnauthorized), app)"
  using assms by (cases rt) (simp_all add: open_routes_def route_defs requireAuth_def reply_def)

lemma unsigned_refused:
  assumes "verifyHwSignature (en_sodium (av_engine env)) (av_sodium_init env) (ht_header req ''X-HW-Signature'')
      (ht_body req) (adm_hwSharedSecretHex (cf_admin (app_cfg app))) \<noteq> None"
  shows "snd (route_hw_uid env req app) = app"
  using assms by (auto simp: route_hw_uid_def Let_def)

lemma policy_kept:
  assumes "rt \<notin> policy_writes"
  shows "app_policy (snd (registerRoutes rt env req app)) = app_policy app"
  using assms
    keepsD [OF same_policy.hw_uid_ok [of "app_policy app" env req] refl]
    keepsD [OF same_policy.decision_ok [of "app_policy app" env req] refl]
  by (cases rt) (simp_all add: policy_writes_def
      keepsD [OF same_policy.reads_ok(1) [of "app_policy app"] refl] keepsD [OF same_policy.reads_ok(2) [of "app_policy app"] refl]
      keepsD [OF same_policy.reads_ok(3) [of "app_policy app"] refl] keepsD [OF same_policy.reads_ok(4) [of "app_policy app"] refl]
      keepsD [OF same_policy.reads_ok(5) [of "app_policy app"] refl] keepsD [OF same_policy.reads_ok(6) [of "app_policy app"] refl]
      keepsD [OF same_policy.reads_ok(7) [of "app_policy app"] refl] keepsD [OF same_policy.reads_ok(8) [of "app_policy app"] refl]
      keepsD [OF same_policy.reads_ok(9) [of "app_policy app"] refl])

text \<open>
  C9: changes are authorised. A request that changes anything in the server's state comes to the
  decision endpoint, or to the hardware endpoint with a valid signature, or carries the admin token
  (an empty configured token admits everybody). A request that changes the access policy (database,
  configuration, keys or the engine's settings) carries the admin token and comes to one of the nine
  endpoints that administrate it: no frame and no hardware message ever does.
\<close>

theorem changes_authorised:
  assumes "registerRoutes rt env req app = (r, app')" and "app' \<noteq> app"
  shows "(rt = Decision \<or>
      rt = HwUid \<and> verifyHwSignature (en_sodium (av_engine env)) (av_sodium_init env)
        (ht_header req ''X-HW-Signature'') (ht_body req) (adm_hwSharedSecretHex (cf_admin (app_cfg app))) = None \<or>
      checkAuth req (admin_token app)) \<and>
    (app_policy app' = app_policy app \<or> rt \<in> policy_writes \<and> checkAuth req (admin_token app))"
proof
  have root: "rt \<noteq> Root" using assms by (auto simp: route_root_def)
  have hw: "rt = HwUid \<Longrightarrow> verifyHwSignature (en_sodium (av_engine env)) (av_sodium_init env)
      (ht_header req ''X-HW-Signature'') (ht_body req) (adm_hwSharedSecretHex (cf_admin (app_cfg app))) = None"
    using unsigned_refused assms by (metis registerRoutes.simps(19) snd_conv)
  have auth: "rt \<notin> open_routes \<Longrightarrow> checkAuth req (admin_token app)"
    using refused assms by (metis snd_conv)
  show "rt = Decision \<or>
      rt = HwUid \<and> verifyHwSignature (en_sodium (av_engine env)) (av_sodium_init env)
        (ht_header req ''X-HW-Signature'') (ht_body req) (adm_hwSharedSecretHex (cf_admin (app_cfg app))) = None \<or>
      checkAuth req (admin_token app)"
    using root hw auth by (auto simp: open_routes_def)
  have "policy_writes \<inter> open_routes = {}" by (simp add: policy_writes_def open_routes_def)
  then show "app_policy app' = app_policy app \<or> rt \<in> policy_writes \<and> checkAuth req (admin_token app)"
    using policy_kept [of rt env req app] auth assms(1) by auto
qed

definition demo_admin_json :: json_lib where
  "demo_admin_json = demo_json\<lparr>jl_parse := (\<lambda>s.
     Inr (JObject [(''current_key_version'', JInt 1), (''reader_id'', JInt 5)]))\<rparr>"

definition demo_post_env :: admin_env where
  "demo_post_env = demo_admin_env\<lparr>av_engine := demo_env\<lparr>en_json := demo_admin_json\<rparr>\<rparr>"

definition demo_post :: HttpRequest where
  "demo_post = \<lparr>ht_header = (\<lambda>h. if h = ''X-Admin-Token'' then ''secret'' else []), ht_param = (\<lambda>_. None),
     ht_body = ''{}'', ht_match = (\<lambda>_. ''7''), ht_is_multipart = False, ht_file = (\<lambda>_. None)\<rparr>"

definition demo_server :: AppState where
  "demo_server = (AppState_init demo_config ''a.db'' demo_km)\<lparr>app_store :=
     Some (initSchema None, \<lparr>ac_tables = no_audit_tables, ac_saved = None\<rparr>)\<rparr>"

lemma demo_posted:
  obtains r app' where "registerRoutes PostReader demo_post_env demo_post demo_server = (r, app')"
    and "app_policy app' \<noteq> app_policy demo_server"
proof -
  obtain r app' where run: "registerRoutes PostReader demo_post_env demo_post demo_server = (r, app')"
    by (cases "registerRoutes PostReader demo_post_env demo_post demo_server")
  have "app_policy (snd (registerRoutes PostReader demo_post_env demo_post demo_server)) \<noteq> app_policy demo_server"
    by (simp add: route_post_reader_def requireAuth_def checkAuth_def demo_post_def demo_server_def AppState_init_def
        demo_config_def default_AdminConfig_def try_catch_def bindM_apply json_body_def at_u32_def demo_post_env_def
        demo_admin_env_def demo_admin_json_def demo_env_def json_at_def svc_upsertReader_def on_store_def
        upsertReader_def app_event_def app_now_def app_push_def push_eq [OF bus_inv_init] reply_def sendResult_def
        setJson_def demo_json_def ok_true_def okResult_def app_policy_def initSchema_def sql_upsert_def)
  with run that show thesis by simp
qed

theorem changes_authorised_witness:
  "\<exists>r app'. registerRoutes PostReader demo_post_env demo_post demo_server = (r, app') \<and>
    app_policy app' \<noteq> app_policy demo_server \<and> checkAuth demo_post (admin_token demo_server)"
proof (rule demo_posted)
  fix r app'
  assume run: "registerRoutes PostReader demo_post_env demo_post demo_server = (r, app')"
    and policy: "app_policy app' \<noteq> app_policy demo_server"
  then have "app' \<noteq> demo_server" by auto
  from changes_authorised [OF run this] policy run show ?thesis by blast
qed

section \<open>From the card to the door\<close>

text \<open>The engine the server calls, and its state, put together from the server's objects.\<close>

definition server_engine :: "admin_env \<Rightarrow> AppState \<Rightarrow> Database \<Rightarrow> SqliteAuditLog \<Rightarrow> CardIdHasher \<Rightarrow> AuditConn DecisionEngine" where
  "server_engine env app db lg hasher =
     \<lparr>de_store = Some (SqliteAccessStore (av_query env) db), de_hasher = hasher,
      de_audit = \<lparr>al_append = audit_append (en_sodium (av_engine env)) lg (av_append env)\<rparr>,
      de_keyManager = app_keyManager app, de_frameHandlerCfg = engine_config (app_cfg app)\<rparr>"

definition server_engine_state :: "AppState \<Rightarrow> AuditConn \<Rightarrow> AuditConn engine_state" where
  "server_engine_state app conn =
     \<lparr>es_windows = app_replayByReader app, es_detector = Some (app_anomalyDetector app),
      es_audit = Some conn, es_events = Some (app_events app), es_ticks = app_ticks app\<rparr>"

text \<open>A server in working order, with its parts.\<close>

definition in_order :: "admin_env \<Rightarrow> AppState \<Rightarrow> Database \<Rightarrow> AuditConn \<Rightarrow> SqliteAuditLog \<Rightarrow> CardIdHasher \<Rightarrow> bool" where
  "in_order env app db conn lg hasher \<longleftrightarrow>
     sodium_spec (en_sodium (av_engine env)) \<and> json_spec (en_json (av_engine env)) \<and>
     av_query env = (\<lambda>_. SqlOk) \<and> av_append env = healthy \<and> bus_inv (app_events app) \<and>
     app_engine app = Some (hasher, engine_config (app_cfg app)) \<and> app_store app = Some (db, conn) \<and>
     app_audit app = Some lg \<and> sl_chainEnabled lg \<and> log_ready (en_sodium (av_engine env)) lg conn"

lemma run_engine_eq:
  assumes "in_order env app db conn lg hasher"
  shows "fst (app_run_engine env bs app) = fst (handleFrameBytes (av_engine env)
    (server_engine env app db lg hasher) bs (server_engine_state app conn))"
  using assms
  by (simp add: app_run_engine_unfold in_order_def server_engine_def server_engine_state_def split: prod.splits)

lemma app_event_ok:
  assumes "in_order env app db conn lg hasher"
  obtains app' where "app_event env k msg r d q app = (Inr (), app')" and "in_order env app' db conn lg hasher"
    and "app_cfg app' = app_cfg app" and "app_keyManager app' = app_keyManager app"
    and "app_anomalyDetector app' = app_anomalyDetector app" and "app_replayByReader app' = app_replayByReader app"
    and "app_ticks app' = Suc (app_ticks app)"
proof -
  have bus: "bus_inv (app_events app)" using assms by (simp add: in_order_def)
  have inv: "bus_inv (snd (push e (app_events app)))" for e by (rule bus_sink.invar_emit [OF bus])
  let ?e = "default_Event\<lparr>ev_ts_unix_ms := en_clock (av_engine env) (app_ticks app), ev_kind := k,
    ev_message := msg, ev_reader_id := r, ev_door_id := d, ev_seq := q\<rparr>"
  have "app_event env k msg r d q app =
      (Inr (), app\<lparr>app_ticks := Suc (app_ticks app), app_events := snd (push ?e (app_events app))\<rparr>)"
    by (simp add: app_event_def bindM_apply app_now_def app_push_def push_eq [OF bus])
  then show thesis
    by (rule that) (use assms inv in \<open>simp_all add: in_order_def\<close>)
qed

lemma sealWithNonce_prefix_irrelevant:
  "sealWithNonce so (SecureAead_init rnd k m) pt aad nonce = sealWithNonce so (SecureAead_init [] k m) pt aad nonce"
  by (simp add: sealWithNonce_def encryptDetached_def SecureAead_init_def)

text \<open>What the gateway builds is, for the engine, a frame sealed for its header.\<close>

lemma built_sealed:
  assumes "sodium_spec so" and "buildPayloadJson jl uid act = Inr text"
    and "length text \<le> unat (fh_maxCtLen (cf_frameHandler cfg))"
    and fh: "fh_config fh = engine_config cfg" "fh_keyManager fh = km"
  obtains h bs where "buildEncryptedFrameBytes so jl rnd1 rnd2 km r d sq kv ts uid act (ex_keyDerivationMode (cf_experiment cfg))
      (ex_aadMode (cf_experiment cfg)) (ex_cipherMode (cf_experiment cfg)) (ex_nonceMode (cf_experiment cfg)) = Inr bs"
    and "sealed_for so fh h (bytes_of_string text) bs" and "h_reader_id h = r" and "h_door_id h = d" and "h_seq h = sq"
    and "h_key_version h = kv" and "h_ts_unix_ms h = ts"
    and "hw_header so rnd2 km (ex_cipherMode (cf_experiment cfg)) (ex_nonceMode (cf_experiment cfg)) r d sq kv ts = Inr h"
proof -
  let ?ex = "cf_experiment cfg"
  obtain h where h: "hw_header so rnd2 km (ex_cipherMode ?ex) (ex_nonceMode ?ex) r d sq kv ts = Inr h" "wf_header h"
    and fields: "h_reader_id h = r" "h_door_id h = d" "h_seq h = sq" "h_key_version h = kv" "h_ts_unix_ms h = ts"
    by (rule hw_header_ok [OF assms(1)])
  obtain k where k: "hw_key so km (ex_keyDerivationMode ?ex) r kv = Inr k"
    using hw_key_ok [OF assms(1)] by blast
  have cfg: "fh_cipher (engine_config cfg) = hw_cipher (ex_cipherMode ?ex)"
    "fh_aadMode (engine_config cfg) = ex_aadMode ?ex" "fh_maxCtLen (engine_config cfg) = fh_maxCtLen (cf_frameHandler cfg)"
    "frame_key so fh h = Inr k"
    using k fh fields
    by (auto simp: engine_config_def Let_def fh_cipher_def hw_cipher_def frame_key_def hw_key_def masterAsAeadKey_def
        split: if_splits)
  show thesis
  proof (rule buildEncryptedFrameBytes_ok [OF assms(1,2) h(1) k])
    fix ct tag
    assume built: "buildEncryptedFrameBytes so jl rnd1 rnd2 km r d sq kv ts uid act (ex_keyDerivationMode ?ex)
        (ex_aadMode ?ex) (ex_cipherMode ?ex) (ex_nonceMode ?ex) = Inr (serialize \<lparr>fr_header = h, fr_ct = ct, fr_tag = tag\<rparr>)"
      and seal: "sealWithNonce so (SecureAead_init rnd1 k (hw_cipher (ex_cipherMode ?ex))) (bytes_of_string text)
        (if ex_aadMode ?ex \<noteq> ''none'' then to_bytes h else []) (h_nonce h) = Inr \<lparr>c_ct = ct, c_tag = tag, c_nonce = h_nonce h\<rparr>"
    have "sealed_for so fh h (bytes_of_string text) (serialize \<lparr>fr_header = h, fr_ct = ct, fr_tag = tag\<rparr>)"
      unfolding sealed_for_def
      by (rule exI [of _ k], rule exI [of _ ct], rule exI [of _ tag])
        (use seal h(2) assms(3) cfg in \<open>simp add: fh frame_aad_def sealWithNonce_prefix_irrelevant [of so rnd1]\<close>)
    from built this fields h(1) show thesis by (rule that)
  qed
qed

text \<open>Its nonce is the one the monitor expects, where the monitor checks it.\<close>

lemma gateway_nonce_expected:
  assumes "hw_header (en_sodium env) rnd2 (de_keyManager eng) (ex_cipherMode (cf_experiment cfg))
      (ex_nonceMode (cf_experiment cfg)) r d sq kv ts = Inr h"
    and "de_frameHandlerCfg eng = engine_config cfg"
  shows "\<not> nonce_refused env eng h"
  using assms
  by (auto simp: nonce_refused_def expected_nonce_def hw_header_def createNonceGenerator_def engine_config_def Let_def
      bindR_Inr_iff buildPacketHeader_def buildNonceContext_def fh_cipher_def hw_cipher_def nonceEqual_def)

text \<open>A sealed frame determines its header and plaintext.\<close>

lemma sealed_for_unique:
  assumes "sodium_spec so" and "sealed_for so fh h pt bs" and "sealed_for so fh h' pt' bs"
  shows "h' = h \<and> pt' = pt"
  using assms(2,3) unfolding sealed_for_iff [OF assms(1)] opens_to_def by auto

lemma payload_read_back:
  assumes "json_spec jl" and "buildPayloadJson jl uid act = Inr text"
  shows "(\<exists>x. parseAccessRequestJson jl (string_of_bytes (bytes_of_string text)) = Inr \<lparr>rq_cardId = x, rq_action = ''open''\<rparr> \<and> P x) \<longleftrightarrow>
    act = ''open'' \<and> uid \<noteq> [] \<and> P uid"
proof -
  let ?j = "JObject [(''action'', JString act), (''card_id'', JString uid)]"
  have "json_canonical ?j" by simp
  then have "jl_parse jl text = Inr ?j" using assms by (auto simp: json_spec_def buildPayloadJson_def)
  then show ?thesis by (auto simp: parseAccessRequestJson_def string_field_def)
qed

text \<open>The card's role as the store knows it under the reader's key version.\<close>

definition role_of_card :: "admin_env \<Rightarrow> AppState \<Rightarrow> Database \<Rightarrow> u32 \<Rightarrow> string \<Rightarrow> string \<Rightarrow> bool" where
  "role_of_card env app db kv card_id role \<longleftrightarrow>
     (\<exists>cid lg hasher. resolveCardHmac (av_engine env) (server_engine env app db lg hasher)
        (SqliteAccessStore (av_query env) db) card_id kv = Inr (cid, Some role))"

lemma resolve_irrelevant:
  "resolveCardHmac env (server_engine env' app db lg hasher) store c kv = resolveCardHmac env (server_engine env' app db lg' hasher') store c kv"
  by (simp add: resolveCardHmac_def server_engine_def)

lemma in_order_engine:
  assumes "in_order env app db conn lg hasher"
  shows "sodium_spec (en_sodium (av_engine env))" and "bus_ok (server_engine_state app conn)"
    and "audit_ok (server_engine env app db lg hasher) (es_audit (server_engine_state app conn))"
    and "\<forall>store. de_store (server_engine env app db lg hasher) = Some store \<longrightarrow> store_total store"
  using assms
  by (auto simp: in_order_def bus_ok_def server_engine_state_def audit_ok_def server_engine_def log_ready_def
      audit_append_healthy store_total_def SqliteAccessStore_def roleForCardHmac_def isAllowed_def
      currentKeyVersionForReader_def isReaderAllowedDoor_def split: option.splits)

lemma permitted_built:
  assumes ok: "in_order env app db conn lg hasher"
    and kv: "currentKeyVersionForReader SqlOk db (h_reader_id h) = Inr kv" "kv \<noteq> 0"
    and payload: "buildPayloadJson (en_json (av_engine env)) uid act = Inr text"
  shows "request_permitted (av_engine env) (server_engine env app db lg hasher) h (bytes_of_string text) \<longleftrightarrow>
    act = ''open'' \<and> uid \<noteq> [] \<and>
    (\<exists>role. role_of_card env app db kv uid role \<and> isAllowed SqlOk db (h_door_id h) role = Inr True)"
proof -
  let ?e = "av_engine env" and ?eng = "server_engine env app db lg hasher" and ?store = "SqliteAccessStore (av_query env) db"
  have q: "av_query env = (\<lambda>_. SqlOk)" and js: "json_spec (en_json ?e)" using ok by (simp_all add: in_order_def)
  have "request_permitted ?e ?eng h (bytes_of_string text) \<longleftrightarrow>
    (\<exists>x. parseAccessRequestJson (en_json ?e) (string_of_bytes (bytes_of_string text)) = Inr \<lparr>rq_cardId = x, rq_action = ''open''\<rparr> \<and>
      (\<exists>cid role. resolveCardHmac ?e ?eng ?store x kv = Inr (cid, Some role) \<and> isAllowed SqlOk db (h_door_id h) role = Inr True))"
    using kv by (auto simp: request_permitted_def server_engine_def SqliteAccessStore_def q)
  also have "\<dots> \<longleftrightarrow> act = ''open'' \<and> uid \<noteq> [] \<and>
      (\<exists>cid role. resolveCardHmac ?e ?eng ?store uid kv = Inr (cid, Some role) \<and> isAllowed SqlOk db (h_door_id h) role = Inr True)"
    by (rule payload_read_back [OF js payload])
  finally show ?thesis unfolding role_of_card_def by (metis resolve_irrelevant)
qed

lemma allowed_says_ok:
  assumes "in_order env app db conn lg hasher" and "app_run_engine env bs app = (Inr r, app')" and "de_allow r"
  shows "de_reason r = ''ok''"
proof -
  have "fst (handleFrameBytes (av_engine env) (server_engine env app db lg hasher) bs (server_engine_state app conn)) = Inr r"
    using run_engine_eq [OF assms(1), of bs] assms(2) by simp
  then show ?thesis
    using assms(3)
    by (cases rule: engine_cases [OF in_order_engine(1-3) [OF assms(1)], of bs]) (auto dest: allowed_reason)
qed

lemma engine_on_built:
  assumes ok: "in_order env app db conn lg hasher"
    and monitor: "\<not> monitor_refuses (av_engine env) (server_engine env app db lg hasher) (Some (app_anomalyDetector app)) h"
    and kv: "currentKeyVersionForReader SqlOk db (h_reader_id h) = Inr kv" "kv \<noteq> 0" "h_key_version h = kv"
    and frame: "sealed_for (en_sodium (av_engine env)) (engine_handler (server_engine env app db lg hasher)) h (bytes_of_string text) bs"
    and payload: "buildPayloadJson (en_json (av_engine env)) uid act = Inr text"
    and fresh: "fresh (engine_config (app_cfg app)) (app_replayByReader app) h"
    and timely: "timely (fh_maxSkewMs (engine_config (app_cfg app))) (en_clock (av_engine env) (app_ticks app)) (h_ts_unix_ms h)"
  shows "\<exists>r app'. app_run_engine env bs app = (Inr r, app') \<and> (de_allow r \<longleftrightarrow>
      (fh_enforceReaderDoorBinding (cf_frameHandler (app_cfg app)) \<longrightarrow>
        isReaderAllowedDoor SqlOk db (h_reader_id h) (h_door_id h) = Inr True) \<and>
      act = ''open'' \<and> uid \<noteq> [] \<and>
      (\<exists>role. role_of_card env app db kv uid role \<and> isAllowed SqlOk db (h_door_id h) role = Inr True))"
proof -
  let ?e = "av_engine env" and ?eng = "server_engine env app db lg hasher" and ?s = "server_engine_state app conn"
  note spec = in_order_engine(1) [OF ok] and engine = in_order_engine(1-3) [OF ok]
  obtain r s' where run: "handleFrameBytes ?e ?eng bs ?s = (Inr r, s')"
    using engine_answers_total [OF in_order_engine [OF ok]] by blast
  have "\<not> monitor_refuses ?e ?eng (es_detector ?s) h" and "fresh (de_frameHandlerCfg ?eng) (es_windows ?s) h"
    and "timely (fh_maxSkewMs (de_frameHandlerCfg ?eng)) (en_clock ?e (es_ticks ?s)) (h_ts_unix_ms h)"
    using monitor fresh timely by (simp_all add: server_engine_def server_engine_state_def)
  then have "(\<exists>r s'. handleFrameBytes ?e ?eng bs ?s = (Inr r, s') \<and> de_allow r) \<longleftrightarrow>
      reader_ok (engine_handler ?eng) h \<and> request_permitted ?e ?eng h (bytes_of_string text)"
    unfolding engine_allows_iff [OF engine] using frame sealed_for_unique [OF spec frame] by blast
  then have "de_allow r \<longleftrightarrow> reader_ok (engine_handler ?eng) h \<and> request_permitted ?e ?eng h (bytes_of_string text)"
    using run by simp
  moreover have "reader_ok (engine_handler ?eng) h \<longleftrightarrow> (fh_enforceReaderDoorBinding (cf_frameHandler (app_cfg app)) \<longrightarrow>
      isReaderAllowedDoor SqlOk db (h_reader_id h) (h_door_id h) = Inr True)"
    using kv ok by (simp add: reader_ok_def engine_handler_def server_engine_def SqliteAccessStore_def key_version_ok_def
        engine_config_def Let_def in_order_def)
  moreover have "fst (app_run_engine env bs app) = Inr r"
    using run_engine_eq [OF ok, of bs] run by simp
  ultimately show ?thesis
    using permitted_built [OF ok kv(1,2) payload] by (metis prod.collapse)
qed

text \<open>The first critical section of the hardware service, for a reader that is known.\<close>

lemma hw_builds:
  assumes ok: "in_order env app db conn lg hasher"
    and "currentKeyVersionForReader SqlOk db (hw_reader_id req) = Inr kv" and "kv \<noteq> 0"
    and "buildPayloadJson (en_json (av_engine env)) (hw_uid req) (hw_action req) = Inr text"
    and "length text \<le> unat (fh_maxCtLen (cf_frameHandler (app_cfg app)))"
  obtains h bs app' where "hw_build env req ts app = (Inr (Inr (kv, bs)), app')"
    and "in_order env app' db conn lg hasher" and "app_cfg app' = app_cfg app" and "app_keyManager app' = app_keyManager app"
    and "app_anomalyDetector app' = app_anomalyDetector app" and "app_replayByReader app' = app_replayByReader app"
    and "app_ticks app' = Suc (app_ticks app)"
    and "sealed_for (en_sodium (av_engine env)) (engine_handler (server_engine env app' db lg hasher)) h (bytes_of_string text) bs"
    and "h_reader_id h = hw_reader_id req" and "h_door_id h = hw_door_id req" and "h_seq h = hw_hw_seq req"
    and "h_key_version h = kv" and "h_ts_unix_ms h = ts"
    and "\<not> nonce_refused (av_engine env) (server_engine env app' db lg hasher) h"
proof -
  let ?e = "av_engine env" and ?cfg = "app_cfg app"
  have q: "av_query env = (\<lambda>_. SqlOk)" and st: "app_store app = Some (db, conn)" and spec: "sodium_spec (en_sodium ?e)"
    using ok by (simp_all add: in_order_def)
  obtain app' where ev: "app_event env ''hw'' (''uid='' @ hw_uid req) (hw_reader_id req) (hw_door_id req) (hw_hw_seq req) app = (Inr (), app')"
    and ok': "in_order env app' db conn lg hasher" and same: "app_cfg app' = ?cfg" "app_keyManager app' = app_keyManager app"
    "app_anomalyDetector app' = app_anomalyDetector app" "app_replayByReader app' = app_replayByReader app"
    "app_ticks app' = Suc (app_ticks app)"
    by (rule app_event_ok [OF ok])
  obtain h bs where built: "buildEncryptedFrameBytes (en_sodium ?e) (en_json ?e) (av_rnd_prefix env) (av_rnd_nonce env)
      (app_keyManager app') (hw_reader_id req) (hw_door_id req) (hw_hw_seq req) kv ts (hw_uid req) (hw_action req)
      (ex_keyDerivationMode (cf_experiment ?cfg)) (ex_aadMode (cf_experiment ?cfg)) (ex_cipherMode (cf_experiment ?cfg))
      (ex_nonceMode (cf_experiment ?cfg)) = Inr bs"
    and sealed: "sealed_for (en_sodium ?e) (engine_handler (server_engine env app' db lg hasher)) h (bytes_of_string text) bs"
    and h: "h_reader_id h = hw_reader_id req" "h_door_id h = hw_door_id req" "h_seq h = hw_hw_seq req"
      "h_key_version h = kv" "h_ts_unix_ms h = ts"
    and hdr: "hw_header (en_sodium ?e) (av_rnd_nonce env) (app_keyManager app') (ex_cipherMode (cf_experiment ?cfg))
      (ex_nonceMode (cf_experiment ?cfg)) (hw_reader_id req) (hw_door_id req) (hw_hw_seq req) kv ts = Inr h"
    by (rule built_sealed [OF spec assms(4,5), where fh = "engine_handler (server_engine env app' db lg hasher)" and km = "app_keyManager app'"])
      (simp_all add: engine_handler_def server_engine_def same)
  have "hw_build env req ts app = (Inr (Inr (kv, bs)), app')"
    using ev built assms(2,3) same
    by (simp add: hw_build_def bindM_apply read_store_def on_store_def st q pushHwEvent_def)
  moreover have "\<not> nonce_refused ?e (server_engine env app' db lg hasher) h"
    by (rule gateway_nonce_expected) (use hdr same in \<open>simp_all add: server_engine_def\<close>)
  ultimately show thesis using ok' same sealed h that by blast
qed

lemma hw_card_admitted:
  assumes "in_order env app db conn lg hasher"
    and "adm_decisionMode (cf_admin (app_cfg app)) \<noteq> ''remote''"
    and "dc_enabled (ad_config (app_anomalyDetector app)) \<longrightarrow> \<not> isQuarantined (app_anomalyDetector app) (hw_reader_id req) \<and>
      (hw_hw_seq req = 0 \<or> fst (reportSeq (hw_reader_id req) (hw_hw_seq req) 0 (app_anomalyDetector app)) = None)"
    and "currentKeyVersionForReader SqlOk db (hw_reader_id req) = Inr kv" and "kv \<noteq> 0"
    and "buildPayloadJson (en_json (av_engine env)) (hw_uid req) (hw_action req) = Inr text"
    and "length text \<le> unat (fh_maxCtLen (cf_frameHandler (app_cfg app)))"
    and "fh_antiReplayEnabled (cf_frameHandler (app_cfg app)) \<longrightarrow>
      \<not> rw_contains (window_for (engine_config (app_cfg app)) (app_replayByReader app) (hw_reader_id req)) (hw_hw_seq req)"
    and "timely (fh_maxSkewMs (cf_frameHandler (app_cfg app)))
      (en_clock (av_engine env) (app_ticks app + 2)) (en_clock (av_engine env) (app_ticks app))"
  shows "\<exists>allow reason app'. svc_processHwUid env req app =
      (Inr (okResult (buildHwResponse allow reason (hw_reader_id req) (hw_door_id req) (hw_hw_seq req) kv)), app') \<and>
    (allow \<longrightarrow> reason = ''ok'') \<and> (allow \<longleftrightarrow> (fh_enforceReaderDoorBinding (cf_frameHandler (app_cfg app)) \<longrightarrow>
        isReaderAllowedDoor SqlOk db (hw_reader_id req) (hw_door_id req) = Inr True) \<and>
      hw_action req = ''open'' \<and> hw_uid req \<noteq> [] \<and>
      (\<exists>role. role_of_card env app db kv (hw_uid req) role \<and> isAllowed SqlOk db (hw_door_id req) role = Inr True))"
proof -
  let ?ts = "en_clock (av_engine env) (app_ticks app)" and ?cfg = "app_cfg app"
  let ?app1 = "app\<lparr>app_ticks := Suc (app_ticks app)\<rparr>"
  have ok1: "in_order env ?app1 db conn lg hasher" using assms(1) by (simp add: in_order_def)
  obtain h bs app2 where build: "hw_build env req ?ts ?app1 = (Inr (Inr (kv, bs)), app2)"
    and ok2: "in_order env app2 db conn lg hasher" and same: "app_cfg app2 = ?cfg" "app_keyManager app2 = app_keyManager app"
    "app_anomalyDetector app2 = app_anomalyDetector app" "app_replayByReader app2 = app_replayByReader app"
    "app_ticks app2 = app_ticks app + 2"
    and sealed: "sealed_for (en_sodium (av_engine env)) (engine_handler (server_engine env app2 db lg hasher)) h (bytes_of_string text) bs"
    and h: "h_reader_id h = hw_reader_id req" "h_door_id h = hw_door_id req" "h_seq h = hw_hw_seq req"
      "h_key_version h = kv" "h_ts_unix_ms h = ?ts"
    and nonce: "\<not> nonce_refused (av_engine env) (server_engine env app2 db lg hasher) h"
    by (rule hw_builds [OF ok1 assms(4-6)]) (use assms(7) in simp_all)
  have cfg: "fh_maxSkewMs (engine_config ?cfg) = fh_maxSkewMs (cf_frameHandler ?cfg)"
    "fh_antiReplayEnabled (engine_config ?cfg) = fh_antiReplayEnabled (cf_frameHandler ?cfg)"
    by (simp_all add: engine_config_def Let_def)
  have role: "role_of_card env app2 db kv c role = role_of_card env app db kv c role" for c role
    by (simp add: role_of_card_def resolveCardHmac_def server_engine_def same)
  have "\<not> monitor_refuses (av_engine env) (server_engine env app2 db lg hasher) (Some (app_anomalyDetector app2)) h"
    using assms(3) nonce h by (auto simp: monitor_refuses_def rolls_back_def same)
  then obtain r app3 where run: "app_run_engine env bs app2 = (Inr r, app3)" and allow: "de_allow r \<longleftrightarrow>
      (fh_enforceReaderDoorBinding (cf_frameHandler ?cfg) \<longrightarrow> isReaderAllowedDoor SqlOk db (hw_reader_id req) (hw_door_id req) = Inr True) \<and>
      hw_action req = ''open'' \<and> hw_uid req \<noteq> [] \<and>
      (\<exists>role. role_of_card env app db kv (hw_uid req) role \<and> isAllowed SqlOk db (hw_door_id req) role = Inr True)"
    using engine_on_built [OF ok2 _ _ assms(5) h(4) sealed assms(6)] assms(4,8,9) h same cfg
    by (auto simp: fresh_def role)
  have "svc_processHwUid env req app =
      (Inr (okResult (buildHwResponse (de_allow r) (de_reason r) (hw_reader_id req) (hw_door_id req) (hw_hw_seq req) kv)), app3)"
    using build run assms(2) same(1)
    by (simp add: svc_processHwUid_def bindM_apply app_now_def hw_decide_def)
  then show ?thesis using allow allowed_says_ok [OF ok2 run] by auto
qed

text \<open>
  C7: the card opens the door exactly when the policy says so. On a server in working order with the
  local engine, let the hardware service process a message of a reader known to the store. Let its
  number not be in the replay window (where replay protection is on), its payload print within the
  frame limit, the engine's clock reading lie within the permitted skew of the gateway's, and the
  monitor, where it is on, have the reader not in quarantine and see no rollback in the number.
  Whatever the configured cipher, nonce, key derivation, associated-data and pepper modes are, the
  frame the gateway builds passes the engine, and the answer is positive if and only if the reader is
  bound to the door (where that is enforced), the action is to open, and the card has an identifier
  and is one whose role is allowed at the door.
\<close>

theorem hw_card_admitted_iff:
  assumes "in_order env app db conn lg hasher"
    and "adm_decisionMode (cf_admin (app_cfg app)) \<noteq> ''remote''"
    and "dc_enabled (ad_config (app_anomalyDetector app)) \<longrightarrow> \<not> isQuarantined (app_anomalyDetector app) (hw_reader_id req) \<and>
      (hw_hw_seq req = 0 \<or> fst (reportSeq (hw_reader_id req) (hw_hw_seq req) 0 (app_anomalyDetector app)) = None)"
    and "currentKeyVersionForReader SqlOk db (hw_reader_id req) = Inr kv" and "kv \<noteq> 0"
    and "buildPayloadJson (en_json (av_engine env)) (hw_uid req) (hw_action req) = Inr text"
    and "length text \<le> unat (fh_maxCtLen (cf_frameHandler (app_cfg app)))"
    and "fh_antiReplayEnabled (cf_frameHandler (app_cfg app)) \<longrightarrow>
      \<not> rw_contains (window_for (engine_config (app_cfg app)) (app_replayByReader app) (hw_reader_id req)) (hw_hw_seq req)"
    and "timely (fh_maxSkewMs (cf_frameHandler (app_cfg app)))
      (en_clock (av_engine env) (app_ticks app + 2)) (en_clock (av_engine env) (app_ticks app))"
  shows "\<exists>allow reason app'. svc_processHwUid env req app =
      (Inr (okResult (buildHwResponse allow reason (hw_reader_id req) (hw_door_id req) (hw_hw_seq req) kv)), app') \<and>
    (allow \<longleftrightarrow> (fh_enforceReaderDoorBinding (cf_frameHandler (app_cfg app)) \<longrightarrow>
        isReaderAllowedDoor SqlOk db (hw_reader_id req) (hw_door_id req) = Inr True) \<and>
      hw_action req = ''open'' \<and> hw_uid req \<noteq> [] \<and>
      (\<exists>role. role_of_card env app db kv (hw_uid req) role \<and> isAllowed SqlOk db (hw_door_id req) role = Inr True))"
  using hw_card_admitted [OF assms] by blast

definition demo_cards :: "(string \<times> string) list" where
  "demo_cards = (case bindR (deriveCardPepper toy_sodium demo_km 1) (\<lambda>p. hmacHex toy_sodium (CardIdHasher_init p) ''A1'') of
     Inr h \<Rightarrow> [(h, ''staff'')] | Inl _ \<Rightarrow> [])"

definition demo_db :: Database where
  "demo_db = \<lparr>db_cards = demo_cards, db_door_roles = [((2, ''staff''), ())], db_readers = [(5, 1)],
     db_reader_doors = [((5, 2), ())]\<rparr>"

definition demo_running :: AppState where
  "demo_running = snd (openOrCreate demo_admin_env \<lparr>im_access = Some demo_db, im_audit = no_audit_tables\<rparr>
     (AppState_init demo_config ''a.db'' demo_km))"

definition demo_uid :: HwUidRequest where
  "demo_uid = \<lparr>hw_uid = ''A1'', hw_reader_id = 5, hw_door_id = 2, hw_hw_seq = 1, hw_action = ''open''\<rparr>"

lemma demo_json_spec: "json_spec demo_json"
  by (simp add: json_spec_def demo_json_def)

lemma demo_running_facts:
  obtains hasher conn lg where "in_order demo_admin_env demo_running demo_db conn lg hasher"
    and "app_cfg demo_running = demo_config" and "app_keyManager demo_running = demo_km"
    and "\<not> dc_enabled (ad_config (app_anomalyDetector demo_running))" and "app_replayByReader demo_running = (\<lambda>_. None)"
proof -
  let ?init = "AppState_init demo_config ''a.db'' demo_km"
  obtain key where key: "deriveAuditHash toy_sodium demo_km = Inr key" using auditHash_ok [OF toy_sodium_spec] by blast
  obtain p where p: "deriveCardPepper toy_sodium demo_km 1 = Inr p" using cardPepper_ok [OF toy_sodium_spec] by fastforce
  have cfg: "kmy_currentKeyVersion (cf_keyManagement demo_config) = 1" "ex_auditChainEnabled (cf_experiment demo_config)"
    "adm_maxEvents (cf_admin demo_config) \<noteq> 0" "\<not> ex_misuseDetectionEnabled (cf_experiment demo_config)"
    by (simp_all add: demo_config_def default_AdminConfig_def default_KeyManagementYaml_def default_ExperimentConfig_def)
  have env: "av_open demo_admin_env = opens_fine" "en_sodium (av_engine demo_admin_env) = toy_sodium"
    "av_query demo_admin_env = (\<lambda>_. SqlOk)" "av_append demo_admin_env = healthy" "en_json (av_engine demo_admin_env) = demo_json"
    by (simp_all add: demo_admin_env_def demo_env_def)
  show thesis
  proof (rule opened [where env = demo_admin_env and app = ?init and key = key and pepper = p
        and found = "\<lparr>im_access = Some demo_db, im_audit = no_audit_tables\<rparr>"])
    show "av_open demo_admin_env = opens_fine" by (rule env)
    show "deriveAuditHash (en_sodium (av_engine demo_admin_env)) (app_keyManager ?init) = Inr key"
      using key env by (simp add: AppState_init_def)
    show "deriveCardPepper (en_sodium (av_engine demo_admin_env)) (app_keyManager ?init)
        (kmy_currentKeyVersion (cf_keyManagement (app_cfg ?init))) = Inr p"
      using p env cfg by (simp add: AppState_init_def)
    show "bus_inv (app_events ?init)" using bus_inv_init [OF cfg(3)] by (simp add: AppState_init_def)
  next
    fix app
    assume run: "openOrCreate demo_admin_env \<lparr>im_access = Some demo_db, im_audit = no_audit_tables\<rparr> ?init = (Inr (), app)"
      and parts: "app_engine app = Some (CardIdHasher_init p, engine_config (app_cfg ?init))"
        "app_audit app = Some \<lparr>sl_key = key, sl_chainEnabled = ex_auditChainEnabled (cf_experiment (app_cfg ?init))\<rparr>"
        "app_store app = Some (initSchema (im_access \<lparr>im_access = Some demo_db, im_audit = no_audit_tables\<rparr>),
          \<lparr>ac_tables = (im_audit \<lparr>im_access = Some demo_db, im_audit = no_audit_tables\<rparr>)\<lparr>at_anchor :=
            (case at_anchor (im_audit \<lparr>im_access = Some demo_db, im_audit = no_audit_tables\<rparr>) of None \<Rightarrow> Some (zero_hash, 0) | Some a \<Rightarrow> Some a)\<rparr>, ac_saved = None\<rparr>)"
        "app_cfg app = app_cfg ?init" "app_keyManager app = app_keyManager ?init"
        "app_anomalyDetector app = app_anomalyDetector ?init" "app_replayByReader app = app_replayByReader ?init"
        "bus_inv (app_events app)"
    have app: "demo_running = app" using run by (simp add: demo_running_def)
    have "log_ready toy_sodium \<lparr>sl_key = key, sl_chainEnabled = True\<rparr>
        \<lparr>ac_tables = no_audit_tables\<lparr>at_anchor := Some (zero_hash, 0)\<rparr>, ac_saved = None\<rparr>"
      by (simp add: log_ready_def audit_valid_def by_id_def no_audit_tables_def last_entry_hash_def)
    then show thesis
      using parts env cfg
      by (intro that [of "\<lparr>ac_tables = no_audit_tables\<lparr>at_anchor := Some (zero_hash, 0)\<rparr>, ac_saved = None\<rparr>"
            "\<lparr>sl_key = key, sl_chainEnabled = True\<rparr>" "CardIdHasher_init p"])
        (simp_all add: app in_order_def AppState_init_def initSchema_def no_audit_tables_def toy_sodium_spec
          demo_json_spec ProtocolAnomalyDetector_init_def)
  qed
qed

text \<open>The card A1 is enrolled with the role staff, on this server and on any like it.\<close>

lemma demo_card_role:
  assumes "en_sodium (av_engine env) = toy_sodium" and "av_query env = (\<lambda>_. SqlOk)" and "app_keyManager app = demo_km"
    and "engine_config (app_cfg app) = engine_config demo_config"
  shows "role_of_card env app demo_db 1 ''A1'' ''staff''"
proof -
  obtain p h where p: "deriveCardPepper toy_sodium demo_km 1 = Inr p" and h: "hmacHex toy_sodium (CardIdHasher_init p) ''A1'' = Inr h"
    by (rule card_hash_total [OF toy_sodium_spec, where kv = 1 and km = demo_km and card_id = "''A1''"]) simp_all
  have "roleForCardHmac SqlOk demo_db h = Inr (Some ''staff'')"
    using p h by (simp add: roleForCardHmac_def demo_db_def demo_cards_def c_str_id nul_char)
  then show ?thesis
    using p h assms by (simp add: role_of_card_def resolveCardHmac_def server_engine_def
        engine_config_def demo_config_def default_ExperimentConfig_def default_FrameHandlerConfig_def Let_def SqliteAccessStore_def)
qed

lemma demo_policy:
  "isAllowed SqlOk demo_db 2 ''staff'' = Inr True" "isReaderAllowedDoor SqlOk demo_db 5 2 = Inr True"
  "currentKeyVersionForReader SqlOk demo_db 5 = Inr 1"
proof -
  have bound: "bind_int 5 = 5" "bind_int 2 = 2" by (simp_all add: bind_int_def)
  show "isAllowed SqlOk demo_db 2 ''staff'' = Inr True" "isReaderAllowedDoor SqlOk demo_db 5 2 = Inr True"
    "currentKeyVersionForReader SqlOk demo_db 5 = Inr 1"
    by (simp_all add: isAllowed_def isReaderAllowedDoor_def currentKeyVersionForReader_def demo_db_def bound column_u32_def column_int_def)
qed

theorem hw_card_admitted_iff_witness:
  "\<exists>reason app'. svc_processHwUid demo_admin_env demo_uid demo_running =
    (Inr (okResult (buildHwResponse True reason 5 2 1 1)), app')"
proof (rule demo_running_facts)
  fix conn lg hasher
  assume ok: "in_order demo_admin_env demo_running demo_db conn lg hasher"
    and cfg: "app_cfg demo_running = demo_config" and km: "app_keyManager demo_running = demo_km"
    and quiet: "\<not> dc_enabled (ad_config (app_anomalyDetector demo_running))"
    and unused: "app_replayByReader demo_running = (\<lambda>_. None)"
  have role: "role_of_card demo_admin_env demo_running demo_db 1 ''A1'' ''staff''"
    by (rule demo_card_role) (simp_all add: demo_admin_env_def demo_env_def km cfg)
  note doors = demo_policy
  have "\<exists>allow reason app'. svc_processHwUid demo_admin_env demo_uid demo_running =
      (Inr (okResult (buildHwResponse allow reason (hw_reader_id demo_uid) (hw_door_id demo_uid) (hw_hw_seq demo_uid) 1)), app') \<and>
    (allow \<longleftrightarrow> (fh_enforceReaderDoorBinding (cf_frameHandler (app_cfg demo_running)) \<longrightarrow>
        isReaderAllowedDoor SqlOk demo_db (hw_reader_id demo_uid) (hw_door_id demo_uid) = Inr True) \<and>
      hw_action demo_uid = ''open'' \<and> hw_uid demo_uid \<noteq> [] \<and>
      (\<exists>role. role_of_card demo_admin_env demo_running demo_db 1 (hw_uid demo_uid) role \<and>
        isAllowed SqlOk demo_db (hw_door_id demo_uid) role = Inr True))"
  proof (rule hw_card_admitted_iff [OF ok])
    show "dc_enabled (ad_config (app_anomalyDetector demo_running)) \<longrightarrow> \<not> isQuarantined (app_anomalyDetector demo_running) (hw_reader_id demo_uid) \<and>
        (hw_hw_seq demo_uid = 0 \<or> fst (reportSeq (hw_reader_id demo_uid) (hw_hw_seq demo_uid) 0 (app_anomalyDetector demo_running)) = None)"
      using quiet by simp
    show "buildPayloadJson (en_json (av_engine demo_admin_env)) (hw_uid demo_uid) (hw_action demo_uid) = Inr ''req''"
      by (simp add: buildPayloadJson_def demo_uid_def demo_admin_env_def demo_env_def demo_json_def demo_request_def)
    show "fh_antiReplayEnabled (cf_frameHandler (app_cfg demo_running)) \<longrightarrow>
        \<not> rw_contains (window_for (engine_config (app_cfg demo_running)) (app_replayByReader demo_running) (hw_reader_id demo_uid)) (hw_hw_seq demo_uid)"
      by (simp add: unused window_for_def ReplayWindow_init_def rw_contains_def isTooOld_def)
  qed (simp_all add: cfg demo_config_def default_AdminConfig_def default_FrameHandlerConfig_def timely_def demo_uid_def doors)
  moreover have "\<exists>role. role_of_card demo_admin_env demo_running demo_db 1 ''A1'' role \<and> isAllowed SqlOk demo_db 2 role = Inr True"
    using role doors by blast
  ultimately show ?thesis using doors by (simp add: demo_uid_def) (elim exE conjE, simp, blast)
qed

section \<open>Corners\<close>

lemma snd_bind_return: "snd (bindM m (\<lambda>x. returnM (f x)) s) = snd (m s)"
  by (simp add: bindM_apply split: prod.splits sum.splits)

text \<open>An import that fails in copying the file has closed the store: from then on every decision and
  every access to the store dereferences a null pointer.\<close>

theorem failed_replace_unusable:
  assumes "sqliteIntegrityOk (av_upload env) = None"
    and "verifyUploadedAuditChain (en_sodium (av_engine env)) (av_upload env) (app_keyManager app) = Inr None"
    and "up_copy_error (av_upload env) = Some m"
    and "importDbFile env app = (r, app')"
  shows "r = Inr (Some (''failed to replace db: '' @ m))" and "fst (app_run_engine env' bs app') = Inl UndefinedBehaviour"
    and "fst (read_store f app') = Inl UndefinedBehaviour"
    and "up_copy_damages (av_upload env) \<Longrightarrow> database_file app' = None"
  using assms
  by (auto simp: importDbFile_def bindM_apply import_check_def import_replace_def replaceDbFile_def app_run_engine_unfold
      read_store_def on_store_def)

text \<open>An identifier in a path is read with 64 bits and cut to 32: the reader 4294967301 is reader 5.\<close>

theorem path_identifier_cut:
  "path_u32 (demo_post\<lparr>ht_match := (\<lambda>_. ''4294967301'')\<rparr>) 1 = Inr 5"
proof -
  have digits: "is_digit (CHR ''4'')" "is_digit (CHR ''2'')" "is_digit (CHR ''9'')" "is_digit (CHR ''6'')"
    "is_digit (CHR ''7'')" "is_digit (CHR ''3'')" "is_digit (CHR ''0'')" "is_digit (CHR ''1'')"
    by (simp_all add: is_digit_def)
  show ?thesis
    by (simp add: path_u32_def stoul_def std_stoull_def strto_def isspace_def digits digits_value_def Let_def)
qed

text \<open>With the static pepper the engine hashes cards under the pepper of version 1, enrolment under
  that of the given or the configured version, whatever the mode. A card enrolled under another
  version is unknown to the engine, unless its two hashes coincide.\<close>

theorem static_pepper_enrolment:
  assumes "ex_pepperMode (cf_experiment (app_cfg app)) = ''static''" and "av_query env = (\<lambda>_. SqlOk)"
    and "deriveCardPepper (en_sodium (av_engine env)) (app_keyManager app) 1 = Inr p1"
    and "deriveCardPepper (en_sodium (av_engine env)) (app_keyManager app) kv = Inr pk"
    and "hmacHex (en_sodium (av_engine env)) (CardIdHasher_init p1) card_id = Inr h1"
    and "hmacHex (en_sodium (av_engine env)) (CardIdHasher_init pk) card_id = Inr hk" and "h1 \<noteq> hk"
    and "app_store app = Some (initSchema None, c)" and "svc_upsertCard env card_id role (Some kv) app = (r, app')"
    and "app_store app' = Some (db, c')"
  shows "resolveCardHmac (av_engine env) (server_engine env app' db lg hasher) (SqliteAccessStore (av_query env) db) card_id kv' =
    Inr (h1, None)"
proof -
  have hk: "c_str hk = hk" using assms(6) by (auto simp: hmacHex_def c_str_id nul_notin_toHex split: if_splits)
  have same: "app_policy (snd (app_event env k msg x y z a)) = app_policy a" for k msg x y z a
    by (rule keepsD [OF same_policy.event_ok refl])
  have app': "app' = snd (bindM (on_store (upsertCardHmac (av_stmt env) hk role)) (\<lambda>_.
      bindM (app_event env ''admin'' (''upsertCard role='' @ role) 0 0 0) (\<lambda>_.
      returnM (okResult (JObject [(''card_hmac'', JString hk), (''ok'', JBool True)])))) app)"
    using assms(4,6,9) by (simp add: svc_upsertCard_def Let_def)
  have "\<exists>cards. app_policy app' = app_policy (app\<lparr>app_store := Some ((initSchema None)\<lparr>db_cards := cards\<rparr>, c)\<rparr>) \<and>
      (cards = [] \<or> cards = [(hk, c_str role)])"
    unfolding app' using assms(8)
    by (auto simp: bindM_apply [of "on_store m" for m] on_store_def upsertCardHmac_def initSchema_def sql_upsert_def hk
        snd_bind_return same) (simp add: app_policy_def)
  then show ?thesis
    using assms(1-3,5,7,10)
    by (auto simp: resolveCardHmac_def SqliteAccessStore_def roleForCardHmac_def server_engine_def app_policy_def
        engine_config_def Let_def)
qed

text \<open>The deterministic nonce of the gateway depends on reader, door, time, number and key version,
  not on the payload: two messages that agree in these are sealed with the same key and nonce.\<close>

theorem gateway_nonce_ignores_payload:
  assumes "sodium_spec so" and "nonceMode \<noteq> ''random''"
    and "buildPayloadJson jl uid act = Inr t" and "buildPayloadJson jl uid' act' = Inr t'"
  shows "\<exists>h ct tag ct' tag'.
    buildEncryptedFrameBytes so jl r1 r2 km r d sq kv ts uid act kd am cm nonceMode = Inr (serialize \<lparr>fr_header = h, fr_ct = ct, fr_tag = tag\<rparr>) \<and>
    buildEncryptedFrameBytes so jl r1' r2' km r d sq kv ts uid' act' kd am cm nonceMode = Inr (serialize \<lparr>fr_header = h, fr_ct = ct', fr_tag = tag'\<rparr>)"
proof -
  obtain k where k: "hw_key so km kd r kv = Inr k" using hw_key_ok [OF assms(1)] by blast
  obtain h where h: "hw_header so r2 km cm nonceMode r d sq kv ts = Inr h" by (rule hw_header_ok [OF assms(1)])
  moreover have "hw_header so r2' km cm nonceMode r d sq kv ts = Inr h"
    using h assms(2) by (simp add: hw_header_def createNonceGenerator_def)
  ultimately show ?thesis
    by (metis buildEncryptedFrameBytes_ok [OF assms(1,3) _ k] buildEncryptedFrameBytes_ok [OF assms(1,4) _ k])
qed

end
