(* ===== verification/Reader_Firmware.thy ===== *)
theory Reader_Firmware
  imports Hw_Frames Replay_Window "HOL-Library.Sublist"
begin

text \<open>
  \<^verbatim>\<open>hw_layer/hw_layer.ino\<close> and \<^verbatim>\<open>hw_config.h\<close>: the sketch of the card reader. It numbers and signs
  its requests, posts them to the gateway, takes the verdict out of the answer and signals it. The
  vendor libraries are outside: the card driver, WiFi, the HTTP client, the flash store and the clock
  answer through the record \<open>fw_env\<close>, and \<open>mb\<close> is HMAC-SHA-256 of mbedtls.
\<close>

section \<open>Configuration and state\<close>

text \<open>The identities are positive literals of type \<^verbatim>\<open>int\<close>; the tones, pins and pauses are constants.\<close>

record HwConfig =
  hc_SECRET_HEX :: string
  hc_READER_ID :: nat
  hc_DOOR_ID :: nat
  hc_RESEND_DELAY_MS :: u32

definition hw_config :: HwConfig where
  "hw_config = \<lparr>hc_SECRET_HEX = ''a7aa5de55ad5ccd6b9d155ded41751cb06276819e8188c062e64350b5966fae3'',
     hc_READER_ID = 2, hc_DOOR_ID = 6, hc_RESEND_DELAY_MS = 1500\<rparr>"

text \<open>\<open>fw_nvs\<close> is the number in flash, which survives a restart; the other three are in memory.
  \<^verbatim>\<open>unsigned long\<close> has 32 bits on this processor.\<close>

record Firmware =
  fw_hwSeq :: u64
  fw_nvs :: "u64 option"
  fw_lastUid :: string
  fw_lastSendMs :: u32

text \<open>A request: the signature header, when there is one, and the body.\<close>

record PostRequest =
  po_signature :: "string option"
  po_body :: string

text \<open>What the outside answers while one card is handled: the clock, whether WiFi is connected after
  \<^verbatim>\<open>connectWiFi\<close>, whether the flash store takes the number, and the status and text the server sends
  back for a request (a status that is not positive is an error of the client).\<close>

record fw_env =
  fe_millis :: u32
  fe_connected :: bool
  fe_stored :: bool
  fe_post :: "PostRequest \<Rightarrow> int \<times> string"

section \<open>HMAC helpers\<close>

definition fw_hexNibble :: "char \<Rightarrow> u8" where
  "fw_hexNibble c =
     (let n = of_char c :: nat in
      if of_char (CHR ''0'') \<le> n \<and> n \<le> of_char (CHR ''9'') then of_nat (n - of_char (CHR ''0''))
      else if of_char (CHR ''a'') \<le> n \<and> n \<le> of_char (CHR ''f'') then of_nat (10 + (n - of_char (CHR ''a'')))
      else if of_char (CHR ''A'') \<le> n \<and> n \<le> of_char (CHR ''F'') then of_nat (10 + (n - of_char (CHR ''A'')))
      else 0)"

text \<open>Only called on text of 64 characters.\<close>

definition hexToBytes32 :: "string \<Rightarrow> bytes" where
  "hexToBytes32 hex =
     map (\<lambda>i. push_bit 4 (fw_hexNibble (hex ! (i * 2))) OR fw_hexNibble (hex ! (i * 2 + 1))) [0..<32]"

definition hmacSha256Hex :: "(bytes \<Rightarrow> bytes \<Rightarrow> bytes) \<Rightarrow> bytes \<Rightarrow> string \<Rightarrow> string" where
  "hmacSha256Hex mb key msg =
     (let mac = mb key (bytes_of_string msg); H = ''0123456789abcdef'' in
      concat (map (\<lambda>i. [H ! unat (drop_bit 4 (mac ! i) AND 0xF), H ! unat (mac ! i AND 0xF)]) [0..<32]))"

section \<open>Signals\<close>

text \<open>What is done to the green LED and the buzzer: a level, a frequency (0 is silence), a pause in ms.\<close>

datatype signal = Green bool | Tone u32 | Delay u32

definition ledsOff :: "signal list" where "ledsOff = [Green False]"

definition ledcToneStart :: "u32 \<Rightarrow> signal list" where "ledcToneStart freq = [Tone freq]"
definition ledcToneStop :: "signal list" where "ledcToneStop = [Tone 0]"

definition beep :: "u32 \<Rightarrow> u32 \<Rightarrow> signal list" where
  "beep freq duration_ms = ledcToneStart freq @ [Delay duration_ms] @ ledcToneStop"

definition signalAllow :: "signal list" where
  "signalAllow = ledsOff @ [Green True] @ beep 2000 120 @ [Delay 60, Green False]"

definition signalDeny :: "signal list" where
  "signalDeny = ledsOff @ concat (replicate 2 ([Green True] @ beep 500 140 @ [Delay 60, Green False, Delay 80]))"

section \<open>The card's identifier\<close>

text \<open>\<^verbatim>\<open>String(b, HEX)\<close> has no leading zero.\<close>

definition String_HEX :: "u8 \<Rightarrow> string" where
  "String_HEX b = (if b < 0x10 then [kHexChars ! unat b] else hexDigits b)"

definition toUpperCase :: "string \<Rightarrow> string" where
  "toUpperCase = map (\<lambda>c. let n = of_char c :: nat in
     if of_char (CHR ''a'') \<le> n \<and> n \<le> of_char (CHR ''z'') then char_of (n - 32) else c)"

definition uidToString :: "bytes \<Rightarrow> string" where
  "uidToString uid = toUpperCase (foldl (\<lambda>s b. (if b < 0x10 then s @ ''0'' else s) @ String_HEX b) [] uid)"

section \<open>Reading the answer\<close>

text \<open>\<^verbatim>\<open>s.indexOf(pat, from)\<close> for a pattern that is not empty (\<^verbatim>\<open>-1\<close> is \<open>None\<close>) and
  \<^verbatim>\<open>s.startsWith(pat, from)\<close>.\<close>

fun starts :: "string \<Rightarrow> string \<Rightarrow> bool" where
  "starts [] s \<longleftrightarrow> True"
| "starts (p # pat) (c # s) \<longleftrightarrow> p = c \<and> starts pat s"
| "starts (p # pat) [] \<longleftrightarrow> False"

fun find_text :: "string \<Rightarrow> string \<Rightarrow> nat option" where
  "find_text pat [] = None"
| "find_text pat (c # s) = (if starts pat (c # s) then Some 0 else map_option Suc (find_text pat s))"

definition indexOf :: "string \<Rightarrow> string \<Rightarrow> nat \<Rightarrow> nat option" where
  "indexOf s pat from = map_option (\<lambda>i. from + i) (find_text pat (drop from s))"

definition startsWith :: "string \<Rightarrow> string \<Rightarrow> nat \<Rightarrow> bool" where
  "startsWith s pat offset \<longleftrightarrow> starts pat (drop offset s)"

text \<open>The loop over colons and blanks.\<close>

definition skip_separator :: "string \<Rightarrow> nat \<Rightarrow> nat" where
  "skip_separator s i = i + length (takeWhile (\<lambda>c. c = CHR '':'' \<or> c = CHR '' '') (drop i s))"

text \<open>\<open>None\<close> for \<^verbatim>\<open>return false\<close>, else the value of \<^verbatim>\<open>allowOut\<close>.\<close>

definition parseAllowFromJson :: "string \<Rightarrow> bool option" where
  "parseAllowFromJson resp =
     (case indexOf resp ''\"allow\"'' 0 of
        None \<Rightarrow> None
      | Some i \<Rightarrow> (case indexOf resp '':'' i of
          None \<Rightarrow> None
        | Some i \<Rightarrow>
            (let i = skip_separator resp i in
             if startsWith resp ''true'' i then Some True
             else if startsWith resp ''false'' i then Some False
             else None)))"

section \<open>Waiting for WiFi\<close>

text \<open>
  The loop of \<^verbatim>\<open>connectWiFi\<close>: \<open>connected k\<close> is what the status is at its \<open>k\<close>-th test, \<open>millis k\<close> the
  clock. Nothing bounds it but the clock, so that it may not return at all (\<open>None\<close>); the result is
  the number of pauses of 500 ms.
\<close>

partial_function (option) wifi_wait :: "(nat \<Rightarrow> bool) \<Rightarrow> (nat \<Rightarrow> u32) \<Rightarrow> u32 \<Rightarrow> nat \<Rightarrow> nat option" where
  "wifi_wait connected millis start k =
     (if \<not> connected k \<and> millis k - start < 20000 then wifi_wait connected millis start (Suc k) else Some k)"

text \<open>\<open>before\<close> is the status on entry, \<open>start\<close> the clock after the connection was begun.\<close>

definition connectWiFi :: "bool \<Rightarrow> (nat \<Rightarrow> bool) \<Rightarrow> (nat \<Rightarrow> u32) \<Rightarrow> u32 \<Rightarrow> nat option" where
  "connectWiFi before connected millis start = (if before then Some 0 else wifi_wait connected millis start 0)"

section \<open>Posting a request\<close>

definition requestBody :: "HwConfig \<Rightarrow> string \<Rightarrow> u64 \<Rightarrow> string" where
  "requestBody cfg uid sq =
     ''{\"uid\":\"'' @ uid @ ''\",\"reader_id\":'' @ nat_to_string (hc_READER_ID cfg) @
     '',\"door_id\":'' @ nat_to_string (hc_DOOR_ID cfg) @ '',\"hw_seq\":'' @ nat_to_string (unat sq) @ ''}''"

definition signedRequest :: "HwConfig \<Rightarrow> (bytes \<Rightarrow> bytes \<Rightarrow> bytes) \<Rightarrow> string \<Rightarrow> u64 \<Rightarrow> PostRequest" where
  "signedRequest cfg mb uid sq =
     (let body = requestBody cfg uid sq in
      \<lparr>po_signature =
         (if hc_SECRET_HEX cfg \<noteq> [] \<and> length (hc_SECRET_HEX cfg) = 64
          then Some (hmacSha256Hex mb (hexToBytes32 (hc_SECRET_HEX cfg)) (''POST /api/hw/uid'' @ [CHR 0x0A] @ body))
          else None),
       po_body = body\<rparr>)"

text \<open>The result is \<open>None\<close> for \<^verbatim>\<open>return false\<close>, else the value of \<^verbatim>\<open>allowOut\<close>; with it the requests
  that were sent. What the flash store answers is ignored.\<close>

definition postUidToServer ::
    "HwConfig \<Rightarrow> (bytes \<Rightarrow> bytes \<Rightarrow> bytes) \<Rightarrow> fw_env \<Rightarrow> string \<Rightarrow> Firmware \<Rightarrow> bool option \<times> PostRequest list \<times> Firmware" where
  "postUidToServer cfg mb env uid fw =
     (if \<not> fe_connected env then (None, [], fw)
      else
        let fw = fw\<lparr>fw_hwSeq := fw_hwSeq fw + 1\<rparr>;
            fw = (if fe_stored env then fw\<lparr>fw_nvs := Some (fw_hwSeq fw)\<rparr> else fw);
            rq = signedRequest cfg mb uid (fw_hwSeq fw);
            code = fst (fe_post env rq);
            resp = (if code > 0 then snd (fe_post env rq) else [])
        in if \<not> (code \<ge> 200 \<and> code < 300) then (None, [rq], fw)
           else (parseAllowFromJson resp, [rq], fw))"

section \<open>Setup and loop\<close>

definition fw_setup :: "u64 option \<Rightarrow> Firmware" where
  "fw_setup nvs = \<lparr>fw_hwSeq = (case nvs of None \<Rightarrow> 0 | Some q \<Rightarrow> q), fw_nvs = nvs, fw_lastUid = [], fw_lastSendMs = 0\<rparr>"

text \<open>One pass of the loop; \<open>card\<close> is the identifier of a new card, if one was read. The result is
  what is signalled, the requests that were sent and the new state.\<close>

definition fw_loop ::
    "HwConfig \<Rightarrow> (bytes \<Rightarrow> bytes \<Rightarrow> bytes) \<Rightarrow> fw_env \<Rightarrow> bytes option \<Rightarrow> Firmware \<Rightarrow> signal list \<times> PostRequest list \<times> Firmware" where
  "fw_loop cfg mb env card_read fw =
     (case card_read of
        None \<Rightarrow> ([Delay 30], [], fw)
      | Some card_uid \<Rightarrow>
          (let uid = uidToString card_uid; now = fe_millis env in
           if uid = fw_lastUid fw \<and> now - fw_lastSendMs fw < hc_RESEND_DELAY_MS cfg then ([], [], fw)
           else (case postUidToServer cfg mb env uid (fw\<lparr>fw_lastUid := uid, fw_lastSendMs := now\<rparr>) of
             (ok, sent, fw) \<Rightarrow> (if ok = Some True then signalAllow else signalDeny, sent, fw))))"

section \<open>Hexadecimal text\<close>

text \<open>The sketch and the gateway decode alike, and the sketch encodes like the server.\<close>

lemma fw_hexNibble_eq: "fw_hexNibble = hw_hexNibble"
  by (simp add: fun_eq_iff fw_hexNibble_def hw_hexNibble_def)

lemma looseHexPairs_nth:
  "looseHexPairs s = map (\<lambda>i. push_bit 4 (hw_hexNibble (s ! (i * 2))) OR hw_hexNibble (s ! (i * 2 + 1))) [0..<length s div 2]"
proof (induction s rule: looseHexPairs.induct)
  case (1 a b rest)
  have "length (a # b # rest) div 2 = Suc (length rest div 2)" by simp
  then have "[0..<length (a # b # rest) div 2] = 0 # map Suc [0..<length rest div 2]"
    by (simp only: map_Suc_upt upt_conv_Cons zero_less_Suc)
  then show ?case by (simp only: looseHexPairs.simps 1 list.map map_map) (simp add: comp_def)
qed simp_all

lemma hexToBytes32_eq: "length hex = 64 \<Longrightarrow> hexToBytes32 hex = hexToBytesLoose hex"
  by (simp add: hexToBytes32_def hexToBytesLoose_def looseHexPairs_nth fw_hexNibble_eq)

lemma hmacSha256Hex_eq:
  assumes "length (mb key (bytes_of_string msg)) = 32"
  shows "hmacSha256Hex mb key msg = toHex (mb key (bytes_of_string msg))"
proof -
  let ?mac = "mb key (bytes_of_string msg)"
  have "map hexDigits ?mac = map (\<lambda>i. hexDigits (?mac ! i)) [0..<length ?mac]"
    by (rule nth_equalityI) simp_all
  then show ?thesis
    unfolding toHex_def assms
    by (simp add: hmacSha256Hex_def Let_def hexDigits_def kHexChars_def del: upt_rec_numeral)
qed

section \<open>The card's identifier\<close>

definition upper :: "char \<Rightarrow> char" where
  "upper c = (let n = of_char c :: nat in
     if of_char (CHR ''a'') \<le> n \<and> n \<le> of_char (CHR ''z'') then char_of (n - 32) else c)"

lemma toUpperCase_eq: "toUpperCase = map upper"
  by (simp add: fun_eq_iff toUpperCase_def upper_def)

lemma String_HEX_padded: "(if b < 0x10 then s @ ''0'' else s) @ String_HEX b = s @ hexDigits b"
proof (cases "b < 0x10")
  case True
  then have "unat b < 16" by (simp add: word_less_nat_alt)
  moreover have "b = of_nat (unat b)" by simp
  ultimately obtain n where "n < 16" "b = of_nat n" by blast
  then show ?thesis
    using less_16_cases [of n] by (auto simp: String_HEX_def hexDigits_def kHexChars_def)
qed (simp add: String_HEX_def)

lemma uidToString_eq: "uidToString uid = map upper (toHex uid)"
proof -
  have "foldl (\<lambda>s b. (if b < 0x10 then s @ ''0'' else s) @ String_HEX b) s uid = s @ toHex uid" for s
    by (induction uid arbitrary: s) (simp_all only: String_HEX_padded, simp_all add: toHex_def)
  from this [of "[]"] show ?thesis by (simp add: uidToString_def toUpperCase_eq)
qed

interpretation upper_hex: hex_digits "\<lambda>c. Inr (hw_hexNibble (upper c))"
proof unfold_locales
  fix n :: nat assume "n < 16"
  then show "Inr (hw_hexNibble (upper (kHexChars ! n))) = Inr (of_nat n)"
    using less_16_cases [of n] by (auto simp: hw_hexNibble_def upper_def kHexChars_def)
qed

lemma hexPairs_map: "hexPairs nib (map f s) = hexPairs (\<lambda>c. nib (f c)) s"
  by (induction "\<lambda>c. nib (f c)" s rule: hexPairs.induct) simp_all

text \<open>The text of an identifier reads back as its bytes: different cards have different texts.\<close>

lemma uidToString_reads_back: "hexToBytesLoose (uidToString uid) = uid"
  using upper_hex.hexPairs_toHex [of uid] hexPairs_map [of "\<lambda>c. Inr (hw_hexNibble c)" upper "toHex uid"]
  by (simp add: hexToBytesLoose_def uidToString_eq looseHexPairs_eq)

lemma uidToString_inject: "uidToString uid = uidToString uid' \<longleftrightarrow> uid = uid'"
  by (metis uidToString_reads_back)

lemma uidToString_empty: "uidToString uid = [] \<longleftrightarrow> uid = []"
  by (simp add: uidToString_eq flip: length_0_conv)

section \<open>The signature\<close>

text \<open>What the gateway's check accepts, for any texts.\<close>

lemma signature_accepted_iff:
  assumes "sodium_spec so"
  shows "verifyHwSignature so init_ok sig body secret = None \<longleftrightarrow>
    init_ok \<and> length (hexToBytesLoose secret) = 32 \<and>
    hexToBytesLoose sig = so_hmac so (hexToBytesLoose secret) (bytes_of_string (hw_message body))"
proof -
  have hmac: "length (so_hmac so k m) = 32" for k m by (rule sodium_hmac_length [OF assms])
  have "length (hexToBytesLoose []) \<noteq> 32" by (simp add: hexToBytesLoose_def)
  then have "length (hexToBytesLoose s) = 32 \<Longrightarrow> s \<noteq> []" for s by blast
  then show ?thesis
    using hmac by (auto simp: verifyHwSignature_def parseHmacKey_def parseSignature_def verifyHmac_def Let_def split: if_splits) metis+
qed

text \<open>The request of a sketch that shares the gateway's secret is accepted.\<close>

lemma signed_request_accepted:
  assumes "sodium_spec so" and "\<forall>key m. length key = 32 \<longrightarrow> mb key m = so_hmac so key m"
    and "length (hc_SECRET_HEX cfg) = 64"
  obtains sig where "po_signature (signedRequest cfg mb uid sq) = Some sig"
    and "verifyHwSignature so True sig (po_body (signedRequest cfg mb uid sq)) (hc_SECRET_HEX cfg) = None"
proof -
  let ?key = "hexToBytesLoose (hc_SECRET_HEX cfg)" and ?body = "requestBody cfg uid sq"
  have key: "length ?key = 32" using assms(3) by (simp add: hexToBytesLoose_def length_looseHexPairs)
  then have mac: "mb ?key m = so_hmac so ?key m" for m using assms(2) by blast
  have "hmacSha256Hex mb ?key (hw_message ?body) = toHex (so_hmac so ?key (bytes_of_string (hw_message ?body)))"
    using hmacSha256Hex_eq [of mb ?key "hw_message ?body"] sodium_hmac_length [OF assms(1)] by (simp add: mac)
  moreover have "po_signature (signedRequest cfg mb uid sq) = Some (hmacSha256Hex mb ?key (hw_message ?body))"
    using assms(3) by (auto simp: signedRequest_def Let_def hexToBytes32_eq hw_message_def)
  moreover have "po_body (signedRequest cfg mb uid sq) = ?body" by (simp add: signedRequest_def Let_def)
  moreover have "verifyHwSignature so True (toHex (so_hmac so ?key (bytes_of_string (hw_message ?body)))) ?body (hc_SECRET_HEX cfg) = None"
    unfolding signature_accepted_iff [OF assms(1)] hexToBytesLoose_toHex using key by simp
  ultimately show thesis by (intro that) simp_all
qed

section \<open>The answer\<close>

text \<open>Documented format of the indented printer: each member on a line of its own, a blank after the
  colon. It is stated for a first member that is a boolean with a key of plain letters.\<close>

definition pretty_spec :: "json_lib \<Rightarrow> bool" where
  "pretty_spec jl \<longleftrightarrow>
     (\<forall>k b fs s. (\<forall>c\<in>set k. CHR ''a'' \<le> c \<and> c \<le> CHR ''z'') \<longrightarrow> jl_pretty jl (JObject ((k, JBool b) # fs)) = Inr s \<longrightarrow>
        (\<exists>rest. s = ''{'' @ [CHR 0x0A] @ ''  \"'' @ k @ ''\": '' @ (if b then ''true'' else ''false'') @ rest))"

lemma allow_read_back:
  "parseAllowFromJson (''{'' @ [CHR 0x0A] @ ''  \"'' @ ''allow'' @ ''\": '' @ (if b then ''true'' else ''false'') @ rest) = Some b"
  by (simp add: parseAllowFromJson_def indexOf_def startsWith_def skip_separator_def)

lemma verdict_read_back:
  assumes "pretty_spec jl" and "jl_pretty jl (JObject ((''allow'', JBool b) # fs)) = Inr s"
  shows "parseAllowFromJson s = Some b"
proof -
  have "\<forall>c\<in>set ''allow''. CHR ''a'' \<le> c \<and> c \<le> CHR ''z''" by (simp add: less_eq_char_def)
  with assms obtain rest where "s = ''{'' @ [CHR 0x0A] @ ''  \"'' @ ''allow'' @ ''\": '' @ (if b then ''true'' else ''false'') @ rest"
    unfolding pretty_spec_def by blast
  then show ?thesis by (simp only: allow_read_back)
qed

section \<open>The numbers\<close>

text \<open>
  The life of a reader: switched on with an empty flash store, it handles cards (the flash store taking
  the number each time) and loses its memory at any moment. The list collects the requests it sent.
\<close>

inductive fw_life :: "HwConfig \<Rightarrow> (bytes \<Rightarrow> bytes \<Rightarrow> bytes) \<Rightarrow> Firmware \<Rightarrow> PostRequest list \<Rightarrow> bool"
  for cfg :: HwConfig and mb :: "bytes \<Rightarrow> bytes \<Rightarrow> bytes" where
  switched_on: "fw_life cfg mb (fw_setup None) []"
| passed: "fw_life cfg mb fw sent \<Longrightarrow> fe_stored env \<Longrightarrow> fw_hwSeq fw \<noteq> - 1 \<Longrightarrow>
    fw_loop cfg mb env card_read fw = (sig, new, fw') \<Longrightarrow> fw_life cfg mb fw' (sent @ new)"
| restarted: "fw_life cfg mb fw sent \<Longrightarrow> fw_life cfg mb (fw_setup (fw_nvs fw)) sent"

text \<open>In memory and in flash is the same number.\<close>

definition fw_inv :: "Firmware \<Rightarrow> bool" where
  "fw_inv fw \<longleftrightarrow> fw_hwSeq fw = (case fw_nvs fw of None \<Rightarrow> 0 | Some q \<Rightarrow> q)"

lemma fw_inv_setup: "fw_inv (fw_setup nvs)"
  by (simp add: fw_inv_def fw_setup_def)

lemma post_sends:
  assumes "fe_stored env"
  shows "\<exists>ok. postUidToServer cfg mb env uid fw =
    (if fe_connected env then (ok, [signedRequest cfg mb uid (fw_hwSeq fw + 1)],
       fw\<lparr>fw_hwSeq := fw_hwSeq fw + 1, fw_nvs := Some (fw_hwSeq fw + 1)\<rparr>)
     else (None, [], fw))"
  using assms by (simp add: postUidToServer_def Let_def)

lemma fw_loop_cases:
  assumes "fw_loop cfg mb env card_read fw = (sig, new, fw')" and "fe_stored env" and "fw_inv fw"
  obtains "new = []" and "fw_hwSeq fw' = fw_hwSeq fw" and "fw_inv fw'"
  | uid where "new = [signedRequest cfg mb uid (fw_hwSeq fw + 1)]" and "fw_hwSeq fw' = fw_hwSeq fw + 1" and "fw_inv fw'"
proof (cases card_read)
  case None
  then show thesis using assms that(1) by (simp add: fw_loop_def)
next
  case (Some card_uid)
  let ?uid = "uidToString card_uid"
  obtain ok where post: "postUidToServer cfg mb env ?uid (fw\<lparr>fw_lastUid := ?uid, fw_lastSendMs := fe_millis env\<rparr>) =
    (if fe_connected env then (ok, [signedRequest cfg mb ?uid (fw_hwSeq fw + 1)],
       fw\<lparr>fw_lastUid := ?uid, fw_lastSendMs := fe_millis env, fw_hwSeq := fw_hwSeq fw + 1, fw_nvs := Some (fw_hwSeq fw + 1)\<rparr>)
     else (None, [], fw\<lparr>fw_lastUid := ?uid, fw_lastSendMs := fe_millis env\<rparr>))"
    using post_sends [OF assms(2), of cfg mb ?uid "fw\<lparr>fw_lastUid := ?uid, fw_lastSendMs := fe_millis env\<rparr>"]
    by (auto cong: if_cong)
  show thesis
  proof (cases "new = []")
    case True
    then show thesis
      using assms(1,3) Some post by (intro that(1)) (auto simp: fw_loop_def Let_def fw_inv_def split: if_splits)
  next
    case False
    then show thesis
      using assms(1,3) Some post by (intro that(2) [of ?uid]) (auto simp: fw_loop_def Let_def fw_inv_def split: if_splits)
  qed
qed

definition requests_for :: "HwConfig \<Rightarrow> (bytes \<Rightarrow> bytes \<Rightarrow> bytes) \<Rightarrow> (string \<times> u64) list \<Rightarrow> PostRequest list" where
  "requests_for cfg mb = map (\<lambda>(uid, q). signedRequest cfg mb uid q)"

lemma less_plus_one: "q \<noteq> - 1 \<Longrightarrow> q < q + (1 :: u64)"
proof -
  assume "q \<noteq> - 1"
  moreover have "unat (- 1 :: u64) = 2 ^ 64 - 1"
    by (simp add: unsigned_minus_1_eq_mask mask_eq_exp_minus_1)
  ultimately have "unat q \<noteq> 2 ^ 64 - 1" by (metis word_unat_eq_iff)
  then have "unat q + 1 < 2 ^ LENGTH(64)"
    using unsigned_less [where 'a = nat, of q] by simp
  then show "q < q + 1" by (simp add: word_less_nat_alt unat_word_ariths)
qed

lemma fw_life_inv:
  assumes "fw_life cfg mb fw sent"
  shows "fw_inv fw \<and> (\<exists>ms. sent = requests_for cfg mb ms \<and> sorted_wrt (<) (map snd ms) \<and>
    (\<forall>q\<in>set (map snd ms). 0 < q \<and> q \<le> fw_hwSeq fw))"
  using assms
proof induction
  case (passed fw sent env card_read sig new fw')
  then obtain ms where inv: "fw_inv fw" and sent: "sent = requests_for cfg mb ms" and sorted: "sorted_wrt (<) (map snd ms)"
    and bound: "\<forall>q\<in>set (map snd ms). 0 < q \<and> q \<le> fw_hwSeq fw" by blast
  from passed(4,2) inv show ?case
  proof (cases rule: fw_loop_cases)
    case 1
    then show ?thesis using sent sorted bound by auto
  next
    case (2 uid)
    have less: "fw_hwSeq fw < fw_hwSeq fw + 1"
      using passed(3) by (rule less_plus_one)
    have "\<forall>q\<in>set (map snd (ms @ [(uid, fw_hwSeq fw + 1)])). 0 < q \<and> q \<le> fw_hwSeq fw'"
      using bound less 2(2) by (fastforce intro: le_less_trans [OF word_zero_le])
    moreover have "sorted_wrt (<) (map snd (ms @ [(uid, fw_hwSeq fw + 1)]))"
      using sorted bound less by (force simp: sorted_wrt_append)
    moreover have "sent @ new = requests_for cfg mb (ms @ [(uid, fw_hwSeq fw + 1)])"
      by (simp add: sent 2(1) requests_for_def)
    ultimately show ?thesis using 2(3) by blast
  qed
next
  case (restarted fw sent)
  then show ?case by (auto simp: fw_inv_setup) (auto simp: fw_setup_def fw_inv_def)
qed (auto simp: fw_inv_setup requests_for_def intro: exI [of _ "[]"])

lemma subseq_sorted_wrt: "subseq ys xs \<Longrightarrow> sorted_wrt P xs \<Longrightarrow> sorted_wrt P ys"
  by (induction rule: list_emb.induct) (fastforce elim: list_emb_set)+

section \<open>Waiting ends\<close>

text \<open>Once enough time has passed, the loop stops, at the latest at the \<open>n\<close>-th test.\<close>

lemma wifi_wait_stops:
  assumes "millis (k + n) - start \<ge> 20000"
  shows "\<exists>j\<le>k + n. wifi_wait connected millis start k = Some j"
  using assms
proof (induction n arbitrary: k)
  case 0
  then show ?case by (auto simp: wifi_wait.simps [of connected millis start k] not_less)
next
  case (Suc n)
  have "millis (Suc k + n) - start \<ge> 20000" using Suc.prems by simp
  from Suc.IH [OF this] obtain j where "j \<le> Suc k + n" "wifi_wait connected millis start (Suc k) = Some j" by blast
  then show ?case
    by (cases "\<not> connected k \<and> millis k - start < 20000") (auto simp: wifi_wait.simps [of connected millis start k])
qed

lemma first_late:
  fixes t :: "nat \<Rightarrow> nat"
  assumes "\<forall>k. t k + 500 \<le> t (Suc k) \<and> t (Suc k) \<le> t k + 2 ^ 31" and "t 0 \<le> 2 ^ 31"
  obtains n where "n \<le> 40" and "20000 \<le> t n" and "t n < 2 ^ 32"
proof -
  have grows: "500 * k \<le> t k" for k
  proof (induction k)
    case (Suc k)
    have "500 * Suc k \<le> t k + 500" using Suc by simp
    also have "\<dots> \<le> t (Suc k)" using assms(1) by blast
    finally show ?case .
  qed simp
  define n where "n = (LEAST n. 20000 \<le> t n)"
  have late: "20000 \<le> t n" and "n \<le> 40"
    unfolding n_def using grows [of 40] by (auto intro: LeastI Least_le)
  moreover have "t n < 2 ^ 32"
  proof (cases n)
    case 0
    then show ?thesis using assms(2) by simp
  next
    case (Suc m)
    then have "t m < 20000" using not_less_Least [of m "\<lambda>n. 20000 \<le> t n"] by (simp add: n_def)
    moreover have "t n \<le> t m + 2 ^ 31" using assms(1) Suc by blast
    ultimately show ?thesis by simp
  qed
  ultimately show thesis by (intro that)
qed

section \<open>Properties\<close>

text \<open>
  C13: a reader's numbers are fresh as long as the flash store takes every number it is given. Over a
  reader's life under this condition, restarts at any moment included, its requests carry numbers such
  that the gateway's replay window, whatever its size, takes each one that arrives as new, if they
  arrive in the order they were sent; any of them may be lost on the way. None of them is zero, which
  the gateway would refuse. Without the condition numbers repeat, see \<open>unstored_number_repeats\<close>.
\<close>

theorem reader_numbers_fresh:
  assumes "fw_life cfg mb fw sent"
  shows "\<exists>ms. sent = requests_for cfg mb ms \<and>
    (\<forall>qs. subseq qs (map snd ms) \<longrightarrow> 0 \<notin> set qs \<and> fst (rw_run qs (ReplayWindow_init n)) = replicate (length qs) True)"
proof -
  obtain ms where ms: "sent = requests_for cfg mb ms" "sorted_wrt (<) (map snd ms)" "\<forall>q\<in>set (map snd ms). 0 < q"
    using fw_life_inv [OF assms] by blast
  have "0 \<notin> set qs \<and> fst (rw_run qs (ReplayWindow_init n)) = replicate (length qs) True" if "subseq qs (map snd ms)" for qs
  proof
    show "0 \<notin> set qs" using ms(3) list_emb_set [OF that] by (metis less_irrefl)
  qed (rule increasing_accepted [OF subseq_sorted_wrt [OF that ms(2)]])
  with ms(1) show ?thesis by blast
qed

definition demo_fw_env :: fw_env where
  "demo_fw_env = \<lparr>fe_millis = 5000, fe_connected = True, fe_stored = True, fe_post = (\<lambda>_. (- 1, []))\<rparr>"

lemma demo_uid_text: "uidToString [0xA1] = ''A1''"
  by (simp add: uidToString_eq toHex_def hexDigits_def kHexChars_def upper_def char_of_def bit_Suc bit_0)

text \<open>A card, no answer, a restart, the same card again: the two requests carry 1 and 2.\<close>

theorem reader_numbers_fresh_witness:
  "\<exists>fw ms. requests_for hw_config toy_hmac [(''A1'', 1), (''A1'', 2)] = requests_for hw_config toy_hmac ms \<and>
    fw_life hw_config toy_hmac fw (requests_for hw_config toy_hmac [(''A1'', 1), (''A1'', 2)]) \<and>
    (\<forall>qs. subseq qs (map snd ms) \<longrightarrow> 0 \<notin> set qs \<and> fst (rw_run qs (ReplayWindow_init 4)) = replicate (length qs) True)"
proof -
  note uid = demo_uid_text
  have pass: "\<exists>sig fw'. fw_loop hw_config toy_hmac demo_fw_env (Some [0xA1]) (fw_setup nvs) =
      (sig, [signedRequest hw_config toy_hmac ''A1'' (fw_hwSeq (fw_setup nvs) + 1)], fw') \<and>
      fw_nvs fw' = Some (fw_hwSeq (fw_setup nvs) + 1)" for nvs
    by (simp add: fw_loop_def uid Let_def fw_setup_def postUidToServer_def demo_fw_env_def)
  have stored: "fe_stored demo_fw_env" by (simp add: demo_fw_env_def)
  obtain sig fw where first: "fw_loop hw_config toy_hmac demo_fw_env (Some [0xA1]) (fw_setup None) =
      (sig, [signedRequest hw_config toy_hmac ''A1'' 1], fw)" "fw_nvs fw = Some 1"
    using pass [of None] by (auto simp: fw_setup_def)
  have "fw_life hw_config toy_hmac fw ([] @ [signedRequest hw_config toy_hmac ''A1'' 1])"
    by (rule passed [OF switched_on stored _ first(1)]) (simp add: fw_setup_def)
  then have again: "fw_life hw_config toy_hmac (fw_setup (Some 1)) ([] @ [signedRequest hw_config toy_hmac ''A1'' 1])"
    using restarted first(2) by metis
  obtain sig fw where second: "fw_loop hw_config toy_hmac demo_fw_env (Some [0xA1]) (fw_setup (Some 1)) =
      (sig, [signedRequest hw_config toy_hmac ''A1'' 2], fw)"
    using pass [of "Some 1"] by (auto simp: fw_setup_def)
  have "fw_life hw_config toy_hmac fw (([] @ [signedRequest hw_config toy_hmac ''A1'' 1]) @ [signedRequest hw_config toy_hmac ''A1'' 2])"
    by (rule passed [OF again stored _ second]) (simp add: fw_setup_def)
  then have life: "fw_life hw_config toy_hmac fw (requests_for hw_config toy_hmac [(''A1'', 1), (''A1'', 2)])"
    by (simp add: requests_for_def)
  from reader_numbers_fresh [OF life, of 4] life show ?thesis by blast
qed

text \<open>What the flash store answers is ignored: when it refuses the number, the number is used up in
  memory only, and after a restart the next request carries the same number again.\<close>

theorem unstored_number_repeats:
  assumes "\<not> fe_stored env" and "fe_connected env" and "postUidToServer cfg mb env uid (fw_setup nvs) = (ok, sent, fw)"
    and "postUidToServer cfg mb env' uid' (fw_setup (fw_nvs fw)) = (ok', sent', fw')" and "fe_connected env'"
  shows "\<exists>q. sent = [signedRequest cfg mb uid q] \<and> sent' = [signedRequest cfg mb uid' q]"
  using assms by (auto simp: postUidToServer_def Let_def fw_setup_def split: if_splits)

text \<open>
  C40: waiting for WiFi ends. While the clock of the board runs (every pause of the loop takes at least
  500 ms and at most 2^31 ms, so that the 32-bit count is not missed when it wraps), \<^verbatim>\<open>connectWiFi\<close>
  returns after at most 40 pauses, connected or not. Without a running clock it would not.
\<close>

theorem connectWiFi_returns:
  assumes "\<forall>k. millis k = start + of_nat (t k)" and "\<forall>k. t k + 500 \<le> t (Suc k) \<and> t (Suc k) \<le> t k + 2 ^ 31"
    and "t 0 \<le> 2 ^ 31"
  shows "\<exists>n\<le>40. connectWiFi before connected millis start = Some n"
proof -
  obtain n where n: "n \<le> 40" "20000 \<le> t n" "t n < 2 ^ 32" by (rule first_late [OF assms(2,3)])
  then have "millis (0 + n) - start \<ge> 20000"
    using assms(1) by (simp add: word_le_nat_alt unat_of_nat)
  from wifi_wait_stops [of millis 0 n start, OF this] n(1) show ?thesis
    by (auto simp: connectWiFi_def intro: le_trans)
qed

theorem connectWiFi_returns_witness:
  "\<exists>n\<le>40. connectWiFi False (\<lambda>_. False) (\<lambda>k. 4294967000 + of_nat (510 * k)) 4294967000 = Some n"
  by (rule connectWiFi_returns [where t = "\<lambda>k. 510 * k"]) simp_all

end
