(* ===== verification/Reader_Gateway.thy ===== *)
theory Reader_Gateway
  imports Server_Properties Reader_Firmware
begin

text \<open>
  The reader's sketch and the server put together: the request the sketch posts is handed to the
  server's hardware endpoint, and the printed answer back to the sketch. The HTTP in between, which
  carries the body and the header unchanged, is \<open>to_http\<close> and \<open>gateway_answer\<close>.
\<close>

section \<open>The connection\<close>

definition to_http :: "PostRequest \<Rightarrow> HttpRequest" where
  "to_http rq = \<lparr>ht_header = (\<lambda>h. if h = ''X-HW-Signature'' then (case po_signature rq of Some sig \<Rightarrow> sig | None \<Rightarrow> [])
       else if h = ''Content-Type'' then ''application/json'' else []),
     ht_param = (\<lambda>_. None), ht_body = po_body rq, ht_match = (\<lambda>_. []), ht_is_multipart = False, ht_file = (\<lambda>_. None)\<rparr>"

text \<open>A handler that throws is answered with 500 by the HTTP library.\<close>

definition gateway_answer :: "admin_env \<Rightarrow> AppState \<Rightarrow> PostRequest \<Rightarrow> int \<times> string" where
  "gateway_answer env app rq =
     (case registerRoutes HwUid env (to_http rq) app of
        (Inl _, _) \<Rightarrow> (500, [])
      | (Inr rs, _) \<Rightarrow> (rs_status rs,
          case rs_content rs of
            JsonContent j \<Rightarrow> (case jl_pretty (en_json (av_engine env)) j of Inr s \<Rightarrow> s | Inl _ \<Rightarrow> [])
          | TextContent s \<Rightarrow> s | DataContent s \<Rightarrow> s | NoContent \<Rightarrow> []))"

text \<open>The message the server reads out of the request, and the JSON of its body.\<close>

definition card_message :: "HwConfig \<Rightarrow> string \<Rightarrow> u64 \<Rightarrow> HwUidRequest" where
  "card_message cfg uid sq =
     \<lparr>hw_uid = uid, hw_reader_id = of_nat (hc_READER_ID cfg), hw_door_id = of_nat (hc_DOOR_ID cfg), hw_hw_seq = sq,
      hw_action = ''open''\<rparr>"

definition body_json :: "HwConfig \<Rightarrow> string \<Rightarrow> u64 \<Rightarrow> json" where
  "body_json cfg uid sq = JObject [(''door_id'', JNat (hc_DOOR_ID cfg)), (''hw_seq'', JWord sq),
     (''reader_id'', JNat (hc_READER_ID cfg)), (''uid'', JString uid)]"

text \<open>Server and reader are set up for each other: the same secret of 64 digits, libsodium working, and two
  implementations of the same HMAC.\<close>

definition paired :: "admin_env \<Rightarrow> AppState \<Rightarrow> HwConfig \<Rightarrow> (bytes \<Rightarrow> bytes \<Rightarrow> bytes) \<Rightarrow> bool" where
  "paired env app cfg mb \<longleftrightarrow>
     adm_hwSharedSecretHex (cf_admin (app_cfg app)) = hc_SECRET_HEX cfg \<and> length (hc_SECRET_HEX cfg) = 64 \<and>
     av_sodium_init env \<and> sodium_spec (en_sodium (av_engine env)) \<and>
     (\<forall>key m. length key = 32 \<longrightarrow> mb key m = so_hmac (en_sodium (av_engine env)) key m)"

lemma message_read:
  "parseHwUidRequest jl (body_json cfg uid sq) = Inr (Some (card_message cfg uid sq))"
  by (simp add: parseHwUidRequest_def body_json_def json_contains_def json_value_def card_message_def JNat_def)

text \<open>The endpoint takes the request of a paired reader to the hardware service.\<close>

lemma paired_request_served:
  assumes "paired env app cfg mb" and "sq \<noteq> 0"
    and "jl_parse (en_json (av_engine env)) (requestBody cfg uid sq) = Inr (body_json cfg uid sq)"
  shows "registerRoutes HwUid env (to_http (signedRequest cfg mb uid sq)) app =
    try_catch env kHttpBadRequest (bindM (svc_processHwUid env (card_message cfg uid sq)) (reply env)) app"
proof -
  let ?rq = "signedRequest cfg mb uid sq"
  have body: "po_body ?rq = requestBody cfg uid sq" by (simp add: signedRequest_def Let_def)
  obtain sig where sig: "po_signature ?rq = Some sig"
    and ok: "verifyHwSignature (en_sodium (av_engine env)) True sig (po_body ?rq) (hc_SECRET_HEX cfg) = None"
    using assms(1) by (auto simp: paired_def elim: signed_request_accepted [of _ mb cfg uid sq])
  have "hw_hw_seq (card_message cfg uid sq) \<noteq> 0" using assms(2) by (simp add: card_message_def)
  then show ?thesis
    using ok assms(1,3)
    by (simp add: route_hw_uid_def to_http_def sig body paired_def try_catch_def json_body_def bindM_apply message_read)
qed

text \<open>What the sketch makes of the server's answer is the server's verdict, as long as a positive verdict
  can be printed; an answer that cannot be printed is no verdict.\<close>

lemma verdict_arrives:
  assumes "pretty_spec (en_json (av_engine env))"
    and "jl_pretty (en_json (av_engine env)) (buildHwResponse True ''ok'' r d q kv) = Inr s"
    and "svc_processHwUid env req app = (Inr (okResult (buildHwResponse allow reason r d q kv)), app')"
    and "allow \<Longrightarrow> reason = ''ok''"
    and "registerRoutes HwUid env (to_http rq) app =
      try_catch env kHttpBadRequest (bindM (svc_processHwUid env req) (reply env)) app"
    and "gateway_answer env app rq = (code, resp)"
  shows "(200 \<le> code \<and> code < 300 \<and> parseAllowFromJson resp = Some True) \<longleftrightarrow> allow"
proof (cases "jl_pretty (en_json (av_engine env)) (buildHwResponse allow reason r d q kv)")
  case (Inr t)
  have "parseAllowFromJson t = Some allow"
    using verdict_read_back [OF assms(1)] Inr by (simp add: buildHwResponse_def)
  moreover have "gateway_answer env app rq = (200, t)"
    using assms(3,5) Inr
    by (simp add: gateway_answer_def try_catch_def bindM_apply reply_def sendResult_def setJson_def okResult_def kHttpOk_def)
  ultimately show ?thesis using assms(6) by simp
next
  case (Inl e)
  then have "\<not> allow" using assms(2,4) by auto
  moreover have "\<not> (200 \<le> code \<and> code < 300)"
    using assms(3,5,6) Inl
    by (cases e) (auto simp: gateway_answer_def try_catch_def bindM_apply reply_def sendResult_def setJson_def okResult_def
        kHttpBadRequest_def errorResult_def bindR_def split: sum.splits prod.splits)
  ultimately show ?thesis by blast
qed

text \<open>A card that is not skipped is signalled by what comes back.\<close>

lemma loop_signals:
  assumes "fe_connected fe" and "fe_post fe = gateway_answer env app"
    and "\<not> (uidToString c = fw_lastUid fw \<and> fe_millis fe - fw_lastSendMs fw < hc_RESEND_DELAY_MS cfg)"
    and "gateway_answer env app (signedRequest cfg mb (uidToString c) (fw_hwSeq fw + 1)) = (code, resp)"
  shows "fst (fw_loop cfg mb fe (Some c) fw) =
    (if 200 \<le> code \<and> code < 300 \<and> parseAllowFromJson resp = Some True then signalAllow else signalDeny)"
  using assms by (auto simp: fw_loop_def postUidToServer_def Let_def)

section \<open>From the card to the lamp\<close>

text \<open>
  What it takes for a message to be judged by the policy alone: local decisions, a reader the store
  knows, a payload within the frame limit, and no objection of monitor, replay window and clock.
\<close>

definition message_passes :: "admin_env \<Rightarrow> AppState \<Rightarrow> Database \<Rightarrow> HwUidRequest \<Rightarrow> u32 \<Rightarrow> bool" where
  "message_passes env app db req kv \<longleftrightarrow>
     adm_decisionMode (cf_admin (app_cfg app)) \<noteq> ''remote'' \<and>
     (dc_enabled (ad_config (app_anomalyDetector app)) \<longrightarrow> \<not> isQuarantined (app_anomalyDetector app) (hw_reader_id req) \<and>
       fst (reportSeq (hw_reader_id req) (hw_hw_seq req) 0 (app_anomalyDetector app)) = None) \<and>
     currentKeyVersionForReader SqlOk db (hw_reader_id req) = Inr kv \<and> kv \<noteq> 0 \<and>
     (\<exists>payload. buildPayloadJson (en_json (av_engine env)) (hw_uid req) (hw_action req) = Inr payload \<and>
       length payload \<le> unat (fh_maxCtLen (cf_frameHandler (app_cfg app)))) \<and>
     (fh_antiReplayEnabled (cf_frameHandler (app_cfg app)) \<longrightarrow>
       \<not> rw_contains (window_for (engine_config (app_cfg app)) (app_replayByReader app) (hw_reader_id req)) (hw_hw_seq req)) \<and>
     timely (fh_maxSkewMs (cf_frameHandler (app_cfg app)))
       (en_clock (av_engine env) (app_ticks app + 2)) (en_clock (av_engine env) (app_ticks app))"

text \<open>The policy's verdict on a card at a reader's door.\<close>

definition policy_admits :: "admin_env \<Rightarrow> AppState \<Rightarrow> Database \<Rightarrow> u32 \<Rightarrow> u32 \<Rightarrow> u32 \<Rightarrow> string \<Rightarrow> bool" where
  "policy_admits env app db kv r d card_id \<longleftrightarrow>
     (fh_enforceReaderDoorBinding (cf_frameHandler (app_cfg app)) \<longrightarrow> isReaderAllowedDoor SqlOk db r d = Inr True) \<and>
     (\<exists>role. role_of_card env app db kv card_id role \<and> isAllowed SqlOk db d role = Inr True)"

lemma message_judged:
  assumes "in_order env app db conn lg hasher" and "message_passes env app db req kv"
  obtains allow reason app' where "svc_processHwUid env req app =
      (Inr (okResult (buildHwResponse allow reason (hw_reader_id req) (hw_door_id req) (hw_hw_seq req) kv)), app')"
    and "allow \<Longrightarrow> reason = ''ok''"
    and "allow \<longleftrightarrow> hw_action req = ''open'' \<and> hw_uid req \<noteq> [] \<and>
      policy_admits env app db kv (hw_reader_id req) (hw_door_id req) (hw_uid req)"
proof -
  obtain payload where p: "buildPayloadJson (en_json (av_engine env)) (hw_uid req) (hw_action req) = Inr payload"
    "length payload \<le> unat (fh_maxCtLen (cf_frameHandler (app_cfg app)))"
    using assms(2) by (auto simp: message_passes_def)
  note parts = assms(2) [unfolded message_passes_def]
  have "\<exists>allow reason app'. svc_processHwUid env req app =
      (Inr (okResult (buildHwResponse allow reason (hw_reader_id req) (hw_door_id req) (hw_hw_seq req) kv)), app') \<and>
    (allow \<longrightarrow> reason = ''ok'') \<and> (allow \<longleftrightarrow>
      (fh_enforceReaderDoorBinding (cf_frameHandler (app_cfg app)) \<longrightarrow>
        isReaderAllowedDoor SqlOk db (hw_reader_id req) (hw_door_id req) = Inr True) \<and>
      hw_action req = ''open'' \<and> hw_uid req \<noteq> [] \<and>
      (\<exists>role. role_of_card env app db kv (hw_uid req) role \<and> isAllowed SqlOk db (hw_door_id req) role = Inr True))"
    by (rule hw_card_admitted [OF assms(1) _ _ _ _ p]) (use parts in simp_all)
  then obtain allow reason app' where "svc_processHwUid env req app =
      (Inr (okResult (buildHwResponse allow reason (hw_reader_id req) (hw_door_id req) (hw_hw_seq req) kv)), app')"
    and "allow \<longrightarrow> reason = ''ok''"
    and "allow \<longleftrightarrow> (fh_enforceReaderDoorBinding (cf_frameHandler (app_cfg app)) \<longrightarrow>
        isReaderAllowedDoor SqlOk db (hw_reader_id req) (hw_door_id req) = Inr True) \<and>
      hw_action req = ''open'' \<and> hw_uid req \<noteq> [] \<and>
      (\<exists>role. role_of_card env app db kv (hw_uid req) role \<and> isAllowed SqlOk db (hw_door_id req) role = Inr True)"
    by blast
  then show thesis by (intro that [of allow reason app']) (simp_all only: policy_admits_def, blast+)
qed

text \<open>
  C4: from the card to the lamp. Present a card at a connected reader that is paired with a server in
  working order, not in the pause after the same card and with numbers left. Let nothing but the
  policy stand in the message's way (\<open>message_passes\<close>): the server decides locally, knows the reader
  and, where its monitor is on, has the reader not in quarantine and sees no rollback in the number;
  the number is not in the replay window, the payload fits the frame limit, the clock does not run
  away during the call; and the JSON library prints and reads the two bodies. Then the sketch signals
  admission if and only if the card has an identifier and the policy in the server's database admits
  it: its role is allowed at the door, and the reader is bound to the door where that is enforced. In
  between lie the signed request, the endpoint's check of it, the sealed frame, the engine, the audit
  log and the printed answer.
\<close>

theorem presented_card_signals:
  assumes "in_order env app db conn lg hasher" and "paired env app cfg mb" and "pretty_spec (en_json (av_engine env))"
    and "fe_connected fe" and "fe_post fe = gateway_answer env app"
    and "\<not> (uidToString c = fw_lastUid fw \<and> fe_millis fe - fw_lastSendMs fw < hc_RESEND_DELAY_MS cfg)"
    and "fw_hwSeq fw \<noteq> - 1" and "message_passes env app db (card_message cfg (uidToString c) (fw_hwSeq fw + 1)) kv"
    and "jl_parse (en_json (av_engine env)) (requestBody cfg (uidToString c) (fw_hwSeq fw + 1)) =
      Inr (body_json cfg (uidToString c) (fw_hwSeq fw + 1))"
    and "jl_pretty (en_json (av_engine env)) (buildHwResponse True ''ok'' (of_nat (hc_READER_ID cfg))
      (of_nat (hc_DOOR_ID cfg)) (fw_hwSeq fw + 1) kv) = Inr printed"
  shows "fst (fw_loop cfg mb fe (Some c) fw) =
    (if c \<noteq> [] \<and> policy_admits env app db kv (of_nat (hc_READER_ID cfg)) (of_nat (hc_DOOR_ID cfg)) (uidToString c)
     then signalAllow else signalDeny)"
proof -
  let ?q = "fw_hwSeq fw + 1"
  let ?req = "card_message cfg (uidToString c) ?q" and ?rq = "signedRequest cfg mb (uidToString c) ?q"
  have "?q \<noteq> 0" using less_plus_one [OF assms(7)] by auto
  note served = paired_request_served [OF assms(2) this assms(9)]
  obtain allow reason app' where run: "svc_processHwUid env ?req app = (Inr (okResult (buildHwResponse allow reason
      (of_nat (hc_READER_ID cfg)) (of_nat (hc_DOOR_ID cfg)) ?q kv)), app')"
    and reason: "allow \<Longrightarrow> reason = ''ok''"
    and allow: "allow \<longleftrightarrow> uidToString c \<noteq> [] \<and>
      policy_admits env app db kv (of_nat (hc_READER_ID cfg)) (of_nat (hc_DOOR_ID cfg)) (uidToString c)"
    by (rule message_judged [OF assms(1,8)]) (auto simp: card_message_def)
  obtain code resp where answer: "gateway_answer env app ?rq = (code, resp)" by fastforce
  have "(200 \<le> code \<and> code < 300 \<and> parseAllowFromJson resp = Some True) \<longleftrightarrow> allow"
    by (rule verdict_arrives [OF assms(3,10) run reason served answer])
  then show ?thesis
    unfolding loop_signals [OF assms(4,5,6) answer] using allow by (simp add: uidToString_empty)
qed

section \<open>A pair\<close>

definition pair_hw :: HwConfig where
  "pair_hw = hw_config\<lparr>hc_READER_ID := 5, hc_DOOR_ID := 2\<rparr>"

fun pair_pretty :: "json \<Rightarrow> string result" where
  "pair_pretty (JObject ((k, JBool b) # fs)) =
     Inr (''{'' @ [CHR 0x0A] @ ''  \"'' @ k @ ''\": '' @ (if b then ''true'' else ''false'') @ '' }'')"
| "pair_pretty _ = Inr ''{}''"

definition pair_json :: json_lib where
  "pair_json = demo_json\<lparr>jl_parse := (\<lambda>s. if s = requestBody pair_hw ''A1'' 1 then Inr (body_json pair_hw ''A1'' 1)
       else jl_parse demo_json s),
     jl_pretty := pair_pretty\<rparr>"

definition pair_env :: admin_env where
  "pair_env = demo_admin_env\<lparr>av_engine := demo_env\<lparr>en_json := pair_json\<rparr>\<rparr>"

definition pair_app :: AppState where
  "pair_app = demo_running\<lparr>app_cfg := demo_config\<lparr>cf_admin := (cf_admin demo_config)\<lparr>adm_hwSharedSecretHex := hc_SECRET_HEX hw_config\<rparr>\<rparr>\<rparr>"

definition pair_fw_env :: fw_env where
  "pair_fw_env = demo_fw_env\<lparr>fe_post := gateway_answer pair_env pair_app\<rparr>"

lemma pair_json_spec: "json_spec pair_json"
  by (simp add: json_spec_def pair_json_def demo_json_def requestBody_def pair_hw_def)

lemma pair_pretty_spec: "pretty_spec pair_json"
  by (simp add: pretty_spec_def pair_json_def)

lemma pair_facts:
  obtains conn lg hasher where "in_order pair_env pair_app demo_db conn lg hasher"
    and "paired pair_env pair_app pair_hw toy_hmac"
    and "message_passes pair_env pair_app demo_db (card_message pair_hw ''A1'' 1) 1"
    and "policy_admits pair_env pair_app demo_db 1 5 2 ''A1''"
proof (rule demo_running_facts)
  fix conn lg hasher
  assume ok: "in_order demo_admin_env demo_running demo_db conn lg hasher"
    and cfg: "app_cfg demo_running = demo_config" and km: "app_keyManager demo_running = demo_km"
    and quiet: "\<not> dc_enabled (ad_config (app_anomalyDetector demo_running))"
    and unused: "app_replayByReader demo_running = (\<lambda>_. None)"
  have same: "engine_config (app_cfg pair_app) = engine_config demo_config"
    by (simp add: pair_app_def engine_config_def)
  have "in_order pair_env pair_app demo_db conn lg hasher"
    using ok cfg same pair_json_spec
    by (simp add: in_order_def pair_env_def pair_app_def demo_admin_env_def demo_env_def)
  moreover have "paired pair_env pair_app pair_hw toy_hmac"
    by (simp add: paired_def pair_env_def pair_app_def pair_hw_def demo_admin_env_def demo_env_def hw_config_def
        toy_sodium_spec) (simp add: toy_sodium_def)
  moreover have "message_passes pair_env pair_app demo_db (card_message pair_hw ''A1'' 1) 1"
    using quiet unused demo_policy(3)
    by (simp add: message_passes_def pair_env_def pair_app_def pair_hw_def pair_json_def demo_admin_env_def demo_env_def
        demo_config_def default_AdminConfig_def default_FrameHandlerConfig_def card_message_def buildPayloadJson_def
        demo_json_def demo_request_def window_for_def ReplayWindow_init_def rw_contains_def isTooOld_def timely_def)
  moreover have "role_of_card pair_env pair_app demo_db 1 ''A1'' ''staff''"
    by (rule demo_card_role) (simp_all add: pair_env_def demo_admin_env_def demo_env_def same, simp add: pair_app_def km)
  then have "policy_admits pair_env pair_app demo_db 1 5 2 ''A1''"
    using demo_policy by (auto simp: policy_admits_def)
  ultimately show thesis by (rule that)
qed

theorem presented_card_signals_witness:
  "fst (fw_loop pair_hw toy_hmac pair_fw_env (Some [0xA1]) (fw_setup None)) = signalAllow"
proof (rule pair_facts)
  fix conn lg hasher
  assume ok: "in_order pair_env pair_app demo_db conn lg hasher" and paired: "paired pair_env pair_app pair_hw toy_hmac"
    and passes: "message_passes pair_env pair_app demo_db (card_message pair_hw ''A1'' 1) 1"
    and admits: "policy_admits pair_env pair_app demo_db 1 5 2 ''A1''"
  have ids: "hc_READER_ID pair_hw = 5" "hc_DOOR_ID pair_hw = 2" by (simp_all add: pair_hw_def)
  have json: "en_json (av_engine pair_env) = pair_json" by (simp add: pair_env_def)
  have "fst (fw_loop pair_hw toy_hmac pair_fw_env (Some [0xA1]) (fw_setup None)) =
    (if [0xA1 :: u8] \<noteq> [] \<and> policy_admits pair_env pair_app demo_db 1 (of_nat (hc_READER_ID pair_hw))
        (of_nat (hc_DOOR_ID pair_hw)) (uidToString [0xA1])
     then signalAllow else signalDeny)"
    by (rule presented_card_signals [OF ok paired])
      (use passes in \<open>simp_all add: json pair_pretty_spec pair_fw_env_def demo_fw_env_def demo_uid_text fw_setup_def,
        simp_all add: pair_json_def buildHwResponse_def\<close>)
  then show ?thesis using admits by (simp add: ids demo_uid_text)
qed

section \<open>Restarting the server\<close>

text \<open>The numbers a server has seen are in its memory only.\<close>

definition forgot :: "AppState \<Rightarrow> bool" where
  "forgot app \<longleftrightarrow> app_replayByReader app = (\<lambda>_. None) \<and> (\<forall>r. \<not> isQuarantined (app_anomalyDetector app) r) \<and>
     (\<forall>r q. fst (reportSeq r q 0 (app_anomalyDetector app)) = None)"

lemma keeps_forgot_event: "keeps forgot (app_event env k m r d q) any_value"
  by (rule keepsI) (simp add: app_event_def bindM_apply app_now_def app_push_def forgot_def split: prod.splits sum.splits)

lemma keeps_forgot_open: "keeps forgot (openOrCreate env found) any_value"
proof -
  have "keeps forgot (open_store env found) any_value"
    unfolding open_store_def by (intro keeps_rules keepsI) (simp add: forgot_def)
  moreover have "keeps forgot (open_audit env) any_value"
    by (rule keepsI) (simp add: open_audit_def forgot_def split: prod.splits sum.splits)
  moreover have "keeps forgot (open_engine env) any_value"
    by (rule keepsI) (simp add: open_engine_def forgot_def split: sum.splits)
  moreover have "keeps forgot (\<lambda>app. app_event env ''admin'' (f app) 0 0 0 app) any_value" for f
    using keeps_forgot_event by (simp add: keeps_def)
  ultimately show ?thesis
    unfolding openOrCreate_def by (intro keeps_rules)
qed

lemma forgot_init: "forgot (AppState_init cfg path km)"
  by (simp add: forgot_def AppState_init_def ProtocolAnomalyDetector_init_def isQuarantined_def reportSeq_def getState_def Let_def default_ReaderState_def)

lemma server_start_forgets:
  assumes "server_start env yl files databases path = Inr app"
  shows "forgot app"
proof (rule server_start_opened [OF assms])
  fix cfg km
  assume "openOrCreate env (databases (sc_sqlitePath (cf_storage cfg)))
    (AppState_init cfg (sc_sqlitePath (cf_storage cfg)) km) = (Inr (), app)"
  then show ?thesis using keepsD [OF keeps_forgot_open forgot_init] by (metis snd_conv)
qed

text \<open>
  A request recorded before a restart of the server is answered after it as it was the first time: the
  signature covers a number, but no time, and what guards the numbers does not survive the restart.
  \<open>q\<close> is any number the reader ever used.
\<close>

theorem recorded_request_after_restart:
  assumes "server_start env0 yl files databases path = Inr app"
    and "in_order env app db conn lg hasher" and "paired env app cfg mb" and "pretty_spec (en_json (av_engine env))"
    and "q \<noteq> 0" and "jl_parse (en_json (av_engine env)) (requestBody cfg uid q) = Inr (body_json cfg uid q)"
    and "jl_pretty (en_json (av_engine env)) (buildHwResponse True ''ok'' (of_nat (hc_READER_ID cfg))
      (of_nat (hc_DOOR_ID cfg)) q kv) = Inr printed"
    and "adm_decisionMode (cf_admin (app_cfg app)) \<noteq> ''remote''"
    and "currentKeyVersionForReader SqlOk db (of_nat (hc_READER_ID cfg)) = Inr kv" and "kv \<noteq> 0"
    and "buildPayloadJson (en_json (av_engine env)) uid ''open'' = Inr payload"
    and "length payload \<le> unat (fh_maxCtLen (cf_frameHandler (app_cfg app)))"
    and "timely (fh_maxSkewMs (cf_frameHandler (app_cfg app)))
      (en_clock (av_engine env) (app_ticks app + 2)) (en_clock (av_engine env) (app_ticks app))"
    and "uid \<noteq> []" and "policy_admits env app db kv (of_nat (hc_READER_ID cfg)) (of_nat (hc_DOOR_ID cfg)) uid"
  shows "parseAllowFromJson (snd (gateway_answer env app (signedRequest cfg mb uid q))) = Some True"
proof -
  have "message_passes env app db (card_message cfg uid q) kv"
    using server_start_forgets [OF assms(1)] assms(8-13)
    by (simp add: message_passes_def card_message_def forgot_def window_for_def ReplayWindow_init_def rw_contains_def
        isTooOld_def)
  from message_judged [OF assms(2) this] obtain allow reason app' where
    run: "svc_processHwUid env (card_message cfg uid q) app = (Inr (okResult (buildHwResponse allow reason
      (of_nat (hc_READER_ID cfg)) (of_nat (hc_DOOR_ID cfg)) q kv)), app')" and reason: "allow \<Longrightarrow> reason = ''ok''" and allow
    using assms(14,15) by (force simp: card_message_def)
  obtain code resp where answer: "gateway_answer env app (signedRequest cfg mb uid q) = (code, resp)" by fastforce
  from verdict_arrives [OF assms(4,7) run reason paired_request_served [OF assms(3,5,6)] answer] \<open>allow\<close> answer
  show ?thesis by simp
qed

end
