(* ===== verification/Defined_Calls.thy ===== *)
theory Defined_Calls
  imports Engine_Audit
begin

text \<open>
  A calculus for the absence of undefined behaviour, and the engine in it: whatever bytes it gets and
  whatever its store and its log throw, the engine reads no buffer out of bounds and pops no empty
  queue.
\<close>

section \<open>Programs with defined behaviour\<close>

definition good :: "'a result \<Rightarrow> bool" where
  "good r \<longleftrightarrow> r \<noteq> Inl UndefinedBehaviour"

text \<open>\<open>defined I m\<close>: from a state with \<open>I\<close>, the program has defined behaviour and ends in a state with \<open>I\<close>.\<close>

definition defined :: "('s \<Rightarrow> bool) \<Rightarrow> ('s, 'a) prog \<Rightarrow> bool" where
  "defined I m \<longleftrightarrow> (\<forall>s. I s \<longrightarrow> I (snd (m s)) \<and> good (fst (m s)))"

named_theorems good_rules
named_theorems defined_rules

lemma good_simps [simp]:
  "good (Inr x)" "good (Inl e) \<longleftrightarrow> e \<noteq> UndefinedBehaviour"
  by (simp_all add: good_def)

lemma good_bind [good_rules]:
  "good m \<Longrightarrow> (\<And>x. m = Inr x \<Longrightarrow> good (f x)) \<Longrightarrow> good (bindR m f)"
  by (cases m) (simp_all add: good_def)

lemma good_if [good_rules]: "(c \<Longrightarrow> good m) \<Longrightarrow> (\<not> c \<Longrightarrow> good n) \<Longrightarrow> good (if c then m else n)"
  by simp

lemma definedI: "(\<And>s. I s \<Longrightarrow> I (snd (m s)) \<and> good (fst (m s))) \<Longrightarrow> defined I m"
  by (simp add: defined_def)

lemma definedD: "defined I m \<Longrightarrow> I s \<Longrightarrow> I (snd (m s)) \<and> good (fst (m s))"
  by (simp add: defined_def)

lemma defined_bind [defined_rules]:
  assumes "defined I m" and "\<And>x. defined I (f x)"
  shows "defined I (bindM m f)"
proof (rule definedI)
  fix s assume "I s"
  obtain r t where m: "m s = (r, t)" by (cases "m s")
  with definedD [OF assms(1) \<open>I s\<close>] have "I t" and "good r" by simp_all
  then show "I (snd (bindM m f s)) \<and> good (fst (bindM m f s))"
    using definedD [OF assms(2) \<open>I t\<close>] by (cases r) (simp_all add: bindM_apply m)
qed

lemma defined_pure [defined_rules]: "defined I (returnM x)" "e \<noteq> UndefinedBehaviour \<Longrightarrow> defined I (throwM e)"
  by (simp_all add: defined_def)

lemma defined_lift: "good r \<Longrightarrow> defined I (liftR r)"
  by (simp add: defined_def)

text \<open>What follows a pure result may use it.\<close>

lemma defined_lift_bind:
  "good r \<Longrightarrow> (\<And>x. r = Inr x \<Longrightarrow> defined I (f x)) \<Longrightarrow> defined I (bindM (liftR r) f)"
  by (cases r) (auto simp: defined_def bindM_apply)

lemma defined_if [defined_rules]:
  "(c \<Longrightarrow> defined I m) \<Longrightarrow> (\<not> c \<Longrightarrow> defined I n) \<Longrightarrow> defined I (if c then m else n)"
  by simp

lemma defined_option [defined_rules]:
  "(x = None \<Longrightarrow> defined I m) \<Longrightarrow> (\<And>y. x = Some y \<Longrightarrow> defined I (f y)) \<Longrightarrow>
     defined I (case x of None \<Rightarrow> m | Some y \<Rightarrow> f y)"
  by (cases x) simp_all

lemma defined_sum [defined_rules]:
  "(\<And>y. x = Inl y \<Longrightarrow> defined I (f y)) \<Longrightarrow> (\<And>y. x = Inr y \<Longrightarrow> defined I (g y)) \<Longrightarrow>
     defined I (case x of Inl y \<Rightarrow> f y | Inr y \<Rightarrow> g y)"
  by (cases x) simp_all

lemma defined_prod [defined_rules]:
  "(\<And>a b. x = (a, b) \<Longrightarrow> defined I (f a b)) \<Longrightarrow> defined I (case x of (a, b) \<Rightarrow> f a b)"
  by (cases x) simp

section \<open>Keys and hashes\<close>

lemma derive_good:
  assumes "sodium_spec so"
  shows "good (deriveCardPepper so km kv)" and "good (deriveNonceKey so km r kv)" and "good (deriveAeadKey so km r kv)"
    and "good (deriveAuditHmacKey so km)"
proof -
  show "good (deriveCardPepper so km kv)"
    using derive_for_eq [OF assms, of "CardPepper kv" km] by (cases "kv = 0") (auto simp: deriveCardPepper_def)
  show "good (deriveNonceKey so km r kv)" "good (deriveAeadKey so km r kv)" "good (deriveAuditHmacKey so km)"
    using derive_for_eq [OF assms, of "NonceKey r kv" km] derive_for_eq [OF assms, of "FrameKey r kv" km]
      derive_for_eq [OF assms, of AuditKey km]
    by auto
qed

lemma hmacHex_good: "good (hmacHex so ch c)"
  by (simp add: hmacHex_def)

section \<open>The engine\<close>

text \<open>A store and a log that may throw anything but have defined behaviour.\<close>

definition store_defined :: "IAccessStore \<Rightarrow> bool" where
  "store_defined st \<longleftrightarrow> (\<forall>h. good (st_roleForCardHmac st h)) \<and> (\<forall>d role. good (st_isAllowed st d role)) \<and>
     (\<forall>r. good (st_currentKeyVersionForReader st r)) \<and> (\<forall>r d. good (st_isReaderAllowedDoor st r d))"

definition log_defined :: "(AuditEvent \<Rightarrow> ('a, unit) prog) \<Rightarrow> bool" where
  "log_defined ap \<longleftrightarrow> (\<forall>e a. good (fst (ap e a)))"

lemma sqlite_store_defined: "store_defined (SqliteAccessStore st d)"
  by (auto simp: store_defined_def SqliteAccessStore_def roleForCardHmac_def isAllowed_def
      currentKeyVersionForReader_def isReaderAllowedDoor_def split: option.splits)

lemma sqlite_log_defined: "log_defined (audit_append so lg st)"
proof -
  have "defined (\<lambda>_. True) (exec_begin st)" "defined (\<lambda>_. True) (exec_commit st)" "defined (\<lambda>_. True) (exec_rollback st)"
    "defined (\<lambda>_. True) (getLastEntryHash st)" "defined (\<lambda>_. True) (insertAuditEntry st e p h)"
    "defined (\<lambda>_. True) (updateAnchor st h ts)" for e p h ts
    by (auto intro!: definedI simp: audit_sql_defs getLastEntryHash_def insertAuditEntry_def updateAnchor_def Let_def
        split: option.splits)
  note stmts = this
  have body: "defined (\<lambda>_. True) (append_body so lg st e)" for e
    unfolding append_body_def Let_def by (intro defined_rules stmts)
  have "defined (\<lambda>_. True) (try_rethrow (append_body so lg st e) (exec_rollback st))" for e
  proof (rule definedI, rule conjI [OF TrueI])
    fix s
    obtain r t where run: "append_body so lg st e s = (r, t)" by (cases "append_body so lg st e s")
    with definedD [OF body [of e], of s] have "good r" by simp
    then show "good (fst (try_rethrow (append_body so lg st e) (exec_rollback st) s))"
      using definedD [OF defined_bind [OF stmts(3) defined_pure(2)], of _ t]
      by (cases r) (auto simp: try_rethrow_def run)
  qed
  then have "defined (\<lambda>_. True) (audit_append so lg st e)" for e
    unfolding audit_append_def by (intro defined_rules stmts)
  then show ?thesis by (simp add: log_defined_def defined_def)
qed

text \<open>The engine changes the bus only by pushing.\<close>

lemma defined_clock [defined_rules]: "defined bus_ok (nowUnixMs env)"
  by (rule definedI) (simp add: nowUnixMs_def bus_ok_def)

lemma defined_silent: "silent m \<Longrightarrow> defined bus_ok m"
  by (auto simp: silent_def defined_def yields_def)

lemma defined_publish [defined_rules]:
  "defined bus_ok (publishFrameEvent env n)" "defined bus_ok (publishDecisionEvent env hr)"
  "defined bus_ok (publishAnomalyEvent env r ty d)"
  by (simp_all add: defined_silent silent_publish)

lemma defined_on_detector [defined_rules]: "defined bus_ok (on_detector f x)"
  by (rule definedI) (auto simp: on_detector_def bus_ok_def split: option.splits prod.splits)

lemma defined_track [defined_rules]: "defined bus_ok (track_rejection env hr)"
  unfolding track_rejection_def Let_def by (intro defined_rules)

lemma defined_logAuditEvent:
  assumes "log_defined (al_append (de_audit eng))"
  shows "defined bus_ok (logAuditEvent env eng h allow reason c act)"
proof (rule definedI)
  fix s :: "'a engine_state" assume s: "bus_ok s"
  have later: "defined bus_ok (when_events (bindM (nowUnixMs env) (\<lambda>t. push_event (ev t))))" for ev
    by (intro defined_silent silent_when_events silent_push_event)
  show "bus_ok (snd (logAuditEvent env eng h allow reason c act s)) \<and> good (fst (logAuditEvent env eng h allow reason c act s))"
  proof (cases "es_audit s")
    case (Some a)
    obtain r b where run: "al_append (de_audit eng) (make_audit_event h allow reason c act) a = (r, b)"
      by (cases "al_append (de_audit eng) (make_audit_event h allow reason c act) a")
    with assms have "good r" by (metis fst_conv log_defined_def)
    moreover have "bus_ok (s\<lparr>es_audit := Some b\<rparr>)" using s by (simp add: bus_ok_def)
    ultimately show ?thesis
      using definedD [OF later] by (cases r) (simp_all add: logAuditEvent_def Some run)
  qed (use s in \<open>simp add: logAuditEvent_def\<close>)
qed

lemma resolve_good:
  assumes "sodium_spec (en_sodium env)" and "store_defined st"
  shows "good (resolveCardHmac env eng st c kv)"
  unfolding resolveCardHmac_def Let_def
  using assms(2) by (intro good_rules derive_good [OF assms(1)] hmacHex_good good_simps(1)) (simp_all add: store_defined_def)

lemma defined_handler:
  assumes "\<forall>st. de_store eng = Some st \<longrightarrow> store_defined st"
  shows "defined bus_ok (run_handler env eng bs)"
proof -
  have reader: "good (validateReader (engine_handler eng) f)" for f
    using assms unfolding validateReader_def
    by (cases "de_store eng") (auto simp: engine_handler_def store_defined_def intro!: good_rules)
  have "good (fst (handle so rnd now (engine_handler eng) bs ws))" for so rnd now ws
    by (rule handle_cases [of so rnd now "engine_handler eng" bs ws])
      (use reader in \<open>auto simp: handle_accepts good_def\<close>)
  then show ?thesis
    by (intro definedI) (simp add: run_handler_def bindM_apply nowUnixMs_def bus_ok_def case_prod_beta)
qed

lemma engine_defined:
  assumes spec: "sodium_spec (en_sodium env)" and store: "\<forall>st. de_store eng = Some st \<longrightarrow> store_defined st"
    and log: "log_defined (al_append (de_audit eng))"
  shows "defined bus_ok (handleFrameBytes env eng bs)"
proof -
  note logged = defined_logAuditEvent [OF log]
  have denied: "defined bus_ok (deny_quarantined env eng hr)" for hr
    unfolding deny_quarantined_def by (intro defined_rules logged)
  have found: "defined bus_ok (bindM (liftR (resolveCardHmac env eng st c kv)) (\<lambda>(cardHmac, roleOpt).
      case roleOpt of
        None \<Rightarrow> bindM (logAuditEvent env eng h False ''unknown_card'' cardHmac act) (\<lambda>_. returnM (createDeniedResult ''unknown_card''))
      | Some role \<Rightarrow> bindM (liftR (checkRoleAccess st d role)) (\<lambda>result.
          bindM (logAuditEvent env eng h (de_allow result) (de_reason result) cardHmac act) (\<lambda>_. returnM result))))"
    if "store_defined st" for st c kv h d act
    by (intro defined_rules defined_lift logged resolve_good [OF spec that])
      (use that in \<open>auto simp: checkRoleAccess_def store_defined_def intro!: good_rules\<close>)
  have policy: "defined bus_ok (checkAccessPolicy env eng hr rq)" for hr rq
    unfolding checkAccessPolicy_def Let_def
    by (intro defined_rules defined_lift logged found) (use store in \<open>auto simp: store_defined_def\<close>)
  have accepted: "defined bus_ok (after_acceptance env eng hr)" for hr
    unfolding after_acceptance_def by (intro defined_rules logged policy)
  have monitor: "defined bus_ok (after_monitor env eng b hr)" for b hr
    unfolding after_monitor_def Let_def by (intro defined_rules logged accepted)
  have expected: "good (expected_nonce env eng h)" for h
    unfolding expected_nonce_def Let_def by (intro good_rules derive_good [OF spec] good_simps)
  have nonce: "defined bus_ok (check_nonce env eng b hr)" for b hr
    unfolding check_nonce_def Let_def by (intro defined_rules defined_lift denied monitor expected)
  have rollback: "defined bus_ok (check_rollback env eng b hr)" for b hr
    unfolding check_rollback_def Let_def by (intro defined_rules denied nonce)
  have staged: "defined bus_ok (monitored env eng active hr)" for active hr
    using denied [of hr] rollback [of active hr] by (simp add: defined_def)
  have "defined bus_ok (bindM (publishFrameEvent env (length bs)) (\<lambda>_. monitored env eng active hr))" for active hr
    by (intro defined_bind defined_publish staged)
  then show ?thesis
    unfolding handleFrameBytes_def
    by (intro defined_bind defined_handler [OF store]) (simp add: defined_def after_handler_def Let_def)
qed

end
