(* ===== verification/Server_Safety.thy ===== *)
theory Server_Safety
  imports Server_Properties Defined_Calls
begin

text \<open>
  The absence of undefined behaviour in the running server: no request dereferences a null object, pops
  an empty queue or reads out of bounds. What it takes is that the JSON of the request has no
  numbers with a fraction or an exponent where integers are read, and that an import does not fail
  half-way (the corners in \<open>Server_Properties\<close>).
\<close>

section \<open>Working servers\<close>

definition working :: "AppState \<Rightarrow> bool" where
  "working app \<longleftrightarrow> app_store app \<noteq> None \<and> app_audit app \<noteq> None \<and> app_engine app \<noteq> None \<and>
     bus_inv (app_events app) \<and> kmy_currentKeyVersion (cf_keyManagement (app_cfg app)) \<noteq> 0"

text \<open>The values of an object that integers are read from are no floating-point numbers.\<close>

definition no_floats :: "json \<Rightarrow> bool" where
  "no_floats j \<longleftrightarrow> (\<forall>k i. json_field j k \<noteq> Some (JFloat i))"

definition request_fine :: "route \<Rightarrow> admin_env \<Rightarrow> HttpRequest \<Rightarrow> bool" where
  "request_fine rt env req \<longleftrightarrow> sodium_spec (en_sodium (av_engine env)) \<and>
     (\<forall>j. good (jl_dump (en_json (av_engine env)) j) \<and> good (jl_pretty (en_json (av_engine env)) j)) \<and>
     (\<forall>j. jl_parse (en_json (av_engine env)) (ht_body req) = Inr j \<longrightarrow> no_floats j) \<and>
     (rt = DbImport \<longrightarrow> av_open env = opens_fine \<and> up_copy_error (av_upload env) = None)"

section \<open>Reading requests\<close>

lemma good_json:
  "good (json_at jl k j)" "good (json_string jl v)" "good (json_bool jl v)"
  by (auto simp: json_at_def json_throw_def split: option.splits) (cases v; simp add: json_throw_def)+

lemma good_integers:
  assumes "no_floats j"
  shows "good (bindR (json_at jl k j) (json_u32 jl))" and "good (bindR (json_at jl k j) (json_u64 jl))"
proof -
  have "\<not> (\<exists>i. v = JFloat i)" if "json_at jl k j = Inr v" for v
    using that assms by (auto simp: json_at_def json_throw_def no_floats_def split: option.splits)
  then show "good (bindR (json_at jl k j) (json_u32 jl))" and "good (bindR (json_at jl k j) (json_u64 jl))"
    by (intro good_bind good_json; case_tac x; fastforce simp: json_throw_def)+
qed

lemma good_numbers:
  "good (path_u32 req n)" "good (param_u64 req k d)" "good (param_int req k i)"
  by (auto simp: path_u32_def param_u64_def param_int_def stoul_def stoull_def std_stoull_def stoi_def Let_def good_def
      bindR_Inl_iff split: option.splits)

lemma good_value:
  assumes "\<And>v. good (get v)"
  shows "good (json_value jl get k d j)"
  using assms by (auto simp: json_value_def json_throw_def split: option.splits)

lemma good_hw_request: "no_floats j \<Longrightarrow> good (parseHwUidRequest jl j)"
proof -
  assume j: "no_floats j"
  let ?r = "bindR (json_at jl (if json_contains j ''uid'' then ''uid'' else ''card_id'') j) (\<lambda>v.
           bindR (json_string jl v) (\<lambda>uid.
           bindR (bindR (json_at jl ''reader_id'' j) (json_u32 jl)) (\<lambda>reader_id.
           bindR (bindR (json_at jl ''door_id'' j) (json_u32 jl)) (\<lambda>door_id.
           bindR (bindR (json_at jl ''hw_seq'' j) (json_u64 jl)) (\<lambda>hw_seq.
           bindR (json_value jl (json_string jl) ''action'' ''open'' j) (\<lambda>act.
             Inr \<lparr>hw_uid = uid, hw_reader_id = reader_id, hw_door_id = door_id, hw_hw_seq = hw_seq,
               hw_action = act\<rparr>))))))"
  have "good ?r"
    by (intro good_bind good_integers [OF j] good_json(2) good_value good_simps(1)) (rule good_json)
  then show ?thesis
    unfolding parseHwUidRequest_def by (cases ?r) (auto simp: good_def split: exn.splits)
qed

section \<open>Building blocks\<close>

lemma defined_now [defined_rules]: "defined working (app_now env)"
  by (rule definedI) (simp add: app_now_def working_def)

lemma defined_push [defined_rules]: "defined working (app_push e)"
proof (rule definedI)
  fix app assume w: "working app"
  then have "bus_inv (app_events app)" by (simp add: working_def)
  then obtain x bus where "push e (app_events app) = (Inr x, bus)" and "bus_inv bus"
    by (rule bus_sink.emitE)
  with w show "working (snd (app_push e app)) \<and> good (fst (app_push e app))"
    by (simp add: app_push_def working_def)
qed

lemma defined_event [defined_rules]: "defined working (app_event env k m r d q)"
  unfolding app_event_def by (intro defined_rules)

lemma defined_on_store:
  assumes "\<And>db. good (fst (m db))"
  shows "defined working (on_store m)"
  using assms
  by (intro definedI) (auto simp: on_store_def working_def case_prod_beta split: option.splits)

lemma defined_read_store: "(\<And>db. good (f db)) \<Longrightarrow> defined working (read_store f)"
  unfolding read_store_def by (rule defined_on_store) simp

lemma defined_engine:
  assumes "sodium_spec (en_sodium (av_engine env))"
  shows "defined working (app_run_engine env bs)"
proof (rule definedI)
  fix app assume w: "working app"
  then obtain db conn lg hasher cfg where parts: "app_store app = Some (db, conn)" "app_audit app = Some lg"
    "app_engine app = Some (hasher, cfg)" by (auto simp: working_def)
  let ?eng = "\<lparr>de_store = Some (SqliteAccessStore (av_query env) db), de_hasher = hasher,
      de_audit = \<lparr>al_append = audit_append (en_sodium (av_engine env)) lg (av_append env)\<rparr>,
      de_keyManager = app_keyManager app, de_frameHandlerCfg = cfg\<rparr>"
  let ?s = "\<lparr>es_windows = app_replayByReader app, es_detector = Some (app_anomalyDetector app),
      es_audit = Some conn, es_events = Some (app_events app), es_ticks = app_ticks app\<rparr>"
  have "defined bus_ok (handleFrameBytes (av_engine env) ?eng bs)"
    by (rule engine_defined [OF assms]) (simp_all add: sqlite_store_defined sqlite_log_defined)
  moreover have "bus_ok ?s" using w by (simp add: bus_ok_def working_def)
  ultimately have "bus_ok (snd (handleFrameBytes (av_engine env) ?eng bs ?s)) \<and> good (fst (handleFrameBytes (av_engine env) ?eng bs ?s))"
    by (rule definedD)
  with w parts show "working (snd (app_run_engine env bs app)) \<and> good (fst (app_run_engine env bs app))"
    by (auto simp: app_run_engine_unfold Let_def working_def bus_ok_def split: prod.splits option.splits)
qed

section \<open>Services\<close>

text \<open>A call: a route, an environment and a request to it, with the conditions above.\<close>

locale fine_call =
  fixes rt :: route and env :: admin_env and req :: HttpRequest
  assumes fine: "request_fine rt env req"
begin

lemma spec: "sodium_spec (en_sodium (av_engine env))"
  and dump_good: "good (jl_dump (en_json (av_engine env)) j)"
  and pretty_good: "good (jl_pretty (en_json (av_engine env)) j)"
  and body_good: "jl_parse (en_json (av_engine env)) (ht_body req) = Inr j \<Longrightarrow> no_floats j"
  and import_fine: "rt = DbImport \<Longrightarrow> av_open env = opens_fine" "rt = DbImport \<Longrightarrow> up_copy_error (av_upload env) = None"
  using fine by (simp_all add: request_fine_def)

lemma reply_defined: "defined working (reply env r)"
  unfolding reply_def sendResult_def setJson_def by (intro defined_lift good_bind pretty_good) simp

lemma auth_defined: "defined working m \<Longrightarrow> defined working (requireAuth env req m)"
  using reply_defined by (simp add: defined_def requireAuth_def)

lemma catch_defined:
  assumes "defined working m" shows "defined working (try_catch env status m)"
proof (rule definedI)
  fix app assume "working app"
  obtain r app' where run: "m app = (r, app')" by (cases "m app")
  with definedD [OF assms \<open>working app\<close>] have "working app'" and "good r" by simp_all
  then show "working (snd (try_catch env status m app)) \<and> good (fst (try_catch env status m app))"
    using definedD [OF reply_defined] by (auto simp: try_catch_def run good_def split: sum.splits exn.splits)
qed

lemmas steps = defined_rules reply_defined auth_defined catch_defined defined_lift good_numbers

lemma lists_defined:
  "defined working (svc_listReaders env)" "defined working (svc_listDoorRoles env)"
  "defined working (svc_listCards env limit offset)"
  unfolding svc_listReaders_def svc_listDoorRoles_def svc_listCards_def
  by (intro defined_rules defined_read_store;
      simp add: listReaders_def listReaderDoors_def listDoorRoles_def listCards_def Let_def)+

lemma queries_defined:
  "defined working (svc_getEvents env after n)" "defined working (svc_listAuditLog env l k)"
  "defined working (svc_verifyAuditChain env)"
proof -
  have "good (deriveAuditHash (en_sodium (av_engine env)) km)" for km
    unfolding deriveAuditHash_def by (intro good_bind derive_good [OF spec]) simp
  moreover have "good (verifyAuditChain so sr sa db key)" for so sr sa db key
    by (auto simp: verifyAuditChain_def verifyAnchor_def split: option.splits sum.splits)
  moreover have "good (getAfter m bus i k)" for m bus i k
    by (auto simp: getAfter_def Let_def)
  ultimately show "defined working (svc_getEvents env after n)" "defined working (svc_listAuditLog env l k)"
    "defined working (svc_verifyAuditChain env)"
    by (auto intro!: definedI simp: svc_getEvents_def svc_listAuditLog_def svc_verifyAuditChain_def working_def Let_def good_def
        split: sum.splits option.splits)
qed

lemma writes_defined:
  "defined working (svc_upsertReader env r kv)" "defined working (svc_deleteReader env r)"
  "defined working (svc_bindDoor env r d)" "defined working (svc_unbindDoor env r d)"
  "defined working (svc_allowRole env d role)" "defined working (svc_revokeRole env d role)"
  "defined working (svc_deleteCard env h)"
  unfolding svc_upsertReader_def svc_deleteReader_def svc_bindDoor_def svc_unbindDoor_def
    svc_allowRole_def svc_revokeRole_def svc_deleteCard_def
  by (intro defined_rules defined_on_store;
      simp add: upsertReader_def deleteReader_def allowDoorForReader_def revokeDoorForReader_def allowRole_def
        revokeRole_def deleteCardHmac_def)+

lemma upsertCard_defined: "defined working (svc_upsertCard env c role kv)"
proof (rule definedI)
  fix app assume w: "working app"
  let ?kv = "case kv of None \<Rightarrow> kmy_currentKeyVersion (cf_keyManagement (app_cfg app)) | Some v \<Rightarrow> v"
  let ?h = "bindR (deriveCardPepper (en_sodium (av_engine env)) (app_keyManager app) ?kv)
    (\<lambda>p. hmacHex (en_sodium (av_engine env)) (CardIdHasher_init p) c)"
  have h: "good ?h" by (intro good_bind derive_good [OF spec] hmacHex_good)
  have "defined working (bindM (on_store (upsertCardHmac (av_stmt env) h role)) (\<lambda>_.
          bindM (app_event env ''admin'' (''upsertCard role='' @ role) 0 0 0) (\<lambda>_.
          returnM (okResult (JObject [(''card_hmac'', JString h), (''ok'', JBool True)])))))" for h
    by (intro defined_rules defined_on_store) (simp add: upsertCardHmac_def)
  from definedD [OF this w] show "working (snd (svc_upsertCard env c role kv app)) \<and> good (fst (svc_upsertCard env c role kv app))"
    using w h unfolding svc_upsertCard_def Let_def by (cases ?h) simp_all
qed

lemma unquarantine_defined: "defined working (svc_unquarantineReader env r)"
proof (rule definedI)
  fix app assume w: "working app"
  then have "working (app\<lparr>app_anomalyDetector := det\<rparr>)" for det by (simp add: working_def)
  moreover have "defined working (bindM (app_event env ''admin'' ''unquarantine'' r 0 0) (\<lambda>_.
      returnM (okResult (JObject [(''ok'', JBool True), (''reader_id'', JWord r)]))))"
    by (intro defined_rules)
  ultimately show "working (snd (svc_unquarantineReader env r app)) \<and> good (fst (svc_unquarantineReader env r app))"
    using w by (auto simp: svc_unquarantineReader_def Let_def definedD split: prod.splits)
qed

section \<open>The hardware service and the engine\<close>

lemma frame_good: "good (buildEncryptedFrameBytes (en_sodium (av_engine env)) (en_json (av_engine env)) r1 r2 km r d q kv ts uid act kd am cm nm)"
proof -
  have seal: "good (sealWithNonce so aead pt aad nonce)" for so aead pt aad nonce
    by (auto simp: sealWithNonce_def encryptDetached_def Let_def good_def bindR_Inl_iff split: prod.splits if_splits CipherMode.splits)
  show ?thesis
    unfolding buildEncryptedFrameBytes_def buildPayloadJson_def encryptAndSerialize_def createNonceGenerator_def Let_def
    by (intro good_rules derive_good [OF spec] dump_good seal good_simps(1))
qed

lemma hw_build_defined: "defined working (hw_build env hw ts)"
proof -
  have "defined working (\<lambda>app. case buildEncryptedFrameBytes (en_sodium (av_engine env)) (en_json (av_engine env))
      (av_rnd_prefix env) (av_rnd_nonce env) (app_keyManager app) (hw_reader_id hw) (hw_door_id hw) (hw_hw_seq hw) kv ts
      (hw_uid hw) (hw_action hw) (ex_keyDerivationMode (cf_experiment (app_cfg app)))
      (ex_aadMode (cf_experiment (app_cfg app))) (ex_cipherMode (cf_experiment (app_cfg app)))
      (ex_nonceMode (cf_experiment (app_cfg app))) of
      Inl e \<Rightarrow> (Inl e, app) | Inr frameBytes \<Rightarrow> (Inr (Inr (kv, frameBytes)), app))" for kv
    using frame_good by (auto simp: defined_def good_def split: sum.splits)
  then show ?thesis
    unfolding hw_build_def pushHwEvent_def
    by (intro defined_rules defined_read_store) (simp_all add: currentKeyVersionForReader_def split: option.splits)
qed

lemma remote_good: "good (remote_decision (en_json (av_engine env)) http k r)"
proof (induction k arbitrary: r)
  case (Suc k)
  have "good (bindR (json_value jl (json_bool jl) ''allow'' False j) (\<lambda>allow.
      bindR (json_value jl (json_string jl) ''reason'' ''remote_error'' j) (\<lambda>reason.
      Inr \<lparr>de_allow = allow, de_reason = reason\<rparr>)))" for jl j
    by (intro good_bind good_value good_json good_simps(1))
  with Suc show ?case by (simp add: Let_def split: option.splits sum.splits)
qed simp

lemma hw_decide_defined: "defined working (hw_decide env bs)"
  using defined_engine [OF spec, of bs] remote_good by (simp add: hw_decide_def defined_def)

lemma processHwUid_defined: "defined working (svc_processHwUid env hw)"
  unfolding svc_processHwUid_def by (intro defined_rules hw_build_defined hw_decide_defined)

lemma decision_defined: "defined working (route_decision env req)"
proof (rule definedI)
  fix app assume w: "working app"
  have "defined working (bindM (app_run_engine env (bytes_of_string (ht_body req))) (\<lambda>r. liftR
      (setJson (en_json (av_engine env)) empty_response (JObject [(''allow'', JBool (de_allow r)), (''reason'', JString (de_reason r))]) 200)))"
    unfolding setJson_def by (intro defined_bind defined_engine [OF spec] defined_lift good_bind pretty_good) simp
  note definedD [OF this w]
  moreover have "good (setJson (en_json (av_engine env)) empty_response j status)" for j status
    unfolding setJson_def by (intro good_bind pretty_good) simp
  ultimately show "working (snd (route_decision env req app)) \<and> good (fst (route_decision env req app))"
    using w by (auto simp: route_decision_def Let_def good_def split: sum.splits prod.splits exn.splits)
qed

lemma reads_defined:
  "defined working route_root" "defined working (route_events env req)" "defined working (route_readers env req)"
  "defined working (route_door_roles env req)" "defined working (route_cards env req)"
  "defined working (route_audit env req)" "defined working (route_audit_verify env req)"
  "defined working (route_db_export env req)" "defined working (route_delete_reader env req)"
  "defined working (route_unbind_door env req)" "defined working (route_unquarantine env req)"
  unfolding route_root_def route_events_def route_readers_def route_door_roles_def route_cards_def
    route_audit_def route_audit_verify_def route_db_export_def route_delete_reader_def route_unbind_door_def
    route_unquarantine_def Let_def
  by (intro steps lists_defined queries_defined writes_defined unquarantine_defined)+

text \<open>Endpoints that read integers out of a body.\<close>

lemma body_defined:
  assumes "\<And>j. no_floats j \<Longrightarrow> defined working (f j)"
  shows "defined working (bindM (json_body env req) f)"
  unfolding json_body_def
  by (rule defined_lift_bind) (use assms body_good in \<open>auto simp: good_def split: sum.splits\<close>)

lemma field_defined:
  "no_floats j \<Longrightarrow> defined working (at_u32 env k j)" "defined working (at_string env k j)"
  unfolding at_u32_def at_string_def
  by (intro defined_lift good_integers good_bind good_json; assumption)+

lemma bodies_defined:
  "defined working (route_post_reader env req)" "defined working (route_bind_door env req)"
  "defined working (route_allow_role env req)" "defined working (route_revoke_role env req)"
  "defined working (route_post_card env req)" "defined working (route_delete_card env req)"
  unfolding route_post_reader_def route_bind_door_def route_allow_role_def route_revoke_role_def
    route_post_card_def route_delete_card_def
  by (intro body_defined steps field_defined writes_defined upsertCard_defined; assumption)+

lemma hw_uid_defined: "defined working (route_hw_uid env req)"
proof (rule definedI)
  fix app assume w: "working app"
  have "defined working (try_catch env kHttpBadRequest
      (bindM (json_body env req) (\<lambda>j.
       bindM (liftR (parseHwUidRequest (en_json (av_engine env)) j)) (\<lambda>parsed.
         case parsed of
           None \<Rightarrow> reply env (errorResult ''invalid request'' kHttpBadRequest)
         | Some hwReq \<Rightarrow>
             if hw_hw_seq hwReq = 0 then reply env (errorResult ''hw_seq must be > 0'' kHttpBadRequest)
             else bindM (svc_processHwUid env hwReq) (reply env)))))"
    by (intro body_defined steps good_hw_request processHwUid_defined)
  note definedD [OF this w]
  moreover have "good (setJson (en_json (av_engine env)) empty_response j status)" for j status
    unfolding setJson_def by (intro good_bind pretty_good) simp
  ultimately show "working (snd (route_hw_uid env req app)) \<and> good (fst (route_hw_uid env req app))"
    using w by (simp add: route_hw_uid_def Let_def split: option.splits)
qed

text \<open>The import, when nothing fails behind the point where it closes the database.\<close>

lemma reopened:
  assumes "app_cfg closed = app_cfg app" and "app_events closed = app_events app" and "working app" and "rt = DbImport"
  shows "\<exists>app'. openOrCreate env found closed = (Inr (), app') \<and> working app'"
proof -
  obtain key where key: "deriveAuditHash (en_sodium (av_engine env)) (app_keyManager closed) = Inr key"
    using auditHash_ok [OF spec] by blast
  obtain p where p: "deriveCardPepper (en_sodium (av_engine env)) (app_keyManager closed)
      (kmy_currentKeyVersion (cf_keyManagement (app_cfg closed))) = Inr p"
    using cardPepper_ok [OF spec] assms(1,3) by (fastforce simp: working_def)
  have "bus_inv (app_events closed)" using assms(2,3) by (simp add: working_def)
  then show ?thesis
    by (rule opened [OF import_fine(1) [OF assms(4)] key p, where found = found]) (use assms(1,3) in \<open>auto simp: working_def\<close>)
qed

lemma import_defined:
  assumes "rt = DbImport" shows "defined working (importDbFile env)"
proof (rule definedI)
  fix app assume w: "working app"
  let ?so = "en_sodium (av_engine env)" and ?up = "av_upload env"
  have "good (verifyAuditChain ?so (up_rows ?up) (up_anchor ?up) db key)" for db key
    by (auto simp: verifyAuditChain_def verifyAnchor_def split: option.splits sum.splits)
  then have "good (verifyUploadedAuditChain ?so ?up (app_keyManager app))"
    unfolding verifyUploadedAuditChain_def deriveAuditHash_def by (intro good_rules derive_good [OF spec]) simp_all
  then have "good (fst (import_check env app))" by (simp add: import_check_def good_def split: option.splits)
  then obtain r where check: "import_check env app = (r, app)" "good r"
    using server_check [of env app] by (metis prod.collapse)
  obtain app1 where replace: "import_replace env app = (Inr None, app1)"
    and app1: "app_cfg app1 = app_cfg app" "app_events app1 = app_events app"
    using import_fine(2) [OF assms] by (simp add: import_replace_def replaceDbFile_def)
  obtain app2 where reopen: "import_reopen env app1 = (Inr (), app2)" and w2: "working app2"
    using reopened [OF app1 w assms] by (auto simp: import_reopen_def)
  have "defined working (bindM (app_event env ''admin'' ''db imported + reopened'' 0 0 0) (\<lambda>_. returnM (None :: string option)))"
    by (intro defined_rules)
  note definedD [OF this w2]
  with w check show "working (snd (importDbFile env app)) \<and> good (fst (importDbFile env app))"
    by (auto simp: importDbFile_def bindM_apply [of "import_check env"] bindM_apply [of "import_replace env"]
        bindM_apply [of "import_reopen env"] replace reopen good_def split: option.splits sum.splits)
qed

lemma db_import_defined:
  assumes "rt = DbImport" shows "defined working (route_db_import env req)"
proof -
  have "defined working (\<lambda>app. if c app then (Inr x, app) else
      bindM (importDbFile env) (\<lambda>error. returnM (f error)) app)" for c and x and f :: "string option \<Rightarrow> ServiceResult"
  proof -
    have "defined working (bindM (importDbFile env) (\<lambda>error. returnM (f error)))" by (intro defined_rules import_defined assms)
    then show ?thesis by (simp add: defined_def)
  qed
  then have "defined working (svc_importDatabase env data)" for data
    unfolding svc_importDatabase_def .
  then show ?thesis
    unfolding route_db_import_def Let_def by (intro steps good_value good_json)
qed

lemma call_defined: "defined working (registerRoutes rt env req)"
  by (cases rt) (simp_all add: reads_defined bodies_defined hw_uid_defined decision_defined db_import_defined)

end

text \<open>The locale's calls are those of a subtype.\<close>

definition demo_get :: HttpRequest where
  "demo_get = \<lparr>ht_header = (\<lambda>_. []), ht_param = (\<lambda>_. None), ht_body = [], ht_match = (\<lambda>_. []), ht_is_multipart = False,
     ht_file = (\<lambda>_. None)\<rparr>"

lemma demo_call_fine: "request_fine DbImport demo_admin_env demo_get"
  by (simp add: request_fine_def demo_admin_env_def demo_env_def toy_sodium_spec demo_json_def demo_upload_def demo_get_def)

typedef fine_calls = "{(rt, env, req). request_fine rt env req}"
  using demo_call_fine by blast

interpretation calls: fine_call "fst (Rep_fine_calls c)" "fst (snd (Rep_fine_calls c))" "snd (snd (Rep_fine_calls c))"
  using Rep_fine_calls [of c] by unfold_locales (simp add: case_prod_beta)

lemma fine_call_defined:
  assumes "request_fine rt env req"
  shows "defined working (registerRoutes rt env req)"
  using calls.call_defined [of "Abs_fine_calls (rt, env, req)"] assms by (simp add: Abs_fine_calls_inverse)

section \<open>Runs\<close>

text \<open>Requests served one after the other, with the answers.\<close>

primrec serve :: "(route \<times> admin_env \<times> HttpRequest) list \<Rightarrow> AppState \<Rightarrow> HttpResponse result list \<times> AppState" where
  "serve [] app = ([], app)"
| "serve (c # cs) app =
     (case registerRoutes (fst c) (fst (snd c)) (snd (snd c)) app of
        (r, app) \<Rightarrow> (case serve cs app of (rs, app) \<Rightarrow> (r # rs, app)))"

lemma serve_defined:
  assumes "working app" and "\<forall>(rt, env, req)\<in>set cs. request_fine rt env req"
  shows "working (snd (serve cs app)) \<and> (\<forall>r\<in>set (fst (serve cs app)). good r)"
  using assms
proof (induction cs arbitrary: app)
  case (Cons c cs)
  then have "request_fine (fst c) (fst (snd c)) (snd (snd c))" by auto
  from definedD [OF fine_call_defined [OF this] Cons.prems(1)] show ?case
    using Cons.IH [of "snd (registerRoutes (fst c) (fst (snd c)) (snd (snd c)) app)"] Cons.prems(2)
    by (simp add: case_prod_beta)
qed simp

text \<open>Opening a database without an exception gives a working server.\<close>

lemma open_working:
  assumes "openOrCreate env found app = (Inr (), app')" and "bus_inv (app_events app)"
  shows "working app'"
proof -
  obtain a1 a2 a3 where st: "open_store env found app = (Inr (), a1)" and au: "open_audit env a1 = (Inr (), a2)"
    and en: "open_engine env a2 = (Inr (), a3)"
    and ev: "app_event env ''admin'' (''storage opened: '' @ app_dbPath a3) 0 0 0 a3 = (Inr (), app')"
    using assms(1) by (auto simp: openOrCreate_def throw_if_def bindM_apply split: prod.splits sum.splits option.splits)
  have a1: "app_store a1 \<noteq> None" "app_events a1 = app_events app" "app_cfg a1 = app_cfg app"
    using st by (auto simp: open_store_def throw_if_def bindM_apply split: option.splits)
  have a2: "app_store a2 \<noteq> None" "app_audit a2 \<noteq> None" "app_events a2 = app_events app" "app_cfg a2 = app_cfg app"
    using au a1 by (auto simp: open_audit_def split: sum.splits prod.splits option.splits)
  have "working a3"
    using en a2 assms(2) by (auto simp: open_engine_def working_def deriveCardPepper_def split: sum.splits if_splits)
  with definedD [OF defined_event this] ev show ?thesis by (metis snd_conv)
qed

section \<open>Properties\<close>

text \<open>
  C10: no undefined behaviour. Once the server has started, with room for an event in its bus, it can serve
  any requests to any endpoints, in any order and whatever SQLite, the store and the audit log answer:
  no call dereferences a null object, pops an empty queue or reads a buffer out of bounds. The
  conditions are on the calls: the JSON library is defined on all values, the numbers read from a body
  are integers, and an import that gets as far as replacing the database succeeds.
\<close>

theorem server_behaviour_defined:
  assumes "server_start env yl files databases path = Inr app"
    and "\<forall>cfg. loadFromYaml yl path = Inr cfg \<longrightarrow> adm_maxEvents (cf_admin cfg) \<noteq> 0"
    and "\<forall>(rt, env, req)\<in>set cs. request_fine rt env req"
  shows "Inl UndefinedBehaviour \<notin> set (fst (serve cs app))"
proof (rule server_start_opened [OF assms(1)])
  fix cfg km
  assume cfg: "loadFromYaml yl path = Inr cfg"
    and opened: "openOrCreate env (databases (sc_sqlitePath (cf_storage cfg)))
      (AppState_init cfg (sc_sqlitePath (cf_storage cfg)) km) = (Inr (), app)"
  have "bus_inv (app_events (AppState_init cfg (sc_sqlitePath (cf_storage cfg)) km))"
    using assms(2) cfg by (simp add: AppState_init_def bus_inv_init)
  from serve_defined [OF open_working [OF opened this] assms(3)] show ?thesis
    unfolding good_def by blast
qed

definition demo_yaml :: "unit yaml_lib" where
  "demo_yaml = \<lparr>yl_load = (\<lambda>_. Inr ()), yl_get = (\<lambda>_ _. Inr None), yl_bool = (\<lambda>_. Inr True), yl_u16 = (\<lambda>_. Inr 1),
     yl_u32 = (\<lambda>_. Inr 1), yl_u64 = (\<lambda>_. Inr 1), yl_string = (\<lambda>_. Inr [])\<rparr>"

definition demo_files :: "string \<Rightarrow> string option" where
  "demo_files path = Some (toHex (replicate 32 7))"

lemma demo_yaml_defaults:
  "loadFromYaml demo_yaml path = Inr \<lparr>cf_frameHandler = default_FrameHandlerConfig, cf_storage = default_StorageConfig,
     cf_admin = default_AdminConfig, cf_keyManagement = default_KeyManagementYaml, cf_experiment = default_ExperimentConfig\<rparr>"
  by (rule loadFromYaml_empty) (simp_all add: demo_yaml_def)

lemma demo_starts: "\<exists>app. server_start demo_admin_env demo_yaml demo_files (\<lambda>_. fresh_image) ''c.yaml'' = Inr app"
proof -
  let ?cfg = "\<lparr>cf_frameHandler = default_FrameHandlerConfig, cf_storage = default_StorageConfig,
     cf_admin = default_AdminConfig, cf_keyManagement = default_KeyManagementYaml, cf_experiment = default_ExperimentConfig\<rparr>"
  let ?km = "\<lparr>km_masterKey = replicate 32 7, km_cfg = \<lparr>kc_currentKeyVersion = kmy_currentKeyVersion default_KeyManagementYaml,
    kc_allowPreviousKeyVersion = kmy_allowPreviousKeyVersion default_KeyManagementYaml\<rparr>\<rparr>"
  let ?init = "AppState_init ?cfg (sc_sqlitePath default_StorageConfig) ?km"
  have kv: "kmy_currentKeyVersion default_KeyManagementYaml \<noteq> 0" by (simp add: default_KeyManagementYaml_def)
  have env: "en_sodium (av_engine demo_admin_env) = toy_sodium" "av_open demo_admin_env = opens_fine" "av_sodium_init demo_admin_env"
    by (simp_all add: demo_admin_env_def demo_env_def)
  obtain key where key: "deriveAuditHash toy_sodium ?km = Inr key" using auditHash_ok [OF toy_sodium_spec] by blast
  obtain p where p: "deriveCardPepper toy_sodium ?km (kmy_currentKeyVersion default_KeyManagementYaml) = Inr p"
    using cardPepper_ok [OF toy_sodium_spec kv] by blast
  have "bus_inv (app_events ?init)" by (simp add: AppState_init_def bus_inv_init default_AdminConfig_def)
  then obtain app where run: "openOrCreate demo_admin_env fresh_image ?init = (Inr (), app)"
    by (rule opened [where env = demo_admin_env and app = ?init and key = key and pepper = p and found = fresh_image, rotated 3])
      (use key p env in \<open>simp_all add: AppState_init_def\<close>)
  have "loadMasterKeyHexFile demo_files path = Inr (replicate 32 7)" for path
    by (simp add: loadMasterKeyHexFile_def demo_files_def parseHex_def toHex_no_space kMasterKeyHexChars_def
        kMasterKeySize_def km_hex.hexPairs_toHex)
  then have "server_start demo_admin_env demo_yaml demo_files (\<lambda>_. fresh_image) ''c.yaml'' = Inr app"
    using run kv env
    by (simp add: server_start_def sodiumInitOrThrow_def demo_yaml_defaults KeyManager_init_def Let_def bindM_apply)
  then show ?thesis by blast
qed

theorem server_behaviour_defined_witness:
  "\<exists>app. server_start demo_admin_env demo_yaml demo_files (\<lambda>_. fresh_image) ''c.yaml'' = Inr app \<and>
    Inl UndefinedBehaviour \<notin> set (fst (serve [(DbImport, demo_admin_env, demo_get), (HwUid, demo_admin_env, demo_get)] app))"
proof -
  obtain app where start: "server_start demo_admin_env demo_yaml demo_files (\<lambda>_. fresh_image) ''c.yaml'' = Inr app"
    using demo_starts by blast
  have "request_fine HwUid demo_admin_env demo_get"
    using demo_call_fine by (simp add: request_fine_def)
  then have "Inl UndefinedBehaviour \<notin> set (fst (serve [(DbImport, demo_admin_env, demo_get), (HwUid, demo_admin_env, demo_get)] app))"
    by (intro server_behaviour_defined [OF start])
      (simp_all add: demo_call_fine demo_yaml_defaults default_AdminConfig_def)
  with start show ?thesis by blast
qed

text \<open>The condition on numbers is needed: a number such as 1e300 as the identifier of a reader is
  converted to 32 bits without a check, which has no defined behaviour.\<close>

theorem float_identifier_undefined:
  assumes "checkAuth req (admin_token app)" and "jl_parse (en_json (av_engine env)) (ht_body req) = Inr j"
    and "json_field j ''reader_id'' = Some (JFloat i)" and "2 ^ 32 \<le> i"
  shows "fst (registerRoutes PostReader env req app) = Inl UndefinedBehaviour"
  using assms
  by (simp add: route_post_reader_def requireAuth_def try_catch_def bindM_apply json_body_def at_u32_def)

end
