(* ===== verification/Response_Types.thy ===== *)
theory Response_Types
  imports Server_Safety
begin

text \<open>
  The type of the server's answers: every JSON answer is an object with its keys in order and integers
  that fit 64 bits, and every answer has one of six statuses. Shown with the calculus of
  \<open>Engine_Invariants\<close>, now for the values that programs return.
\<close>

section \<open>Types\<close>

definition typed_json :: "json \<Rightarrow> bool" where
  "typed_json j \<longleftrightarrow> json_is_object j \<and> json_canonical j"

definition statuses :: "int set" where
  "statuses = {200, 302, 400, 401, 413, 500}"

definition typed_result :: "ServiceResult \<Rightarrow> bool" where
  "typed_result r \<longleftrightarrow> typed_json (sr_body r) \<and> sr_http_status r \<in> statuses \<and> (sr_ok r \<longleftrightarrow> sr_http_status r = 200)"

definition typed_response :: "HttpResponse \<Rightarrow> bool" where
  "typed_response rs \<longleftrightarrow> rs_status rs \<in> statuses \<and>
     (case rs_content rs of JsonContent j \<Rightarrow> typed_json j | _ \<Rightarrow> True)"

text \<open>SQLite's integers have 64 bits.\<close>

definition int64 :: "int \<Rightarrow> bool" where "int64 i \<longleftrightarrow> - (2 ^ 63) \<le> i \<and> i < 2 ^ 63"

definition rows_int64 :: "AppState \<Rightarrow> bool" where
  "rows_int64 app \<longleftrightarrow> (\<forall>db c. app_store app = Some (db, c) \<longrightarrow>
     (\<forall>r\<in>set (at_log (ac_tables c)). int64 (ar_id r) \<and> int64 (ar_seq r) \<and> int64 (ar_ts_unix_ms r)))"

lemma canonical_word [simp]: "json_canonical (JWord (w :: u32))" "json_canonical (JWord (q :: u64))"
proof -
  have "- (2 ^ 63) \<le> uint w" "- (2 ^ 63) \<le> uint q" by (rule order_trans [OF _ unsigned_greater_eq], simp)+
  then show "json_canonical (JWord w)" "json_canonical (JWord q)"
    using uint_lt2p [of w] uint_lt2p [of q] by (simp_all add: JWord_def)
qed

lemma sint32_bounds: "- (2 ^ 63) \<le> sint (w :: u32)" "sint w < 2 ^ 64"
  using sint_greater_eq [of w] sint_less [of w] by simp_all

lemmas status_defs = statuses_def kHttpOk_def kHttpBadRequest_def kHttpUnauthorized_def kHttpPayloadTooLarge_def kHttpServerError_def

lemma typed_results [simp]:
  "st \<in> statuses \<Longrightarrow> st \<noteq> 200 \<Longrightarrow> typed_result (errorResult m st)" "typed_json j \<Longrightarrow> typed_result (okResult j)"
  "typed_result ok_true"
  by (simp_all add: typed_result_def errorResult_def okResult_def ok_true_def typed_json_def status_defs)

lemma typed_hw_response [simp]: "typed_json (buildHwResponse allow reason r d q kv)"
  by (simp add: typed_json_def buildHwResponse_def)

section \<open>Services\<close>

lemma keeps_result:
  assumes "\<And>s r. fst (m s) = Inr r \<Longrightarrow> Q r" shows "keeps any_value m Q"
  using assms by (simp add: keeps_def)

lemma keeps_return: "Q x \<Longrightarrow> keeps I (returnM x) Q"
  by (simp add: keeps_def)

lemma any_program: "keeps any_value m any_value"
  by (simp add: keeps_def)

text \<open>Whatever is done first, what is returned last counts.\<close>

lemma typed_after: "(\<And>x. keeps any_value (f x) Q) \<Longrightarrow> keeps any_value (bindM m f) Q"
  by (rule keeps_bind [OF any_program])

lemmas typed_rules = typed_after keeps_return typed_results keeps_if keeps_option keeps_sum keeps_prod

lemma typed_lists:
  "keeps any_value (svc_listReaders env) typed_result" "keeps any_value (svc_listDoorRoles env) typed_result"
  "keeps any_value (svc_listCards env limit offset) typed_result"
  unfolding svc_listReaders_def svc_listDoorRoles_def svc_listCards_def
  by (intro typed_rules; auto simp: typed_json_def)+

lemma typed_writes:
  "keeps any_value (svc_upsertReader env r kv) typed_result" "keeps any_value (svc_deleteReader env r) typed_result"
  "keeps any_value (svc_bindDoor env r d) typed_result" "keeps any_value (svc_unbindDoor env r d) typed_result"
  "keeps any_value (svc_allowRole env d role) typed_result" "keeps any_value (svc_revokeRole env d role) typed_result"
  "keeps any_value (svc_deleteCard env h) typed_result"
  unfolding svc_upsertReader_def svc_deleteReader_def svc_bindDoor_def svc_unbindDoor_def
    svc_allowRole_def svc_revokeRole_def svc_deleteCard_def
  by (intro typed_rules)+

lemma typed_unquarantine: "keeps any_value (svc_unquarantineReader env r) typed_result"
proof -
  have "keeps any_value (bindM (app_event env ''admin'' ''unquarantine'' r 0 0) (\<lambda>_.
      returnM (okResult (JObject [(''ok'', JBool True), (''reader_id'', JWord r)])))) typed_result"
    by (intro typed_rules) (simp add: typed_json_def)
  then show ?thesis
    by (auto simp: svc_unquarantineReader_def keeps_def Let_def status_defs split: prod.splits if_splits)
qed

lemma typed_upsertCard: "keeps any_value (svc_upsertCard env c role kv) typed_result"
proof -
  have "keeps any_value (bindM (on_store (upsertCardHmac (av_stmt env) h role)) (\<lambda>_.
      bindM (app_event env ''admin'' (''upsertCard role='' @ role) 0 0 0) (\<lambda>_.
      returnM (okResult (JObject [(''card_hmac'', JString h), (''ok'', JBool True)]))))) typed_result" for h
    by (intro typed_rules) (simp add: typed_json_def)
  then show ?thesis
    by (auto simp: svc_upsertCard_def keeps_def Let_def split: sum.splits)
qed

lemma typed_queries:
  "keeps any_value (svc_getEvents env after n) typed_result" "keeps any_value (svc_verifyAuditChain env) typed_result"
  by (auto intro!: keeps_result simp: svc_getEvents_def svc_verifyAuditChain_def typed_json_def
      split: sum.splits option.splits)

lemma typed_audit: "keeps rows_int64 (svc_listAuditLog env l k) typed_result"
proof -
  have row: "json_canonical (parseAuditRow r)" if "int64 (ar_id r)" "int64 (ar_seq r)" "int64 (ar_ts_unix_ms r)" for r
    using that sint32_bounds by (simp add: parseAuditRow_def int64_def)
  have "r \<in> set (at_log t)" if "r \<in> set (rows_read st (take n (drop m (rev (by_id t)))))" for r st n m t
    using that by (cases st) (auto simp: by_id_def dest!: in_set_takeD in_set_dropD)
  moreover have "r \<in> set (at_log t)" if "r \<in> set (rows_read st (drop m (rev (by_id t))))" for r st m t
    using that by (cases st) (auto simp: by_id_def dest!: in_set_takeD in_set_dropD)
  ultimately show ?thesis
    using row
    by (auto simp: keeps_def svc_listAuditLog_def rows_int64_def Let_def typed_json_def status_defs split: option.splits if_splits)
qed

lemma typed_hw: "keeps any_value (svc_processHwUid env req) typed_result"
proof -
  have built: "keeps any_value (hw_build env req ts) (\<lambda>b. \<forall>r. b = Inl r \<longrightarrow> typed_result r)" for ts
    unfolding hw_build_def
    by (intro typed_after keeps_if) (auto simp: keeps_def typed_json_def bindM_apply split: prod.splits sum.splits)
  show ?thesis
    unfolding svc_processHwUid_def
    by (intro typed_after keeps_bind [OF built] keeps_sum keeps_prod) (auto intro: typed_rules typed_hw_response)
qed

lemma typed_import: "keeps any_value (svc_importDatabase env data) typed_result"
proof -
  have "keeps any_value (bindM (importDbFile env) (\<lambda>error. returnM (case error of
          Some e \<Rightarrow> errorResult (''IMPORT FAILED: '' @ e) kHttpBadRequest
        | None \<Rightarrow> okResult (JObject [(''message'', JString ''IMPORT OK (integrity + verify passed, DB swapped, reopened)'')])))) typed_result"
    by (intro typed_after keeps_return) (simp add: typed_json_def status_defs split: option.splits)
  then show ?thesis by (simp add: svc_importDatabase_def keeps_def status_defs)
qed

section \<open>Endpoints\<close>

lemma typed_reply: "typed_result r \<Longrightarrow> keeps I (reply env r) typed_response"
  by (auto simp: keeps_def reply_def sendResult_def setJson_def bindR_Inr_iff typed_result_def typed_response_def empty_response_def)

lemma typed_service: "keeps I m typed_result \<Longrightarrow> keeps I (bindM m (reply env)) typed_response"
  by (erule keeps_bind) (rule typed_reply)

lemma typed_auth: "keeps I m typed_response \<Longrightarrow> keeps I (requireAuth env req m) typed_response"
  using typed_reply [of "errorResult ''unauthorized'' kHttpUnauthorized" I env]
  by (simp add: keeps_def requireAuth_def status_defs)

lemma typed_catch:
  assumes "keeps any_value m typed_response" and "status \<in> statuses" and "status \<noteq> 200"
  shows "keeps any_value (try_catch env status m) typed_response"
proof (rule keeps_result)
  fix s r assume run: "fst (try_catch env status m s) = Inr r"
  obtain x t where m: "m s = (x, t)" by (cases "m s")
  show "typed_response r"
  proof (cases x)
    case (Inr rs)
    then show ?thesis using run assms(1) m by (simp add: try_catch_def keeps_def) (metis fst_conv)
  next
    case (Inl e)
    have "keeps any_value (reply env (errorResult (exn_what e) status)) typed_response"
      using assms(2,3) by (intro typed_reply) simp
    then show ?thesis using run m Inl by (cases e) (auto simp: try_catch_def keeps_def)
  qed
qed

lemma typed_statuses [simp]: "kHttpBadRequest \<in> statuses" "kHttpServerError \<in> statuses" "kHttpBadRequest \<noteq> 200" "kHttpServerError \<noteq> 200"
  by (simp_all add: status_defs)

lemmas typed_steps = typed_auth typed_catch typed_after typed_service typed_lists typed_writes typed_unquarantine
  typed_upsertCard typed_queries typed_statuses

lemma typed_routes:
  "keeps any_value (route_events env req) typed_response" "keeps any_value (route_readers env req) typed_response"
  "keeps any_value (route_post_reader env req) typed_response" "keeps any_value (route_delete_reader env req) typed_response"
  "keeps any_value (route_bind_door env req) typed_response" "keeps any_value (route_unbind_door env req) typed_response"
  "keeps any_value (route_unquarantine env req) typed_response" "keeps any_value (route_door_roles env req) typed_response"
  "keeps any_value (route_allow_role env req) typed_response" "keeps any_value (route_revoke_role env req) typed_response"
  "keeps any_value (route_cards env req) typed_response" "keeps any_value (route_post_card env req) typed_response"
  "keeps any_value (route_delete_card env req) typed_response" "keeps any_value (route_audit_verify env req) typed_response"
  unfolding route_defs
  by (intro typed_service typed_steps)+

lemma typed_set_json: "setJson jl empty_response j st = Inr rs \<Longrightarrow> typed_json j \<Longrightarrow> st \<in> statuses \<Longrightarrow> typed_response rs"
  by (auto simp: setJson_def bindR_Inr_iff typed_response_def)

lemma typed_hw_uid: "keeps any_value (route_hw_uid env req) typed_response"
proof -
  have "keeps any_value (try_catch env kHttpBadRequest
      (bindM (json_body env req) (\<lambda>j.
       bindM (liftR (parseHwUidRequest (en_json (av_engine env)) j)) (\<lambda>parsed.
         case parsed of
           None \<Rightarrow> reply env (errorResult ''invalid request'' kHttpBadRequest)
         | Some hwReq \<Rightarrow>
             if hw_hw_seq hwReq = 0 then reply env (errorResult ''hw_seq must be > 0'' kHttpBadRequest)
             else bindM (svc_processHwUid env hwReq) (reply env))))) typed_response"
    by (intro typed_catch typed_after keeps_option keeps_if typed_service [OF typed_hw] typed_reply typed_results(1) typed_statuses)
  then show ?thesis
    by (auto simp: keeps_def route_hw_uid_def Let_def typed_json_def status_defs split: option.splits dest!: typed_set_json)
qed

lemma typed_decision: "keeps any_value (route_decision env req) typed_response"
proof (rule keeps_result)
  fix s rs assume run: "fst (route_decision env req s) = Inr rs"
  have "typed_json (JObject [(''allow'', JBool a), (''reason'', JString t)])" for a t
    by (simp add: typed_json_def)
  then show "typed_response rs"
    using run
    by (auto simp: route_decision_def Let_def bindM_apply status_defs split: if_splits sum.splits prod.splits exn.splits
        dest!: typed_set_json)
qed

lemma typed_files:
  "keeps any_value (route_db_export env req) typed_response" "keeps any_value (route_db_import env req) typed_response"
proof -
  have "keeps any_value (returnM (empty_response\<lparr>rs_status := st, rs_content := TextContent t\<rparr>)) typed_response" if "st \<in> statuses"
    for st :: int and t using that by (simp add: keeps_def typed_response_def)
  moreover have "dx_http_status (svc_exportDatabase env) \<in> statuses"
    by (simp add: svc_exportDatabase_def status_defs split: option.splits)
  ultimately show "keeps any_value (route_db_export env req) typed_response"
    unfolding route_db_export_def Let_def
    by (intro typed_auth keeps_if keeps_return) (simp_all add: typed_response_def empty_response_def status_defs)
  show "keeps any_value (route_db_import env req) typed_response"
    unfolding route_db_import_def Let_def
    by (intro typed_auth keeps_option keeps_bind [OF typed_import] keeps_if typed_after keeps_return)
      (auto simp: typed_response_def empty_response_def typed_result_def status_defs)
qed

lemma typed_audit_route: "keeps rows_int64 (route_audit env req) typed_response"
proof -
  have lift: "keeps rows_int64 (bindM (liftR r) f) Q" if "\<And>x. keeps rows_int64 (f x) Q"
    for r :: "int result" and f :: "int \<Rightarrow> (AppState, HttpResponse) prog" and Q
    by (rule keeps_bind [where Q = any_value]) (simp_all add: keeps_def that [unfolded keeps_def])
  show ?thesis
    unfolding route_audit_def by (intro typed_auth lift typed_service typed_audit)
qed

section \<open>Properties\<close>

text \<open>
  C12: the answers are well typed. Whatever the request and whatever SQLite and the other libraries answer, an
  endpoint that returns an answer returns one of the six statuses, and its JSON, when it has any, is an
  object with keys in order and integers of 64 bits, as the library's printer and any client expect.
\<close>

theorem answers_well_typed:
  assumes "registerRoutes rt env req app = (Inr rs, app')" and "rows_int64 app"
  shows "typed_response rs"
proof -
  have "typed_response rs" if "keeps any_value m typed_response" "m app = (Inr rs, app')" for m
    using that by (metis fst_conv keeps_def)
  note by_route = this
  have "keeps rows_int64 (route_audit env req) typed_response" by (rule typed_audit_route)
  then have "rt = Audit \<Longrightarrow> ?thesis"
    using assms by (simp add: keeps_def)
  moreover have "rt = Root \<Longrightarrow> ?thesis"
    using assms(1) by (auto simp: route_root_def typed_response_def empty_response_def statuses_def)
  ultimately show ?thesis
    using assms(1)
    by (cases rt) (auto intro: by_route typed_routes typed_hw_uid typed_decision typed_files)
qed

theorem answers_well_typed_witness:
  "\<exists>rs. registerRoutes Audit demo_admin_env demo_get demo_server = (Inr rs, demo_server) \<and> rs_status rs = 401 \<and>
    typed_response rs"
proof -
  have "\<exists>rs. registerRoutes Audit demo_admin_env demo_get demo_server = (Inr rs, demo_server) \<and> rs_status rs = 401"
    by (simp add: route_audit_def requireAuth_def checkAuth_def demo_get_def demo_server_def AppState_init_def demo_config_def
        default_AdminConfig_def reply_def sendResult_def setJson_def demo_admin_env_def demo_env_def demo_json_def
        errorResult_def status_defs)
  then obtain rs where rs: "registerRoutes Audit demo_admin_env demo_get demo_server = (Inr rs, demo_server)" "rs_status rs = 401"
    by blast
  have "rows_int64 demo_server" by (simp add: rows_int64_def demo_server_def no_audit_tables_def)
  from answers_well_typed [OF rs(1) this] rs show ?thesis by blast
qed

end
