(* ===== verification/Store_Listings.thy ===== *)
theory Store_Listings
  imports Server_Properties "HOL-Library.Product_Lexorder" "HOL-Library.Sublist"
begin

text \<open>
  What the listing queries of the store and the listing services show: on a database made by the
  administrative operations they are a function of the access policy alone, in the order SQLite
  gives. A query whose steps fail shows the beginning of it, with no sign that the rest is missing.
\<close>

section \<open>Statuses by how far the statement gets\<close>

instantiation sql_status :: linorder
begin

fun less_eq_sql_status :: "sql_status \<Rightarrow> sql_status \<Rightarrow> bool" where
  "PrepareFails \<le> _ \<longleftrightarrow> True"
| "StepFailsAfter m \<le> PrepareFails \<longleftrightarrow> False"
| "StepFailsAfter m \<le> StepFailsAfter n \<longleftrightarrow> m \<le> n"
| "StepFailsAfter m \<le> SqlOk \<longleftrightarrow> True"
| "SqlOk \<le> st \<longleftrightarrow> st = SqlOk"

definition less_sql_status :: "sql_status \<Rightarrow> sql_status \<Rightarrow> bool" where
  "st < st' \<longleftrightarrow> st \<le> st' \<and> \<not> st' \<le> (st :: sql_status)"

instance
proof
  fix x y z :: sql_status
  show "x < y \<longleftrightarrow> x \<le> y \<and> \<not> y \<le> x" by (rule less_sql_status_def)
  show "x \<le> x" by (cases x) simp_all
  show "x \<le> y \<Longrightarrow> y \<le> z \<Longrightarrow> x \<le> z" by (cases x; cases y; cases z) simp_all
  show "x \<le> y \<Longrightarrow> y \<le> x \<Longrightarrow> x = y" by (cases x; cases y) simp_all
  show "x \<le> y \<or> y \<le> x" by (cases x; cases y) auto
qed

end

lemma step_ok_mono: "st \<le> st' \<Longrightarrow> step_ok st \<Longrightarrow> step_ok st'"
  by (cases st; cases st') simp_all

lemma rows_read_mono:
  assumes "st \<noteq> PrepareFails" and "st \<le> st'" shows "prefix (rows_read st rows) (rows_read st' rows)"
proof -
  have "prefix (take m rows) (take n rows)" if "m \<le> n" for m n
    using that by (metis min.absorb1 take_is_prefix take_take)
  with assms show ?thesis by (cases st; cases st') (simp_all add: take_is_prefix)
qed

section \<open>Rows by their keys\<close>

declare finite_dom_map_of [simp]

lemma sorted_by_key:
  fixes rows :: "('k::linorder \<times> 'v) list"
  assumes "primary_key rows"
  shows "sort_key fst rows = map (\<lambda>k. (k, the (map_of rows k))) (sorted_list_of_set (dom (map_of rows)))"
proof -
  let ?s = "sort_key fst rows"
  have "distinct (map fst ?s)"
    using assms by (simp add: primary_key_def distinct_map)
  then have keys: "map fst ?s = sorted_list_of_set (dom (map_of rows))"
    using sorted_distinct_set_unique [of "map fst ?s" "sorted_list_of_set (dom (map_of rows))"]
    by (simp add: dom_map_of_conv_image_fst)
  have "map_of rows (fst row) = Some (snd row)" if "row \<in> set ?s" for row
    using that assms by (simp add: primary_key_def)
  then have "row = (fst row, the (map_of rows (fst row)))" if "row \<in> set ?s" for row
    using that by (simp add: prod_eq_iff)
  then have "?s = map (\<lambda>row. (fst row, the (map_of rows (fst row)))) ?s"
    by (intro map_idI [symmetric]) simp
  then show ?thesis by (simp flip: keys add: comp_def)
qed

text \<open>\<^verbatim>\<open>ORDER BY a, b\<close>, written as two stable sorts.\<close>

lemma insort_fst:
  assumes "sorted zs" and "\<forall>z\<in>set zs. fst z = fst x \<longrightarrow> x \<le> z"
  shows "sorted (insort_key fst x (zs :: ('a::linorder \<times> 'b::linorder) list))"
  using assms by (induction zs) (auto simp: set_insort_key less_eq_prod_def)

lemma sort_fst_sorted:
  assumes "sorted (map snd xs)" shows "sorted (sort_key fst (xs :: ('a::linorder \<times> 'b::linorder) list))"
  using assms
proof (induction xs)
  case (Cons x xs)
  then have "\<forall>z\<in>set xs. fst z = fst x \<longrightarrow> x \<le> z"
    by (cases x) (auto simp: less_eq_prod_def)
  with Cons show ?case by (simp add: insort_fst)
qed simp

lemma sorted_by_both:
  assumes "distinct xs"
  shows "sort_key fst (sort_key snd xs) = sorted_list_of_set (set (xs :: ('a::linorder \<times> 'b::linorder) list))"
  using assms
  by (intro sorted_distinct_set_unique) (simp_all add: sort_fst_sorted)

section \<open>Databases the operations make\<close>

text \<open>The tables hold signed 32-bit identifiers, and texts without NUL where they are keys.\<close>

definition db_readable :: "Database \<Rightarrow> bool" where
  "db_readable d \<longleftrightarrow>
     dom (map_of (db_readers d)) \<subseteq> range bind_int \<and>
     dom (map_of (db_reader_doors d)) \<subseteq> range (map_prod bind_int bind_int) \<and>
     dom (map_of (db_door_roles d)) \<subseteq> range bind_int \<times> {role. nul \<notin> set role} \<and>
     dom (map_of (db_cards d)) \<subseteq> {h. nul \<notin> set h}"

lemma bind_pair: "(bind_int a, bind_int b) \<in> range (map_prod bind_int bind_int)"
  by (metis map_prod_simp rangeI)

lemma db_readable_exec_op:
  assumes "db_readable d" shows "db_readable (snd (exec_op st p d))"
proof (cases "step_ok st")
  case True
  note prep = step_ok_prepares [OF True]
  from assms True prep show ?thesis
    by (cases p) (auto simp: db_readable_def op_defs tbl.dom_put tbl.dom_add tbl.dom_del bind_pair
        simp del: dom_eq_empty_conv)
qed (simp add: failed_op_no_effect assms)

lemma db_readable_exec_ops: "db_readable d \<Longrightarrow> db_readable (exec_ops ps d)"
  by (induction ps d rule: exec_ops.induct) (simp_all add: db_readable_exec_op)

lemma db_readable_init: "db_readable (initSchema None)"
  by (simp add: db_readable_def initSchema_def)

section \<open>The policy as a listing\<close>

text \<open>Identifiers in SQLite's order, which is the signed one.\<close>

definition ids_in_order :: "u32 set \<Rightarrow> u32 list" where
  "ids_in_order S = map column_u32 (sorted_list_of_set (bind_int ` S))"

definition reader_entry :: "policy \<Rightarrow> u32 \<Rightarrow> json" where
  "reader_entry p r = JObject
     [(''current_key_version'', JWord (the (po_version p r))),
      (''doors'', JArray (map JWord (ids_in_order {dr. (r, dr) \<in> po_doors p}))),
      (''reader_id'', JWord r)]"

definition readers_shown :: "policy \<Rightarrow> json" where
  "readers_shown p = JObject [(''readers'', JArray (map (reader_entry p) (ids_in_order (dom (po_version p)))))]"

definition door_roles_shown :: "policy \<Rightarrow> json" where
  "door_roles_shown p = JObject [(''door_roles'', JArray (map (\<lambda>(dr, role). JObject
     [(''door_id'', JWord (column_u32 dr)), (''role'', JString role)])
     (sorted_list_of_set (apfst bind_int ` po_allowed p))))]"

definition cards_shown :: "policy \<Rightarrow> nat \<Rightarrow> nat \<Rightarrow> json" where
  "cards_shown p limit offset = JObject [(''cards'', JArray (map (\<lambda>h. JObject
     [(''card_hmac'', JString h), (''role'', JString (the (po_role p h)))])
     (take limit (drop offset (sorted_list_of_set (dom (po_role p)))))))]"

lemma listReaders_policy:
  assumes "db_inv d" and "db_readable d"
  shows "listReaders SqlOk d = Inr (map (\<lambda>r. \<lparr>rr_reader_id = r, rr_current_key_version = the (po_version (policy_of d) r)\<rparr>)
    (ids_in_order (dom (po_version (policy_of d)))))"
proof -
  have "bind_int ` dom (po_version (policy_of d)) = dom (map_of (db_readers d))"
    using assms(2) by (auto simp: db_readable_def policy_of_def dom_def image_iff subset_iff)
  note keys = this
  have bound: "bind_int (column_u32 k) = k" if "k \<in> dom (map_of (db_readers d))" for k
    using that assms(2) by (auto simp: db_readable_def)
  have "the (po_version (policy_of d) (column_u32 k)) = column_u32 (the (map_of (db_readers d) k))"
    if "k \<in> dom (map_of (db_readers d))" for k
    using that bound [OF that] by (auto simp: policy_of_def)
  then show ?thesis
    using assms(1) by (simp add: listReaders_def ids_in_order_def keys sorted_by_key db_inv_def)
qed

lemma unit_keys: "primary_key rows \<Longrightarrow> distinct (map fst rows)" "fst ` set rows = dom (map_of rows)"
  by (simp_all add: primary_key_def dom_map_of_conv_image_fst)

lemma sorted_seconds:
  assumes "sorted (ks :: ('a::linorder \<times> 'b::linorder) list)" and "\<forall>k\<in>set ks. fst k = c"
  shows "sorted (map snd ks)"
  using assms by (induction ks) (auto simp: less_eq_prod_def)

lemma listReaderDoors_policy:
  assumes "db_inv d" and "db_readable d"
  shows "\<exists>rows. listReaderDoors SqlOk d 0 = Inr rows \<and>
    (\<forall>r. doors_of rows r = ids_in_order {dr. (r, dr) \<in> po_doors (policy_of d)})"
proof -
  let ?keys = "sorted_list_of_set (dom (map_of (db_reader_doors d)))"
  let ?row = "\<lambda>(r, dr). \<lparr>rd_reader_id = column_u32 r, rd_door_id = column_u32 dr\<rparr>"
  have "doors_of (map ?row ?keys) r = ids_in_order {dr. (r, dr) \<in> po_doors (policy_of d)}" for r
  proof -
    let ?mine = "filter (\<lambda>k. column_u32 (fst k) = r) ?keys"
    have key: "k \<in> range (map_prod bind_int bind_int)" if "k \<in> dom (map_of (db_reader_doors d))" for k
      using that assms(2) by (auto simp: db_readable_def)
    have same: "fst k = bind_int r" if "k \<in> set ?mine" for k
      using that key [of k] by auto
    have "inj_on snd (set ?mine)" by (rule inj_onI) (metis prod_eq_iff same)
    then have dist: "distinct (map snd ?mine)" by (simp add: distinct_map)
    have "sorted ?mine" by (rule sorted_wrt_filter [OF sorted_sorted_list_of_set])
    then have sorted: "sorted (map snd ?mine)"
      using same by (intro sorted_seconds [where c = "bind_int r"]) blast+
    have elements: "set (map snd ?mine) = bind_int ` {dr. (r, dr) \<in> po_doors (policy_of d)}"
    proof (intro set_eqI iffI)
      fix x assume "x \<in> set (map snd ?mine)"
      then obtain k where k: "k \<in> dom (map_of (db_reader_doors d))" "column_u32 (fst k) = r" "x = snd k" by auto
      then show "x \<in> bind_int ` {dr. (r, dr) \<in> po_doors (policy_of d)}"
        using key [OF k(1)] by (auto simp: policy_of_def)
    next
      fix x assume "x \<in> bind_int ` {dr. (r, dr) \<in> po_doors (policy_of d)}"
      then obtain dr where "x = bind_int dr" "(bind_int r, bind_int dr) \<in> dom (map_of (db_reader_doors d))"
        by (auto simp: policy_of_def)
      then show "x \<in> set (map snd ?mine)" by (force simp: image_iff)
    qed
    have "map snd ?mine = sorted_list_of_set (bind_int ` {dr. (r, dr) \<in> po_doors (policy_of d)})"
      by (rule sorted_distinct_set_unique) (use sorted dist elements in simp_all)
    moreover have "doors_of (map ?row ?keys) r = map column_u32 (map snd ?mine)"
      by (simp add: doors_of_def filter_map comp_def case_prod_unfold)
    ultimately show ?thesis by (simp only: ids_in_order_def)
  qed
  then show ?thesis
    using assms(1) by (simp add: listReaderDoors_def sorted_by_both unit_keys db_inv_def)
qed

lemma listDoorRoles_policy:
  assumes "db_inv d" and "db_readable d"
  shows "listDoorRoles SqlOk d 0 = Inr (map (\<lambda>(dr, role). \<lparr>dr_door_id = column_u32 dr, dr_role = role\<rparr>)
    (sorted_list_of_set (apfst bind_int ` po_allowed (policy_of d))))"
proof -
  have keys: "apfst bind_int ` po_allowed (policy_of d) = dom (map_of (db_door_roles d))"
    using assms(2) by (force simp: db_readable_def policy_of_def dom_def image_iff subset_iff)
  have "k \<in> range bind_int \<times> {role. nul \<notin> set role}" if "k \<in> dom (map_of (db_door_roles d))" for k
    using assms(2) that unfolding db_readable_def by (elim conjE) (rule subsetD)
  then have "c_str (snd k) = snd k" if "k \<in> dom (map_of (db_door_roles d))" for k
    using that by (metis (mono_tags) c_str_id mem_Collect_eq mem_Times_iff)
  then show ?thesis
    using assms(1)
    by (simp add: listDoorRoles_def sorted_by_both unit_keys db_inv_def keys case_prod_beta cong: map_cong)
qed

lemma listCards_policy:
  assumes "db_inv d" and "db_readable d" and "limit < 2 ^ 63" and "offset < 2 ^ 63"
  shows "listCards SqlOk d limit offset = Inr (map (\<lambda>h. \<lparr>cr_card_hmac = h, cr_role = the (po_role (policy_of d) h)\<rparr>)
    (take (unat limit) (drop (unat offset) (sorted_list_of_set (dom (po_role (policy_of d)))))))"
proof -
  have small: "sint v = int (unat v)" if "v < 2 ^ 63" for v :: u64
    using that signed_take_bit_int_eq_self [of 63 "uint v"] uint_ge_0 [of v]
    by (simp add: sint_uint word_less_def)
  have "c_str h = h \<and> c_str (the (map_of (db_cards d) h)) = the (map_of (db_cards d) h)"
    if "h \<in> dom (map_of (db_cards d))" for h
  proof -
    from that obtain role where role: "map_of (db_cards d) h = Some role" by auto
    from that assms(2) have "nul \<notin> set h" by (auto simp: db_readable_def)
    moreover have "nul \<notin> set role" using role assms(1) by (auto simp: db_inv_def intro: ranI)
    ultimately show ?thesis by (simp add: role c_str_id)
  qed
  then have "c_str h = h \<and> c_str (the (map_of (db_cards d) h)) = the (map_of (db_cards d) h)"
    if "h \<in> set (take m (drop n (sorted_list_of_set (dom (map_of (db_cards d))))))" for h m n
    using in_set_dropD [OF in_set_takeD [OF that]] by simp
  then show ?thesis
    using assms(1) small [OF assms(3)] small [OF assms(4)]
    by (simp add: listCards_def sorted_by_key db_inv_def policy_of_def drop_map take_map comp_def cong: map_cong)
qed

section \<open>The services\<close>

lemma read_store_apply:
  "app_store app = Some (db, conn) \<Longrightarrow> read_store f app = (f db, app)"
  by (cases app) (simp add: read_store_def on_store_def)

lemma services_show_policy:
  assumes store: "app_store app = Some (db, conn)" "db_inv db" "db_readable db" and ok: "av_stmt env = SqlOk"
  shows "svc_listReaders env app = (Inr (okResult (readers_shown (policy_of db))), app)"
    and "svc_listDoorRoles env app = (Inr (okResult (door_roles_shown (policy_of db))), app)"
    and "limit < 2 ^ 63 \<Longrightarrow> offset < 2 ^ 63 \<Longrightarrow> svc_listCards env limit offset app =
      (Inr (okResult (cards_shown (policy_of db) (unat limit) (unat offset))), app)"
proof -
  obtain rows where "listReaderDoors SqlOk db 0 = Inr rows"
    "\<forall>r. doors_of rows r = ids_in_order {dr. (r, dr) \<in> po_doors (policy_of db)}"
    using listReaderDoors_policy [OF store(2,3)] by blast
  then show "svc_listReaders env app = (Inr (okResult (readers_shown (policy_of db))), app)"
    by (simp add: svc_listReaders_def bindM_apply read_store_apply [OF store(1)] ok listReaders_policy [OF store(2,3)]
        readers_shown_def reader_entry_def [abs_def] comp_def)
  show "svc_listDoorRoles env app = (Inr (okResult (door_roles_shown (policy_of db))), app)"
    by (simp add: svc_listDoorRoles_def bindM_apply read_store_apply [OF store(1)] ok listDoorRoles_policy [OF store(2,3)]
        door_roles_shown_def case_prod_unfold comp_def)
  show "svc_listCards env limit offset app = (Inr (okResult (cards_shown (policy_of db) (unat limit) (unat offset))), app)"
    if "limit < 2 ^ 63" "offset < 2 ^ 63"
    by (simp add: svc_listCards_def bindM_apply read_store_apply [OF store(1)] ok
        listCards_policy [OF store(2,3) that] cards_shown_def comp_def)
qed

text \<open>Pages of \<open>n\<close> cards, put together.\<close>

lemma pages_append: "concat (map (\<lambda>i. take n (drop (i * n) xs)) [0..<k]) = take (k * n) xs"
  by (induction k) (simp_all flip: take_add add: add.commute)

theorem card_pages_complete:
  assumes "db_inv d" and "db_readable d" and "k * n < 2 ^ 63" and "n < 2 ^ 63" and "card (dom (po_role (policy_of d))) \<le> k * n"
  shows "concat (map (\<lambda>i. case listCards SqlOk d (of_nat n) (of_nat (i * n)) of Inl _ \<Rightarrow> [] | Inr rows \<Rightarrow> rows) [0..<k]) =
    map (\<lambda>h. \<lparr>cr_card_hmac = h, cr_role = the (po_role (policy_of d) h)\<rparr>) (sorted_list_of_set (dom (po_role (policy_of d))))"
proof -
  let ?cards = "sorted_list_of_set (dom (po_role (policy_of d)))"
  let ?row = "\<lambda>h. \<lparr>cr_card_hmac = h, cr_role = the (po_role (policy_of d) h)\<rparr>"
  have page: "listCards SqlOk d (of_nat n) (of_nat (i * n)) = Inr (map ?row (take n (drop (i * n) ?cards)))" if "i < k" for i
  proof -
    have "i * n < 2 ^ 63" using that assms(3) by (meson le_less_trans less_imp_le mult_le_mono1)
    moreover have "unat (of_nat m :: u64) = m" "(of_nat m :: u64) < 2 ^ 63" if "m < 2 ^ 63" for m
      using that by (simp_all add: unat_of_nat word_less_nat_alt)
    ultimately show ?thesis using assms(4) by (simp add: listCards_policy [OF assms(1,2)] del: of_nat_mult)
  qed
  have "concat (map (\<lambda>i. case listCards SqlOk d (of_nat n) (of_nat (i * n)) of Inl _ \<Rightarrow> [] | Inr rows \<Rightarrow> rows) [0..<k]) =
    concat (map (\<lambda>i. map ?row (take n (drop (i * n) ?cards))) [0..<k])"
    by (intro arg_cong [where f = concat] map_cong) (simp_all only: set_upt atLeastLessThan_iff page sum.case)
  also have "\<dots> = map ?row (concat (map (\<lambda>i. take n (drop (i * n) ?cards)) [0..<k]))"
    by (simp add: map_concat comp_def)
  finally show ?thesis using assms(5) by (simp add: pages_append)
qed

section \<open>Properties\<close>

text \<open>
  C30: the listings show the policy. After any administrative operations with texts free of NUL, some
  of which failed, and with the listing's own statements succeeding and its limit and offset below
  2^63, the three listing services return exactly the policy the successful operations made, as a function of it alone: every reader once with its version and
  its doors, every pair of door and role, and the requested page of the cards with their roles, each
  in the order of its key; nothing is changed.
\<close>

theorem listings_show_policy:
  assumes "app_store app = Some (exec_ops ps (initSchema None), conn)" and "\<forall>(st, p) \<in> set ps. op_nul_free p"
    and "av_stmt env = SqlOk" and "limit < 2 ^ 63" and "offset < 2 ^ 63"
  shows "let pol = fold spec_op (map snd (filter (\<lambda>(st, p). step_ok st) ps)) empty_policy
    in svc_listReaders env app = (Inr (okResult (readers_shown pol)), app) \<and>
       svc_listDoorRoles env app = (Inr (okResult (door_roles_shown pol)), app) \<and>
       svc_listCards env limit offset app = (Inr (okResult (cards_shown pol (unat limit) (unat offset))), app)"
  using services_show_policy [OF assms(1) db_inv_exec_ops [OF db_inv_init] db_readable_exec_ops [OF db_readable_init] assms(3)]
    policy_of_exec_ops [OF assms(2)] assms(4,5)
  by (simp add: Let_def policy_of_init)

theorem listings_show_policy_witness:
  "let app = demo_server\<lparr>app_store := Some (exec_ops [(SqlOk, UpsertReader 5 1), (SqlOk, AllowDoor 5 2)] (initSchema None),
      \<lparr>ac_tables = no_audit_tables, ac_saved = None\<rparr>)\<rparr>
   in svc_listReaders demo_admin_env app = (Inr (okResult (JObject [(''readers'', JArray [JObject
     [(''current_key_version'', JWord (1 :: u32)), (''doors'', JArray [JWord (2 :: u32)]), (''reader_id'', JWord (5 :: u32))]])])), app)"
proof -
  have "av_stmt demo_admin_env = SqlOk" by (simp add: demo_admin_env_def)
  from listings_show_policy [OF _ _ this, of "demo_server\<lparr>app_store := Some (exec_ops [(SqlOk, UpsertReader 5 1), (SqlOk, AllowDoor 5 2)]
      (initSchema None), \<lparr>ac_tables = no_audit_tables, ac_saved = None\<rparr>)\<rparr>" "[(SqlOk, UpsertReader 5 1), (SqlOk, AllowDoor 5 2)]" _ 1 0]
  show ?thesis
    by (simp add: Let_def readers_shown_def reader_entry_def ids_in_order_def empty_policy_def)
qed

text \<open>
  A query whose steps fail later shows more: in the order of the statuses, what one shows is the
  beginning of what a later one shows, and \<open>SqlOk\<close> shows all.
\<close>

theorem failed_listing_is_prefix:
  assumes "st \<noteq> PrepareFails" and "st \<le> st'"
  shows "\<exists>rows rows'. listReaders st d = Inr rows \<and> listReaders st' d = Inr rows' \<and> prefix rows rows'"
    and "\<exists>rows rows'. listReaderDoors st d r = Inr rows \<and> listReaderDoors st' d r = Inr rows' \<and> prefix rows rows'"
    and "\<exists>rows rows'. listDoorRoles st d dr = Inr rows \<and> listDoorRoles st' d dr = Inr rows' \<and> prefix rows rows'"
    and "\<exists>rows rows'. listCards st d limit offset = Inr rows \<and> listCards st' d limit offset = Inr rows' \<and> prefix rows rows'"
proof -
  have "st' \<noteq> PrepareFails" using assms by (cases st) auto
  with assms show "\<exists>rows rows'. listReaders st d = Inr rows \<and> listReaders st' d = Inr rows' \<and> prefix rows rows'"
    and "\<exists>rows rows'. listReaderDoors st d r = Inr rows \<and> listReaderDoors st' d r = Inr rows' \<and> prefix rows rows'"
    and "\<exists>rows rows'. listDoorRoles st d dr = Inr rows \<and> listDoorRoles st' d dr = Inr rows' \<and> prefix rows rows'"
    and "\<exists>rows rows'. listCards st d limit offset = Inr rows \<and> listCards st' d limit offset = Inr rows' \<and> prefix rows rows'"
    by (simp_all add: listReaders_def listReaderDoors_def listDoorRoles_def listCards_def Let_def rows_read_mono map_mono_prefix)
qed

text \<open>
  A step of a listing query that fails ends the loop like the last row: the answer has status 200 and
  holds the rows read so far, in the extreme none of the roles that open a door.
\<close>

theorem failed_listing_looks_empty:
  assumes "app_store app = Some (db, conn)" and "av_stmt env = StepFailsAfter 0"
  shows "svc_listDoorRoles env app = (Inr (okResult (JObject [(''door_roles'', JArray [])])), app)"
  by (simp add: svc_listDoorRoles_def bindM_apply read_store_apply [OF assms(1)] assms(2) listDoorRoles_def)

end
