(* ===== verification/Critical_Sections.thy ===== *)
theory Critical_Sections
  imports Access_Prelude
begin

text \<open>
  Threads that run calls in stages on a shared state, each call inside the critical section of one of
  the two mutexes of \<^verbatim>\<open>access_admin/app_state.hpp\<close>. A stage is atomic; between two stages of a call
  any thread may run. The locale \<open>staged_calls\<close> states when the stages make up a call, and proves that
  calls under one mutex are equivalent to calls one after another.
\<close>

section \<open>Threads and mutexes\<close>

datatype app_mutex = M | EngineMutex

text \<open>A thread is named by a number; a call in progress has its mutex, its request and its local
  state. The log holds the calls that returned, in the order in which they released the mutex.\<close>

record ('c, 'l, 's, 'r) Threads =
  th_shared :: 's
  th_holder :: "app_mutex \<Rightarrow> nat option"
  th_calls :: "nat \<Rightarrow> (app_mutex \<times> 'c \<times> 'l) option"
  th_log :: "(app_mutex \<times> 'c \<times> 'r) list"

definition no_threads :: "'s \<Rightarrow> ('c, 'l, 's, 'r) Threads" where
  "no_threads s = \<lparr>th_shared = s, th_holder = (\<lambda>_. None), th_calls = (\<lambda>_. None), th_log = []\<rparr>"

text \<open>\<^verbatim>\<open>std::lock_guard\<close>: the constructor waits for the mutex, the destructor releases it, whether
  the call returns or throws.\<close>

inductive thread_step ::
    "(app_mutex \<Rightarrow> 'c \<Rightarrow> bool) \<Rightarrow> ('c \<Rightarrow> 'l) \<Rightarrow> ('l \<Rightarrow> 's \<Rightarrow> 'l \<times> 's) \<Rightarrow> ('l \<Rightarrow> 'r option) \<Rightarrow>
     ('c, 'l, 's, 'r) Threads \<Rightarrow> ('c, 'l, 's, 'r) Threads \<Rightarrow> bool"
  for may_call start stage answer where
  lock: "may_call mx c \<Longrightarrow> th_holder w mx = None \<Longrightarrow> th_calls w t = None \<Longrightarrow>
    thread_step may_call start stage answer w
      (w\<lparr>th_holder := (th_holder w)(mx \<mapsto> t), th_calls := (th_calls w)(t \<mapsto> (mx, c, start c))\<rparr>)"
| run: "th_calls w t = Some (mx, c, l) \<Longrightarrow> answer l = None \<Longrightarrow> stage l (th_shared w) = (l', s') \<Longrightarrow>
    thread_step may_call start stage answer w
      (w\<lparr>th_shared := s', th_calls := (th_calls w)(t \<mapsto> (mx, c, l'))\<rparr>)"
| unlock: "th_calls w t = Some (mx, c, l) \<Longrightarrow> answer l = Some r \<Longrightarrow>
    thread_step may_call start stage answer w
      (w\<lparr>th_holder := (th_holder w)(mx := None), th_calls := (th_calls w)(t := None),
         th_log := th_log w @ [(mx, c, r)]\<rparr>)"

inductive threads ::
    "(app_mutex \<Rightarrow> 'c \<Rightarrow> bool) \<Rightarrow> ('c \<Rightarrow> 'l) \<Rightarrow> ('l \<Rightarrow> 's \<Rightarrow> 'l \<times> 's) \<Rightarrow> ('l \<Rightarrow> 'r option) \<Rightarrow>
     's \<Rightarrow> ('c, 'l, 's, 'r) Threads \<Rightarrow> bool"
  for may_call start stage answer s0 where
  none: "threads may_call start stage answer s0 (no_threads s0)"
| step: "threads may_call start stage answer s0 w \<Longrightarrow> thread_step may_call start stage answer w w' \<Longrightarrow>
    threads may_call start stage answer s0 w'"

lemma threads_steps:
  assumes "threads may_call start stage answer s0 w" and "(thread_step may_call start stage answer)\<^sup>*\<^sup>* w w'"
  shows "threads may_call start stage answer s0 w'"
  using assms(2) by (induction rule: rtranclp_induct) (use assms(1) in \<open>auto intro: threads.step\<close>)

lemma threads_mono:
  assumes "threads may_call start stage answer s0 w" and "\<And>mx c. may_call mx c \<Longrightarrow> may_call' mx c"
  shows "threads may_call' start stage answer s0 w"
  using assms(1)
proof (induction rule: threads.induct)
  case (step w w')
  from step.hyps(2) have "thread_step may_call' start stage answer w w'"
    by (cases rule: thread_step.cases) (use assms(2) in \<open>auto intro: thread_step.intros\<close>)
  with step.IH show ?case by (rule threads.step)
qed (rule threads.none)

text \<open>A schedule, played by an executable function.\<close>

datatype 'c move = Lock app_mutex nat 'c | Run nat | Unlock nat

fun do_move ::
    "(app_mutex \<Rightarrow> 'c \<Rightarrow> bool) \<Rightarrow> ('c \<Rightarrow> 'l) \<Rightarrow> ('l \<Rightarrow> 's \<Rightarrow> 'l \<times> 's) \<Rightarrow> ('l \<Rightarrow> 'r option) \<Rightarrow>
     'c move \<Rightarrow> ('c, 'l, 's, 'r) Threads \<Rightarrow> ('c, 'l, 's, 'r) Threads option" where
  "do_move may_call start stage answer (Lock mx t c) w =
     (if may_call mx c \<and> th_holder w mx = None \<and> th_calls w t = None
      then Some (w\<lparr>th_holder := (th_holder w)(mx \<mapsto> t), th_calls := (th_calls w)(t \<mapsto> (mx, c, start c))\<rparr>)
      else None)"
| "do_move may_call start stage answer (Run t) w =
     (case th_calls w t of
        None \<Rightarrow> None
      | Some (mx, c, l) \<Rightarrow>
          (case answer l of
             Some _ \<Rightarrow> None
           | None \<Rightarrow> (case stage l (th_shared w) of (l', s') \<Rightarrow>
               Some (w\<lparr>th_shared := s', th_calls := (th_calls w)(t \<mapsto> (mx, c, l'))\<rparr>))))"
| "do_move may_call start stage answer (Unlock t) w =
     (case th_calls w t of
        None \<Rightarrow> None
      | Some (mx, c, l) \<Rightarrow>
          (case answer l of
             None \<Rightarrow> None
           | Some r \<Rightarrow> Some (w\<lparr>th_holder := (th_holder w)(mx := None), th_calls := (th_calls w)(t := None),
               th_log := th_log w @ [(mx, c, r)]\<rparr>)))"

fun play where
  "play may_call start stage answer [] w = Some w"
| "play may_call start stage answer (m # ms) w =
     (case do_move may_call start stage answer m w of
        None \<Rightarrow> None | Some w \<Rightarrow> play may_call start stage answer ms w)"

lemma do_move_step: "do_move may_call start stage answer m w = Some w' \<Longrightarrow> thread_step may_call start stage answer w w'"
  by (cases m) (auto split: if_splits option.splits prod.splits intro: thread_step.intros)

lemma play_threads:
  assumes "threads may_call start stage answer s0 w" and "play may_call start stage answer ms w = Some w'"
  shows "threads may_call start stage answer s0 w'"
  using assms by (induction ms arbitrary: w) (auto split: option.splits dest: do_move_step intro: threads.step)

section \<open>Calls one after another\<close>

fun one_by_one :: "('c \<Rightarrow> 's \<Rightarrow> 'r \<times> 's) \<Rightarrow> 'c list \<Rightarrow> 's \<Rightarrow> 'r list \<times> 's" where
  "one_by_one whole [] s = ([], s)"
| "one_by_one whole (c # cs) s =
     (case whole c s of (r, s) \<Rightarrow> case one_by_one whole cs s of (rs, s) \<Rightarrow> (r # rs, s))"

lemma one_by_one_snoc:
  "one_by_one whole (cs @ [c]) s =
    (case one_by_one whole cs s of (rs, s) \<Rightarrow> case whole c s of (r, s) \<Rightarrow> (rs @ [r], s))"
  by (induction cs arbitrary: s) (auto split: prod.splits)

text \<open>A call that has an answer stays as it is.\<close>

definition advance :: "('l \<Rightarrow> 's \<Rightarrow> 'l \<times> 's) \<Rightarrow> ('l \<Rightarrow> 'r option) \<Rightarrow> 'l \<times> 's \<Rightarrow> 'l \<times> 's" where
  "advance stage answer ls = (if answer (fst ls) = None then stage (fst ls) (snd ls) else ls)"

lemma advance_answered: "answer (fst ls) \<noteq> None \<Longrightarrow> (advance stage answer ^^ n) ls = ls"
  by (induction n) (auto simp: advance_def)

lemma answer_unique:
  assumes "answer (fst ((advance stage answer ^^ m) ls)) \<noteq> None"
    and "answer (fst ((advance stage answer ^^ n) ls)) \<noteq> None"
  shows "(advance stage answer ^^ m) ls = (advance stage answer ^^ n) ls"
proof -
  have "(advance stage answer ^^ (k + j)) ls = (advance stage answer ^^ k) ls"
    if "answer (fst ((advance stage answer ^^ k) ls)) \<noteq> None" for j k
    using advance_answered [where answer = answer, OF that, of j] by (metis add.commute comp_apply funpow_add)
  from this [OF assms(1), of n] this [OF assms(2), of m] show ?thesis by (simp add: add.commute)
qed

text \<open>A thread that runs alone for some stages.\<close>

lemma run_alone:
  assumes "th_calls w t = Some (mx, c, l)" and "(advance stage answer ^^ n) (l, th_shared w) = (l', s')"
  shows "(thread_step may_call start stage answer)\<^sup>*\<^sup>* w (w\<lparr>th_shared := s', th_calls := (th_calls w)(t \<mapsto> (mx, c, l'))\<rparr>)"
  using assms(2)
proof (induction n arbitrary: l' s')
  case 0
  then have "w\<lparr>th_shared := s', th_calls := (th_calls w)(t \<mapsto> (mx, c, l'))\<rparr> = w"
    using assms(1) by (cases w) (auto simp: fun_upd_idem)
  then show ?case by (simp only: rtranclp.rtrancl_refl)
next
  case (Suc n)
  obtain l1 s1 where one: "(advance stage answer ^^ n) (l, th_shared w) = (l1, s1)" by fastforce
  let ?w = "w\<lparr>th_shared := s1, th_calls := (th_calls w)(t \<mapsto> (mx, c, l1))\<rparr>"
  have next_stage: "advance stage answer (l1, s1) = (l', s')" using Suc.prems one by simp
  show ?case
  proof (cases "answer l1")
    case None
    with next_stage have "stage l1 (th_shared ?w) = (l', s')" by (simp add: advance_def)
    then have "thread_step may_call start stage answer ?w (w\<lparr>th_shared := s', th_calls := (th_calls w)(t \<mapsto> (mx, c, l'))\<rparr>)"
      using thread_step.run [of ?w t mx c l1 answer stage l' s' may_call start] None by simp
    with Suc.IH [OF one] show ?thesis by (rule rtranclp.rtrancl_into_rtrancl)
  next
    case (Some r)
    with next_stage have "l1 = l'" "s1 = s'" by (simp_all add: advance_def)
    with Suc.IH [OF one] show ?thesis by (simp only:)
  qed
qed

section \<open>Calls under one mutex\<close>

locale staged_calls =
  fixes start :: "'c \<Rightarrow> 'l"
    and stage :: "'l \<Rightarrow> 's \<Rightarrow> 'l \<times> 's"
    and answer :: "'l \<Rightarrow> 'r option"
    and whole :: "'c \<Rightarrow> 's \<Rightarrow> 'r \<times> 's"
  assumes staged: "\<exists>n l. (advance stage answer ^^ n) (start c, s) = (l, snd (whole c s)) \<and>
    answer l = Some (fst (whole c s))"
begin

text \<open>The calls that returned were run one after another; at most one call is in progress, and it is
  some stages into its run on what they left.\<close>

definition serial :: "'s \<Rightarrow> ('c, 'l, 's, 'r) Threads \<Rightarrow> bool" where
  "serial s0 w \<longleftrightarrow> (\<exists>s. one_by_one whole (map (fst \<circ> snd) (th_log w)) s0 = (map (snd \<circ> snd) (th_log w), s) \<and>
     (th_calls w = (\<lambda>_. None) \<and> th_shared w = s \<or>
      (\<exists>t mx c l n. th_calls w = [t \<mapsto> (mx, c, l)] \<and> th_holder w mx = Some t \<and>
         (advance stage answer ^^ n) (start c, s) = (l, th_shared w))))"

lemma serial_idle:
  "one_by_one whole (map (fst \<circ> snd) (th_log w)) s0 = (map (snd \<circ> snd) (th_log w), th_shared w) \<Longrightarrow>
    th_calls w = (\<lambda>_. None) \<Longrightarrow> serial s0 w"
  unfolding serial_def by blast

lemma serial_busy:
  "one_by_one whole (map (fst \<circ> snd) (th_log w)) s0 = (map (snd \<circ> snd) (th_log w), s) \<Longrightarrow>
    th_calls w = [t \<mapsto> (mx, c, l)] \<Longrightarrow> th_holder w mx = Some t \<Longrightarrow>
    (advance stage answer ^^ n) (start c, s) = (l, th_shared w) \<Longrightarrow> serial s0 w"
  unfolding serial_def by blast

lemma serial_lock:
  assumes "serial s0 w" and "th_holder w mx = None" and one: "\<And>t mx' c l. th_calls w t = Some (mx', c, l) \<Longrightarrow> mx' = mx"
  shows "serial s0 (w\<lparr>th_holder := (th_holder w)(mx \<mapsto> t), th_calls := (th_calls w)(t \<mapsto> (mx, c, start c))\<rparr>)"
proof -
  have "th_calls w \<noteq> [t' \<mapsto> (mx', c', l)] \<or> th_holder w mx' \<noteq> Some t'" for t' mx' c' l
    using one [of t' mx' c' l] assms(2) by auto
  then obtain s where "one_by_one whole (map (fst \<circ> snd) (th_log w)) s0 = (map (snd \<circ> snd) (th_log w), s)"
    and "th_calls w = (\<lambda>_. None)" "th_shared w = s"
    using assms(1) by (auto simp: serial_def)
  then show ?thesis by (intro serial_busy [where n = 0 and s = s and mx = mx and t = t]) simp_all
qed

lemma serial_run:
  assumes "serial s0 w" and "th_calls w t = Some (mx, c, l)" and "answer l = None" and "stage l (th_shared w) = (l', s')"
  shows "serial s0 (w\<lparr>th_shared := s', th_calls := (th_calls w)(t \<mapsto> (mx, c, l'))\<rparr>)"
proof -
  from assms(1,2) obtain s n where s: "one_by_one whole (map (fst \<circ> snd) (th_log w)) s0 = (map (snd \<circ> snd) (th_log w), s)"
    and w: "th_calls w = [t \<mapsto> (mx, c, l)]" "th_holder w mx = Some t" "(advance stage answer ^^ n) (start c, s) = (l, th_shared w)"
    by (auto simp: serial_def split: if_splits)
  have "(advance stage answer ^^ Suc n) (start c, s) = (l', s')"
    using w(3) assms(3,4) by (simp add: advance_def)
  with s w(1,2) show ?thesis by (intro serial_busy [where n = "Suc n" and s = s]) simp_all
qed

lemma serial_unlock:
  assumes "serial s0 w" and "th_calls w t = Some (mx, c, l)" and "answer l = Some r"
  shows "serial s0 (w\<lparr>th_holder := (th_holder w)(mx := None), th_calls := (th_calls w)(t := None),
    th_log := th_log w @ [(mx, c, r)]\<rparr>)"
proof -
  from assms(1,2) obtain s n where s: "one_by_one whole (map (fst \<circ> snd) (th_log w)) s0 = (map (snd \<circ> snd) (th_log w), s)"
    and w: "th_calls w = [t \<mapsto> (mx, c, l)]" "(advance stage answer ^^ n) (start c, s) = (l, th_shared w)"
    by (auto simp: serial_def split: if_splits)
  obtain k l' where k: "(advance stage answer ^^ k) (start c, s) = (l', snd (whole c s))" "answer l' = Some (fst (whole c s))"
    using staged by blast
  have "(l, th_shared w) = (l', snd (whole c s))"
    using answer_unique [of answer n stage "(start c, s)" k] w(2) k assms(3) by simp
  then have "whole c s = (r, th_shared w)"
    using k(2) assms(3) by (simp add: prod_eq_iff)
  with s w(1) show ?thesis by (intro serial_idle) (simp_all add: one_by_one_snoc)
qed

text \<open>Every run in which all calls take the same mutex is serial.\<close>

lemma one_mutex_serial:
  assumes "threads may_call start stage answer s0 w" and one: "\<And>mx c. may_call mx c \<Longrightarrow> mx = k"
  shows "serial s0 w \<and> (\<forall>t mx c l. th_calls w t = Some (mx, c, l) \<longrightarrow> mx = k)"
  using assms(1)
proof (induction rule: threads.induct)
  case none
  show ?case by (auto simp: serial_def no_threads_def)
next
  case (step w w')
  from step.hyps(2) step.IH show ?case
  proof (cases rule: thread_step.cases)
    case (lock mx c t)
    have "mx' = mx" if "th_calls w t' = Some (mx', c', l')" for t' mx' c' l'
      using one [OF lock(2)] step.IH that by auto
    with one [OF lock(2)] step.IH lock show ?thesis by (simp add: serial_lock)
  next
    case (run t mx c l l' s')
    with step.IH show ?thesis by (auto intro!: serial_run)
  next
    case (unlock t mx c l r)
    with step.IH show ?thesis by (auto intro!: serial_unlock)
  qed
qed

text \<open>A call that nobody overlaps is the whole call.\<close>

definition idle :: "('c, 'l, 's, 'r) Threads \<Rightarrow> bool" where
  "idle w \<longleftrightarrow> th_calls w = (\<lambda>_. None) \<and> th_holder w = (\<lambda>_. None)"

lemma alone:
  assumes "threads may_call start stage answer s0 w" and "idle w" and "may_call mx c"
  shows "\<exists>w'. threads may_call start stage answer s0 w' \<and> idle w' \<and>
    th_log w' = th_log w @ [(mx, c, fst (whole c (th_shared w)))] \<and> th_shared w' = snd (whole c (th_shared w))"
proof -
  let ?w = "w\<lparr>th_holder := (th_holder w)(mx \<mapsto> 0), th_calls := (th_calls w)(0 \<mapsto> (mx, c, start c))\<rparr>"
  have "thread_step may_call start stage answer w ?w"
    using assms(2,3) by (intro thread_step.lock) (simp_all add: idle_def)
  with assms(1) have begun: "threads may_call start stage answer s0 ?w" by (rule threads.step)
  obtain n l where n: "(advance stage answer ^^ n) (start c, th_shared w) = (l, snd (whole c (th_shared w)))"
      "answer l = Some (fst (whole c (th_shared w)))"
    using staged by blast
  let ?w' = "?w\<lparr>th_shared := snd (whole c (th_shared w)), th_calls := (th_calls ?w)(0 \<mapsto> (mx, c, l))\<rparr>"
  have "(thread_step may_call start stage answer)\<^sup>*\<^sup>* ?w ?w'"
    by (rule run_alone [where l = "start c" and n = n]) (simp_all add: n(1))
  then have ended: "threads may_call start stage answer s0 ?w'" by (rule threads_steps [OF begun])
  let ?last = "?w'\<lparr>th_holder := (th_holder ?w')(mx := None), th_calls := (th_calls ?w')(0 := None),
    th_log := th_log ?w' @ [(mx, c, fst (whole c (th_shared w)))]\<rparr>"
  have "thread_step may_call start stage answer ?w' ?last"
    by (rule thread_step.unlock [where w = ?w' and t = 0 and answer = answer and l = l]) (simp_all add: n(2))
  with ended have "threads may_call start stage answer s0 ?last" by (rule threads.step)
  with assms(2) show ?thesis by (intro exI [of _ ?last] conjI) (auto simp: idle_def)
qed

end

section \<open>A part of the state behind one mutex\<close>

text \<open>
  The calls under the mutex \<open>k\<close> work on a part of the state, its \<open>view\<close>, which the stages of all
  other calls leave alone. \<open>progress c v l u\<close> says that a call \<open>c\<close> that found the view \<open>v\<close> has come to
  the local state \<open>l\<close> and the view \<open>u\<close>. Then the views that these calls found and left form one chain,
  in the order of the log, whatever the others did between their stages.
\<close>

locale guarded_view =
  fixes may_call :: "app_mutex \<Rightarrow> 'c \<Rightarrow> bool" and start :: "'c \<Rightarrow> 'l" and stage :: "'l \<Rightarrow> 's \<Rightarrow> 'l \<times> 's"
    and answer :: "'l \<Rightarrow> 'r option" and k :: app_mutex and I :: "'s \<Rightarrow> bool" and view :: "'s \<Rightarrow> 'v"
    and other :: "'l \<Rightarrow> bool" and progress :: "'c \<Rightarrow> 'v \<Rightarrow> 'l \<Rightarrow> 'v \<Rightarrow> bool"
  assumes begins: "may_call k c \<Longrightarrow> progress c v (start c) v"
    and proceeds: "I s \<Longrightarrow> progress c v l (view s) \<Longrightarrow> answer l = None \<Longrightarrow> stage l s = (l', s') \<Longrightarrow> progress c v l' (view s')"
    and others_begin: "may_call mx c \<Longrightarrow> mx \<noteq> k \<Longrightarrow> other (start c)"
    and others_proceed: "I s \<Longrightarrow> other l \<Longrightarrow> stage l s = (l', s') \<Longrightarrow> other l' \<and> view s' = view s"
    and invariant: "I s \<Longrightarrow> stage l s = (l', s') \<Longrightarrow> I s'"
begin

definition guarded_log :: "('c, 'l, 's, 'r) Threads \<Rightarrow> ('c \<times> 'r) list" where
  "guarded_log w = map snd (filter (\<lambda>e. fst e = k) (th_log w))"

text \<open>\<open>vs\<close> are the views between the calls of the log.\<close>

definition chain :: "('c \<times> 'r) list \<Rightarrow> 'v list \<Rightarrow> bool" where
  "chain cs vs \<longleftrightarrow> length vs = Suc (length cs) \<and>
     (\<forall>i < length cs. \<exists>l. progress (fst (cs ! i)) (vs ! i) l (vs ! Suc i) \<and> answer l = Some (snd (cs ! i)))"

lemma chain_snoc:
  assumes "chain cs vs" and "progress c (last vs) l u" and "answer l = Some r"
  shows "chain (cs @ [(c, r)]) (vs @ [u])"
proof -
  have "last vs = vs ! length cs"
    using assms(1) last_conv_nth [of vs] by (cases vs) (simp_all add: chain_def)
  then show ?thesis
    using assms by (auto simp: chain_def nth_append less_Suc_eq)
qed

text \<open>Who is in a call holds its mutex; the calls under other mutexes are where they leave the view
  alone; and the call under \<open>k\<close>, if there is one, has brought the view from \<open>v\<close> to where it is.\<close>

definition held :: "('c, 'l, 's, 'r) Threads \<Rightarrow> bool" where
  "held w \<longleftrightarrow> (\<forall>t mx c l. th_calls w t = Some (mx, c, l) \<longrightarrow> th_holder w mx = Some t \<and> (mx \<noteq> k \<longrightarrow> other l))"

definition at_view :: "('c, 'l, 's, 'r) Threads \<Rightarrow> 'v \<Rightarrow> bool" where
  "at_view w v \<longleftrightarrow> (th_holder w k = None \<longrightarrow> view (th_shared w) = v) \<and>
     (\<forall>t. th_holder w k = Some t \<longrightarrow> (\<exists>c l. th_calls w t = Some (k, c, l) \<and> progress c v l (view (th_shared w))))"

definition in_chain :: "'v \<Rightarrow> ('c, 'l, 's, 'r) Threads \<Rightarrow> bool" where
  "in_chain v0 w \<longleftrightarrow> I (th_shared w) \<and> held w \<and>
     (\<exists>vs. chain (guarded_log w) vs \<and> hd vs = v0 \<and> at_view w (last vs))"

lemma heldD: "held w \<Longrightarrow> th_calls w t = Some (mx, c, l) \<Longrightarrow> th_holder w mx = Some t \<and> (mx \<noteq> k \<longrightarrow> other l)"
  by (simp add: held_def)

lemma heldI: "(\<And>t mx c l. th_calls w t = Some (mx, c, l) \<Longrightarrow> th_holder w mx = Some t \<and> (mx \<noteq> k \<longrightarrow> other l)) \<Longrightarrow> held w"
  by (simp add: held_def)

lemma at_viewD:
  "at_view w v \<Longrightarrow> th_holder w k = None \<Longrightarrow> view (th_shared w) = v"
  "at_view w v \<Longrightarrow> th_holder w k = Some t \<Longrightarrow> \<exists>c l. th_calls w t = Some (k, c, l) \<and> progress c v l (view (th_shared w))"
  by (simp_all add: at_view_def)

lemma at_viewI:
  "(th_holder w k = None \<Longrightarrow> view (th_shared w) = v) \<Longrightarrow>
   (\<And>t. th_holder w k = Some t \<Longrightarrow> \<exists>c l. th_calls w t = Some (k, c, l) \<and> progress c v l (view (th_shared w))) \<Longrightarrow> at_view w v"
  by (simp add: at_view_def)

lemma in_chainI: "I (th_shared w) \<Longrightarrow> held w \<Longrightarrow> chain (guarded_log w) vs \<Longrightarrow> hd vs = v0 \<Longrightarrow> at_view w (last vs) \<Longrightarrow> in_chain v0 w"
  unfolding in_chain_def by blast

lemma in_chain_lock:
  assumes "in_chain v0 w" and "may_call mx c" and "th_holder w mx = None" and "th_calls w t = None"
  shows "in_chain v0 (w\<lparr>th_holder := (th_holder w)(mx \<mapsto> t), th_calls := (th_calls w)(t \<mapsto> (mx, c, start c))\<rparr>)"
proof -
  let ?w = "w\<lparr>th_holder := (th_holder w)(mx \<mapsto> t), th_calls := (th_calls w)(t \<mapsto> (mx, c, start c))\<rparr>"
  obtain vs where I: "I (th_shared w)" and "held w" and vs: "chain (guarded_log w) vs" "hd vs = v0" and "at_view w (last vs)"
    using assms(1) unfolding in_chain_def by blast
  note held = heldD [OF \<open>held w\<close>] and free = at_viewD(1) [OF \<open>at_view w (last vs)\<close>] and busy = at_viewD(2) [OF \<open>at_view w (last vs)\<close>]
  have "mx \<noteq> mx'" if "th_calls w t' = Some (mx', c', l')" for t' mx' c' l'
    using held [OF that] assms(3) by auto
  then have "held ?w"
    using held others_begin [OF assms(2)] by (intro heldI) (auto split: if_splits)
  moreover have "at_view ?w (last vs)"
  proof (rule at_viewI)
    show "view (th_shared ?w) = last vs" if "th_holder ?w k = None" using that free by (simp split: if_splits)
    show "\<exists>c l. th_calls ?w t' = Some (k, c, l) \<and> progress c (last vs) l (view (th_shared ?w))" if "th_holder ?w k = Some t'" for t'
    proof (cases "mx = k")
      case True
      with that have "t' = t" by simp
      with True free assms(2,3) show ?thesis by (simp add: begins)
    next
      case False
      with that have "th_holder w k = Some t'" by simp
      from busy [OF this] assms(4) show ?thesis by auto
    qed
  qed
  ultimately show ?thesis
    using I vs by (intro in_chainI [where vs = vs]) (simp_all add: guarded_log_def)
qed

lemma in_chain_run:
  assumes "in_chain v0 w" and call: "th_calls w t = Some (mx, c, l)" and "answer l = None"
    and stage: "stage l (th_shared w) = (l', s')"
  shows "in_chain v0 (w\<lparr>th_shared := s', th_calls := (th_calls w)(t \<mapsto> (mx, c, l'))\<rparr>)"
proof -
  let ?w = "w\<lparr>th_shared := s', th_calls := (th_calls w)(t \<mapsto> (mx, c, l'))\<rparr>"
  obtain vs where I: "I (th_shared w)" and "held w" and vs: "chain (guarded_log w) vs" "hd vs = v0" and "at_view w (last vs)"
    using assms(1) unfolding in_chain_def by blast
  note held = heldD [OF \<open>held w\<close>] and free = at_viewD(1) [OF \<open>at_view w (last vs)\<close>] and busy = at_viewD(2) [OF \<open>at_view w (last vs)\<close>]
  have away: "other l' \<and> view s' = view (th_shared w)" if "mx \<noteq> k"
    using others_proceed [OF I _ stage] held [OF call] that by blast
  have "at_view ?w (last vs)"
  proof (rule at_viewI)
    show "view (th_shared ?w) = last vs" if "th_holder ?w k = None"
      using that free away held [OF call] by (cases "mx = k") simp_all
    show "\<exists>c l. th_calls ?w t' = Some (k, c, l) \<and> progress c (last vs) l (view (th_shared ?w))" if "th_holder ?w k = Some t'" for t'
    proof (cases "t' = t")
      case True
      from that have "th_holder w k = Some t'" by simp
      from busy [OF this] True call have "mx = k" and "progress c (last vs) l (view (th_shared w))" by auto
      with proceeds [OF I this(2) assms(3) stage] True show ?thesis by simp
    next
      case False
      from that have "th_holder w k = Some t'" by simp
      moreover from this False held [OF call] have "mx \<noteq> k" by auto
      ultimately show ?thesis using busy False away by simp
    qed
  qed
  moreover have "held ?w"
    using held call away by (intro heldI) (auto split: if_splits)
  ultimately show ?thesis
    using invariant [OF I stage] vs by (intro in_chainI [where vs = vs]) (simp_all add: guarded_log_def)
qed

lemma in_chain_unlock:
  assumes "in_chain v0 w" and call: "th_calls w t = Some (mx, c, l)" and "answer l = Some r"
  shows "in_chain v0 (w\<lparr>th_holder := (th_holder w)(mx := None), th_calls := (th_calls w)(t := None),
    th_log := th_log w @ [(mx, c, r)]\<rparr>)"
proof -
  let ?w = "w\<lparr>th_holder := (th_holder w)(mx := None), th_calls := (th_calls w)(t := None), th_log := th_log w @ [(mx, c, r)]\<rparr>"
  obtain vs where I: "I (th_shared w)" and "held w" and vs: "chain (guarded_log w) vs" "hd vs = v0" and "at_view w (last vs)"
    using assms(1) unfolding in_chain_def by blast
  note held = heldD [OF \<open>held w\<close>] and free = at_viewD(1) [OF \<open>at_view w (last vs)\<close>] and busy = at_viewD(2) [OF \<open>at_view w (last vs)\<close>]
  have unique: "mx' \<noteq> mx" if "th_calls w t' = Some (mx', c', l')" "t' \<noteq> t" for t' mx' c' l'
    using held [OF call] held [OF that(1)] that(2) by auto
  have rest: "held ?w"
    using held unique by (intro heldI) (auto split: if_splits)
  show ?thesis
  proof (cases "mx = k")
    case True
    with held [OF call] have "th_holder w k = Some t" by simp
    from busy [OF this] call True have "progress c (last vs) l (view (th_shared w))" by auto
    from chain_snoc [OF vs(1) this assms(3)] have "chain (guarded_log ?w) (vs @ [view (th_shared w)])"
      using True by (simp add: guarded_log_def)
    moreover have "hd (vs @ [view (th_shared w)]) = v0" using vs by (auto simp: chain_def hd_append)
    moreover have "at_view ?w (view (th_shared w))" using True by (intro at_viewI) simp_all
    ultimately show ?thesis
      using I rest by (intro in_chainI [where vs = "vs @ [view (th_shared w)]"]) simp_all
  next
    case False
    have "at_view ?w (last vs)"
    proof (rule at_viewI)
      show "view (th_shared ?w) = last vs" if "th_holder ?w k = None" using that False free by simp
      show "\<exists>c l. th_calls ?w t' = Some (k, c, l) \<and> progress c (last vs) l (view (th_shared ?w))" if "th_holder ?w k = Some t'" for t'
        using that False busy [of t'] call by auto
    qed
    with False I vs rest show ?thesis
      by (intro in_chainI [where vs = vs]) (simp_all add: guarded_log_def)
  qed
qed

lemma guarded_chain:
  assumes "threads may_call start stage answer s0 w" and "I s0"
  shows "\<exists>vs. chain (guarded_log w) vs \<and> hd vs = view s0"
proof -
  from assms(1) have "in_chain (view s0) w"
  proof (induction rule: threads.induct)
    case none
    show ?case using assms(2)
      by (intro in_chainI [where vs = "[view s0]"])
        (simp_all add: no_threads_def guarded_log_def chain_def held_def at_view_def)
  next
    case (step w w')
    from step.hyps(2) step.IH show ?case
      by (cases rule: thread_step.cases) (auto intro: in_chain_lock in_chain_run in_chain_unlock)
  qed
  then show ?thesis unfolding in_chain_def by blast
qed

lemma guarded_calls:
  assumes "threads may_call start stage answer s0 w" and "(c, r) \<in> set (guarded_log w)"
  shows "may_call k c"
proof -
  have "(\<forall>e \<in> set (th_log w). may_call (fst e) (fst (snd e))) \<and> (\<forall>t mx c l. th_calls w t = Some (mx, c, l) \<longrightarrow> may_call mx c)"
    using assms(1)
  proof (induction rule: threads.induct)
    case (step w w')
    from step.hyps(2) step.IH show ?case by (cases rule: thread_step.cases) (force split: if_splits)+
  qed (simp add: no_threads_def)
  with assms(2) show ?thesis by (fastforce simp: guarded_log_def)
qed

end

end
