(* ===== verification/Overlapping_Calls.thy ===== *)
theory Overlapping_Calls
  imports Critical_Sections Server_Properties
begin

text \<open>
  Calls that overlap. The decision endpoint of \<^verbatim>\<open>main.cpp\<close> holds \<^verbatim>\<open>engineMutex\<close> while it calls the
  engine; the hardware service in local mode, the administrative services and the two critical sections
  of an import hold \<^verbatim>\<open>m\<close>. All work on the one \<^verbatim>\<open>AppState\<close>. A call of the engine runs in the stages of
  \<^verbatim>\<open>FrameHandler::handle\<close>: everything up to the look into the replay window, decryption with the
  entry into the window, and the rest of the engine. Each stage is atomic here; below that, calls
  under different mutexes race, which C++ leaves undefined.
\<close>

section \<open>The handler in two stages\<close>

text \<open>Up to \<^verbatim>\<open>checkReplay\<close>: a result, or the frame and whether the window pointer is set.\<close>

definition handler_check ::
    "FrameHandler \<Rightarrow> bytes \<Rightarrow> ReplayWindowMap \<Rightarrow> (HandleResult + Frame \<times> bool) result \<times> ReplayWindowMap" where
  "handler_check fh frameBytes ws =
     (case fh_parseFrame fh frameBytes of
        Inl err \<Rightarrow> (Inr (Inl err), ws)
      | Inr frame \<Rightarrow>
        (case validateReader fh frame of
           Inl e \<Rightarrow> (Inl e, ws)
         | Inr (Some err, _) \<Rightarrow> (Inr (Inl err), ws)
         | Inr (None, currentKeyVersion) \<Rightarrow>
           (case validateKeyVersion fh frame currentKeyVersion of
              Some err \<Rightarrow> (Inr (Inl err), ws)
            | None \<Rightarrow>
              (case checkReplay fh frame ws of
                 (Some err, _, ws) \<Rightarrow> (Inr (Inl err), ws)
               | (None, window, ws) \<Rightarrow> (Inr (Inr (frame, window \<noteq> None)), ws)))))"

text \<open>The pointer is into the map, so decryption enters the number into the window as it is then.\<close>

definition handler_finish ::
    "sodium \<Rightarrow> bytes \<Rightarrow> u64 \<Rightarrow> FrameHandler \<Rightarrow> (HandleResult + Frame \<times> bool) result \<Rightarrow> ReplayWindowMap \<Rightarrow>
     HandleResult result \<times> ReplayWindowMap" where
  "handler_finish so rnd now fh checked ws =
     (case checked of
        Inl e \<Rightarrow> (Inl e, ws)
      | Inr (Inl hr) \<Rightarrow> (Inr hr, ws)
      | Inr (Inr (frame, window)) \<Rightarrow>
          (case tryDecrypt so rnd now fh frame (if window then ws (h_reader_id (fr_header frame)) else None) ws of
             (hr, ws) \<Rightarrow> (Inr hr, ws)))"

lemma handler_finish_returns: "\<exists>hr ws'. handler_finish so rnd now fh (Inr x) ws = (Inr hr, ws')"
  by (cases x) (auto simp: handler_finish_def split: prod.splits)

lemma checkReplay_window:
  "checkReplay fh frame ws = (None, window, ws') \<Longrightarrow> (if window \<noteq> None then ws' (h_reader_id (fr_header frame)) else None) = window"
  by (auto simp: checkReplay_def getOrCreateWindow_def Let_def split: if_splits option.splits)

lemma handle_in_stages:
  "handle so rnd now fh bs ws = (case handler_check fh bs ws of (checked, ws) \<Rightarrow> handler_finish so rnd now fh checked ws)"
proof (cases "fh_parseFrame fh bs")
  case (Inr frame)
  obtain err window ws' where cr: "checkReplay fh frame ws = (err, window, ws')"
    by (cases "checkReplay fh frame ws")
  have "err = None \<Longrightarrow> (if window \<noteq> None then ws' (h_reader_id (fr_header frame)) else None) = window"
    using checkReplay_window [of fh frame ws window ws'] cr by simp
  then show ?thesis
    by (auto simp: handle_def handler_check_def handler_finish_def Inr cr split: sum.splits option.splits prod.splits)
qed (simp add: handle_def handler_check_def handler_finish_def)

section \<open>Calls\<close>

text \<open>The critical sections under \<^verbatim>\<open>m\<close> that change something, besides the engine calls of the hardware
  service: those of \<^verbatim>\<open>readers_service.cpp\<close>, \<^verbatim>\<open>door_roles_service.cpp\<close>, \<^verbatim>\<open>cards_service.cpp\<close>, the first of
  \<^verbatim>\<open>hw_service.cpp\<close>, and the two of \<^verbatim>\<open>importDbFile\<close>. (The event it pushes at its end is outside of any
  critical section and left out, as are sections that only read.)\<close>

datatype m_section =
    Upsert_Reader u32 u32 | Delete_Reader u32 | Bind_Door u32 u32 | Unbind_Door u32 u32 | Unquarantine u32
  | Allow_Role u32 string | Revoke_Role u32 string | Upsert_Card string string "u32 option" | Delete_Card string
  | Hw_Build HwUidRequest u64 | Import_Replace | Import_Reopen

definition no_answer :: "(AppState, 'r) prog \<Rightarrow> (AppState, unit) prog" where
  "no_answer m = bindM m (\<lambda>_. returnM ())"

fun run_section :: "admin_env \<Rightarrow> m_section \<Rightarrow> (AppState, unit) prog" where
  "run_section env (Upsert_Reader r kv) = no_answer (svc_upsertReader env r kv)"
| "run_section env (Delete_Reader r) = no_answer (svc_deleteReader env r)"
| "run_section env (Bind_Door r dr) = no_answer (svc_bindDoor env r dr)"
| "run_section env (Unbind_Door r dr) = no_answer (svc_unbindDoor env r dr)"
| "run_section env (Unquarantine r) = no_answer (svc_unquarantineReader env r)"
| "run_section env (Allow_Role dr role) = no_answer (svc_allowRole env dr role)"
| "run_section env (Revoke_Role dr role) = no_answer (svc_revokeRole env dr role)"
| "run_section env (Upsert_Card cid role kv) = no_answer (svc_upsertCard env cid role kv)"
| "run_section env (Delete_Card h) = no_answer (svc_deleteCard env h)"
| "run_section env (Hw_Build hw ts) = no_answer (hw_build env hw ts)"
| "run_section env Import_Replace = no_answer (import_replace env)"
| "run_section env Import_Reopen = import_reopen env"

text \<open>Whether a section destroys the engine or the store it points to: the first section of an import
  resets them, \<^verbatim>\<open>openOrCreate\<close> assigns new ones once the database could be opened.\<close>

definition engine_gone :: "admin_env \<Rightarrow> m_section \<Rightarrow> bool" where
  "engine_gone env sec = (case sec of
     Import_Replace \<Rightarrow> True
   | Import_Reopen \<Rightarrow> os_directories (av_open env) = None \<and> os_open (av_open env) = None
   | _ \<Rightarrow> False)"

datatype engine_call = Frame_Call admin_env bytes | Section admin_env m_section

text \<open>A call that has begun remembers which engine it is in, by the number of engines there were
  before, and the frame handler that the engine made for it.\<close>

datatype call_phase =
    Begun engine_call
  | Checked admin_env bytes nat FrameHandler "(HandleResult + Frame \<times> bool) result"
  | Handled admin_env bytes nat HandleResult
  | Returned "DecisionResult option result"

text \<open>The mutex a call takes, by the decision mode: in remote mode the hardware service posts the
  frame to the decision endpoint.\<close>

definition takes_mutex :: "string \<Rightarrow> app_mutex \<Rightarrow> engine_call \<Rightarrow> bool" where
  "takes_mutex decisionMode mx c = (case c of
     Frame_Call _ _ \<Rightarrow> mx = EngineMutex \<or> mx = M \<and> decisionMode \<noteq> ''remote''
   | Section _ _ \<Rightarrow> mx = M)"

fun call_answer :: "call_phase \<Rightarrow> DecisionResult option result option" where
  "call_answer (Returned r) = Some r"
| "call_answer _ = None"

text \<open>The shared state is the server's, with the number of engines that are gone. Every stage sees store,
  monitor, windows, audit log, bus and clock as they are when it runs. The frame handler is an object of
  its own, so only the first and the last stage use the engine itself.\<close>

fun call_stage :: "call_phase \<Rightarrow> nat \<times> AppState \<Rightarrow> call_phase \<times> nat \<times> AppState" where
  "call_stage (Begun (Section env sec)) (n, app) =
     (case run_section env sec app of
        (r, app) \<Rightarrow> (Returned (map_sum id (\<lambda>_. None) r), if engine_gone env sec then Suc n else n, app))"
| "call_stage (Begun (Frame_Call env bs)) (n, app) =
     (case with_engine env (\<lambda>eng s. case handler_check (engine_handler eng) bs (es_windows s) of
          (checked, ws) \<Rightarrow> (Inr (engine_handler eng, checked), s\<lparr>es_windows := ws\<rparr>)) app of
        (Inl e, app) \<Rightarrow> (Returned (Inl e), n, app)
      | (Inr (fh, checked), app) \<Rightarrow> (Checked env bs n fh checked, n, app))"
| "call_stage (Checked env bs k fh checked) (n, app) =
     (case bindM (app_now env) (\<lambda>now app.
        case handler_finish (en_sodium (av_engine env)) (en_rnd (av_engine env)) now fh checked (app_replayByReader app) of
          (r, ws) \<Rightarrow> (r, app\<lparr>app_replayByReader := ws\<rparr>)) app of
        (Inl e, app) \<Rightarrow> (Returned (Inl e), n, app)
      | (Inr hr, app) \<Rightarrow> (Handled env bs k hr, n, app))"
| "call_stage (Handled env bs k hr) (n, app) =
     (if n \<noteq> k then (Returned (Inl UndefinedBehaviour), n, app)
      else case with_engine env (\<lambda>eng. after_handler (av_engine env) eng (length bs) hr) app of
        (r, app) \<Rightarrow> (Returned (map_sum id Some r), n, app))"
| "call_stage (Returned r) ls = (Returned r, ls)"

fun whole_call :: "engine_call \<Rightarrow> nat \<times> AppState \<Rightarrow> DecisionResult option result \<times> nat \<times> AppState" where
  "whole_call (Section env sec) (n, app) =
     (case run_section env sec app of
        (r, app) \<Rightarrow> (map_sum id (\<lambda>_. None) r, if engine_gone env sec then Suc n else n, app))"
| "whole_call (Frame_Call env bs) (n, app) =
     (case app_run_engine env bs app of (r, app) \<Rightarrow> (map_sum id Some r, n, app))"

text \<open>Threads that make such calls, some of them at the same time.\<close>

abbreviation overlapping where
  "overlapping may_call \<equiv> threads may_call Begun call_stage call_answer"

section \<open>The stages make up the call\<close>

text \<open>The engine on a server whose pointers are set.\<close>

definition engine_on :: "admin_env \<Rightarrow> AppState \<Rightarrow> Database \<Rightarrow> SqliteAuditLog \<Rightarrow> CardIdHasher \<Rightarrow> FrameHandlerConfig \<Rightarrow> AuditConn DecisionEngine" where
  "engine_on env app db lg hasher cfg =
     \<lparr>de_store = Some (SqliteAccessStore (av_query env) db), de_hasher = hasher,
      de_audit = \<lparr>al_append = audit_append (en_sodium (av_engine env)) lg (av_append env)\<rparr>,
      de_keyManager = app_keyManager app, de_frameHandlerCfg = cfg\<rparr>"

definition put_back :: "AppState \<Rightarrow> Database \<Rightarrow> AuditConn \<Rightarrow> AuditConn engine_state \<Rightarrow> AppState" where
  "put_back app db conn s = app\<lparr>app_replayByReader := es_windows s,
     app_anomalyDetector := (case es_detector s of Some d \<Rightarrow> d | None \<Rightarrow> app_anomalyDetector app),
     app_store := Some (db, (case es_audit s of Some c \<Rightarrow> c | None \<Rightarrow> conn)),
     app_events := (case es_events s of Some b \<Rightarrow> b | None \<Rightarrow> app_events app),
     app_ticks := es_ticks s\<rparr>"

lemma with_engine_set:
  assumes "app_engine app = Some (hasher, cfg)" and "app_store app = Some (db, conn)" and "app_audit app = Some lg"
  shows "with_engine env call app = (case call (engine_on env app db lg hasher cfg) (server_engine_state app conn) of
    (r, s) \<Rightarrow> (r, put_back app db conn s))"
  using assms by (simp add: with_engine_def engine_on_def server_engine_state_def put_back_def Let_def)

lemma with_engine_unset:
  "app_engine app = None \<or> app_store app = None \<or> app_audit app = None \<Longrightarrow> with_engine env call app = (Inl UndefinedBehaviour, app)"
  by (auto simp: with_engine_def split: option.splits)

lemma server_pointers:
  obtains (unset) "app_engine app = None \<or> app_store app = None \<or> app_audit app = None"
  | (set) hasher cfg db conn lg where "app_engine app = Some (hasher, cfg)" and "app_store app = Some (db, conn)" and "app_audit app = Some lg"
  by (cases "app_engine app"; cases "app_store app"; cases "app_audit app") auto

lemma run_handler_in_stages:
  "run_handler env eng bs s = (case handler_check (engine_handler eng) bs (es_windows s) of (checked, ws) \<Rightarrow>
     bindM (nowUnixMs env) (\<lambda>now s.
       case handler_finish (en_sodium env) (en_rnd env) now (engine_handler eng) checked (es_windows s) of
         (r, ws) \<Rightarrow> (r, s\<lparr>es_windows := ws\<rparr>)) (s\<lparr>es_windows := ws\<rparr>))"
  by (simp add: run_handler_def bindM_apply nowUnixMs_def handle_in_stages split: prod.splits)

lemma server_engine_state_simps [simp]:
  "es_windows (server_engine_state app conn) = app_replayByReader app" "es_ticks (server_engine_state app conn) = app_ticks app"
  "es_detector (server_engine_state app conn) = Some (app_anomalyDetector app)" "es_audit (server_engine_state app conn) = Some conn"
  by (simp_all add: server_engine_state_def)

lemma put_back_windows:
  assumes "app_store app = Some (db, conn)"
  shows "put_back app db conn ((server_engine_state app conn)\<lparr>es_windows := ws\<rparr>) = app\<lparr>app_replayByReader := ws\<rparr>"
    and "put_back app db conn ((server_engine_state app conn)\<lparr>es_ticks := n, es_windows := ws\<rparr>) = app\<lparr>app_ticks := n, app_replayByReader := ws\<rparr>"
  using assms by (cases app; simp add: put_back_def server_engine_state_def)+

lemma put_back_again:
  "put_back (app\<lparr>app_ticks := n, app_replayByReader := ws\<rparr>) db conn s = put_back app db conn s"
  by (cases app) (simp add: put_back_def split: option.splits)

lemma server_state_again:
  "server_engine_state (app\<lparr>app_ticks := n, app_replayByReader := ws\<rparr>) conn =
    (server_engine_state app conn)\<lparr>es_ticks := n, es_windows := ws\<rparr>"
  by (simp add: server_engine_state_def)

lemma engine_on_again:
  "engine_on env (app\<lparr>app_ticks := n, app_replayByReader := ws\<rparr>) db lg hasher cfg = engine_on env app db lg hasher cfg"
  by (simp add: engine_on_def)

text \<open>The stages of a call on an engine that is there.\<close>

lemma stage_one:
  assumes "app_engine app = Some (hasher, cfg)" and "app_store app = Some (db, conn)" and "app_audit app = Some lg"
    and "handler_check (engine_handler (engine_on env app db lg hasher cfg)) bs (app_replayByReader app) = (checked, ws)"
  shows "call_stage (Begun (Frame_Call env bs)) (n, app) =
    (Checked env bs n (engine_handler (engine_on env app db lg hasher cfg)) checked, n, app\<lparr>app_replayByReader := ws\<rparr>)"
  using assms(4) by (simp add: with_engine_set [OF assms(1-3)] put_back_windows(1) [OF assms(2)])

lemma stage_two:
  assumes "handler_finish (en_sodium (av_engine env)) (en_rnd (av_engine env)) (en_clock (av_engine env) (app_ticks app)) fh checked
    (app_replayByReader app) = (r, ws)"
  shows "call_stage (Checked env bs k fh checked) (n, app) =
    (case r of Inl e \<Rightarrow> Returned (Inl e) | Inr hr \<Rightarrow> Handled env bs k hr, n,
     app\<lparr>app_ticks := Suc (app_ticks app), app_replayByReader := ws\<rparr>)"
  using assms by (simp add: bindM_apply app_now_def split: sum.splits)

lemma stage_three:
  assumes "app_engine app = Some (hasher, cfg)" and "app_store app = Some (db, conn)" and "app_audit app = Some lg"
    and "after_handler (av_engine env) (engine_on env app db lg hasher cfg) (length bs) hr (server_engine_state app conn) = (r, s)"
  shows "call_stage (Handled env bs n hr) (n, app) = (Returned (map_sum id Some r), n, put_back app db conn s)"
  using assms(4) by (simp add: with_engine_set [OF assms(1-3)])

lemma whole_in_stages:
  assumes "app_engine app = Some (hasher, cfg)" and "app_store app = Some (db, conn)" and "app_audit app = Some lg"
    and check: "handler_check (engine_handler (engine_on env app db lg hasher cfg)) bs (app_replayByReader app) = (checked, ws)"
    and finish: "handler_finish (en_sodium (av_engine env)) (en_rnd (av_engine env)) (en_clock (av_engine env) (app_ticks app))
      (engine_handler (engine_on env app db lg hasher cfg)) checked ws = (r, ws')"
  shows "whole_call (Frame_Call env bs) (n, app) =
    (case r of
       Inl e \<Rightarrow> (Inl e, n, app\<lparr>app_ticks := Suc (app_ticks app), app_replayByReader := ws'\<rparr>)
     | Inr hr \<Rightarrow> (case after_handler (av_engine env) (engine_on env app db lg hasher cfg) (length bs) hr
           ((server_engine_state app conn)\<lparr>es_ticks := Suc (app_ticks app), es_windows := ws'\<rparr>) of
         (r, s) \<Rightarrow> (map_sum id Some r, n, put_back app db conn s)))"
  using finish check
  by (simp add: app_run_engine_def with_engine_set [OF assms(1-3)] handleFrameBytes_def bindM_apply [of "run_handler _ _ _"]
      run_handler_in_stages nowUnixMs_def bindM_apply [of "nowUnixMs _"]
      put_back_windows(2) [OF assms(2)] split: sum.splits prod.splits)

interpretation server_calls: staged_calls Begun call_stage call_answer whole_call
proof unfold_locales
  fix c and s :: "nat \<times> AppState"
  let ?a = "advance call_stage call_answer"
  obtain n app where s: "s = (n, app)" by (cases s)
  have steps: "(?a ^^ 3) ls = ?a (?a (?a ls))" for ls by (simp add: numeral_3_eq_3)
  show "\<exists>k l. (?a ^^ k) (Begun c, s) = (l, snd (whole_call c s)) \<and> call_answer l = Some (fst (whole_call c s))"
  proof (rule exI [of _ 3], cases c)
    case (Section env sec)
    then show "\<exists>l. (?a ^^ 3) (Begun c, s) = (l, snd (whole_call c s)) \<and> call_answer l = Some (fst (whole_call c s))"
      unfolding steps by (simp add: s advance_def split: prod.splits)
  next
    case (Frame_Call env bs)
    show "\<exists>l. (?a ^^ 3) (Begun c, s) = (l, snd (whole_call c s)) \<and> call_answer l = Some (fst (whole_call c s))"
    proof (rule server_pointers [of app])
      assume "app_engine app = None \<or> app_store app = None \<or> app_audit app = None"
      then show ?thesis
        unfolding steps by (simp add: s Frame_Call advance_def with_engine_unset app_run_engine_def)
    next
      fix hasher cfg db conn lg
      assume set: "app_engine app = Some (hasher, cfg)" "app_store app = Some (db, conn)" "app_audit app = Some lg"
      let ?eng = "engine_on env app db lg hasher cfg"
      obtain checked ws where check: "handler_check (engine_handler ?eng) bs (app_replayByReader app) = (checked, ws)" by (metis surj_pair)
      obtain r ws' where finish: "handler_finish (en_sodium (av_engine env)) (en_rnd (av_engine env))
          (en_clock (av_engine env) (app_ticks app)) (engine_handler ?eng) checked ws = (r, ws')" by (metis surj_pair)
      let ?app2 = "app\<lparr>app_ticks := Suc (app_ticks app), app_replayByReader := ws'\<rparr>"
      have one: "?a (Begun c, s) = (Checked env bs n (engine_handler ?eng) checked, n, app\<lparr>app_replayByReader := ws\<rparr>)"
        using stage_one [OF set check] by (simp add: advance_def Frame_Call s del: call_stage.simps)
      have two: "?a (Checked env bs n (engine_handler ?eng) checked, n, app\<lparr>app_replayByReader := ws\<rparr>) =
          (case r of Inl e \<Rightarrow> Returned (Inl e) | Inr hr \<Rightarrow> Handled env bs n hr, n, ?app2)"
        using stage_two [where app = "app\<lparr>app_replayByReader := ws\<rparr>"] finish by (simp add: advance_def del: call_stage.simps)
      show ?thesis
      proof (cases r)
        case (Inl e)
        then show ?thesis
          unfolding steps one two by (simp add: advance_def Frame_Call s whole_in_stages [OF set check finish] del: whole_call.simps)
      next
        case (Inr hr)
        obtain d t where late: "after_handler (av_engine env) (engine_on env ?app2 db lg hasher cfg) (length bs) hr
            (server_engine_state ?app2 conn) = (d, t)" by (metis surj_pair)
        have "call_stage (Handled env bs n hr) (n, ?app2) = (Returned (map_sum id Some d), n, put_back ?app2 db conn t)"
          by (rule stage_three [OF _ _ _ late]) (simp_all add: set)
        then have "?a (Handled env bs n hr, n, ?app2) = (Returned (map_sum id Some d), n, put_back app db conn t)"
          by (simp add: advance_def put_back_again del: call_stage.simps)
        with Inr late show ?thesis
          unfolding steps one two
          by (simp add: Frame_Call s whole_in_stages [OF set check finish] server_state_again engine_on_again del: whole_call.simps)
      qed
    qed
  qed
qed

text \<open>Whoever holds a mutex can release it without another thread: there is no deadlock.\<close>

fun stages_left :: "call_phase \<Rightarrow> nat" where
  "stages_left (Begun _) = 3"
| "stages_left (Checked _ _ _ _ _) = 2"
| "stages_left (Handled _ _ _ _) = 1"
| "stages_left (Returned _) = 0"

lemma call_ends: "\<exists>n. call_answer (fst ((advance call_stage call_answer ^^ n) (l, ls))) \<noteq> None"
proof -
  let ?a = "advance call_stage call_answer"
  have down: "stages_left (fst (?a (l, ls))) < stages_left l" if "call_answer l = None" for l ls
    using that
    by (cases "(l, ls)" rule: call_stage.cases) (auto simp: advance_def split: prod.splits sum.splits)
  show ?thesis
  proof (induction "stages_left l" arbitrary: l ls rule: less_induct)
    case less
    show ?case
    proof (cases "call_answer l")
      case None
      obtain l' ls' where next_stage: "?a (l, ls) = (l', ls')" by (metis surj_pair)
      with down [OF None, of ls] less obtain n where "call_answer (fst ((?a ^^ n) (l', ls'))) \<noteq> None" by fastforce
      then have "call_answer (fst ((?a ^^ Suc n) (l, ls))) \<noteq> None" by (simp only: funpow_Suc_right comp_apply next_stage not_False_eq_True)
      then show ?thesis by blast
    qed (auto intro: exI [of _ 0])
  qed
qed

theorem mutex_released:
  assumes "th_calls w t = Some (mx, c, l)"
  shows "\<exists>w'. (thread_step may_call Begun call_stage call_answer)\<^sup>*\<^sup>* w w' \<and>
    th_calls w' = (th_calls w)(t := None) \<and> th_holder w' = (th_holder w)(mx := None)"
proof -
  obtain n where n: "call_answer (fst ((advance call_stage call_answer ^^ n) (l, th_shared w))) \<noteq> None"
    using call_ends by blast
  obtain l' s' where last: "(advance call_stage call_answer ^^ n) (l, th_shared w) = (l', s')" by (metis surj_pair)
  with n obtain r where r: "call_answer l' = Some r" by auto
  let ?w = "w\<lparr>th_shared := s', th_calls := (th_calls w)(t \<mapsto> (mx, c, l'))\<rparr>"
  let ?w' = "?w\<lparr>th_holder := (th_holder ?w)(mx := None), th_calls := (th_calls ?w)(t := None), th_log := th_log ?w @ [(mx, c, r)]\<rparr>"
  have "thread_step may_call Begun call_stage call_answer ?w ?w'"
    by (rule thread_step.unlock [where answer = call_answer and l = l']) (simp_all add: r)
  with run_alone [OF assms last] have "(thread_step may_call Begun call_stage call_answer)\<^sup>*\<^sup>* w ?w'"
    by (rule rtranclp.rtrancl_into_rtrancl)
  then show ?thesis by (intro exI [of _ ?w'] conjI) simp_all
qed

section \<open>Calls under one mutex\<close>



section \<open>Calls under different mutexes\<close>

text \<open>A server at work on the database, keys and settings of \<open>app\<close>, its monitor switched off.\<close>

definition at_work :: "admin_env \<Rightarrow> AppState \<Rightarrow> Database \<Rightarrow> SqliteAuditLog \<Rightarrow> CardIdHasher \<Rightarrow> AppState \<Rightarrow> bool" where
  "at_work env app db lg hasher app' \<longleftrightarrow> (\<exists>conn. in_order env app' db conn lg hasher) \<and> app_cfg app' = app_cfg app \<and>
     app_keyManager app' = app_keyManager app \<and> \<not> dc_enabled (ad_config (app_anomalyDetector app'))"

lemma at_workE:
  assumes "at_work env app db lg hasher app'"
  obtains conn where "in_order env app' db conn lg hasher" and "app_store app' = Some (db, conn)" and "app_audit app' = Some lg"
    and "app_engine app' = Some (hasher, engine_config (app_cfg app))"
    and "engine_on env app' db lg hasher (engine_config (app_cfg app)) = server_engine env app db lg hasher"
    and "\<not> dc_enabled (ad_config (app_anomalyDetector app'))"
  using assms by (auto simp: at_work_def in_order_def engine_on_def server_engine_def)

lemma at_work_windows:
  "at_work env app db lg hasher (app'\<lparr>app_replayByReader := ws\<rparr>) = at_work env app db lg hasher app'"
  "at_work env app db lg hasher (app'\<lparr>app_ticks := t\<rparr>) = at_work env app db lg hasher app'"
  by (simp_all add: at_work_def in_order_def)

text \<open>The stages of a call whose frame is accepted. Another call may run before any of them.\<close>

lemma check_stage:
  assumes "at_work env app db lg hasher a"
    and "accepts so now (engine_handler (server_engine env app db lg hasher)) (app_replayByReader a) bs f pt"
  shows "\<exists>b ws. call_stage (Begun (Frame_Call env bs)) (n, a) =
      (Checked env bs n (engine_handler (server_engine env app db lg hasher)) (Inr (Inr (f, b))), n, a\<lparr>app_replayByReader := ws\<rparr>) \<and>
    accepts so now (engine_handler (server_engine env app db lg hasher)) ws bs f pt"
proof -
  let ?fh = "engine_handler (server_engine env app db lg hasher)"
  obtain kv where kv: "validateReader ?fh f = Inr (None, kv)" "validateKeyVersion ?fh f kv = None"
    using reader_ok_passes assms(2) by (auto simp: accepts_def)
  have parsed: "fh_parseFrame ?fh bs = Inr f" using assms(2) by (simp add: accepts_def fh_parseFrame_def)
  obtain window ws where cr: "checkReplay ?fh f (app_replayByReader a) = (None, window, ws)" "fresh (fh_config ?fh) ws (fr_header f)"
    using assms(2)
    by (cases "fh_antiReplayEnabled (fh_config ?fh)") (auto simp: accepts_def checkReplay_eq fresh_def window_for_upd Let_def)
  have check: "handler_check ?fh bs (app_replayByReader a) = (Inr (Inr (f, window \<noteq> None)), ws)"
    by (simp add: handler_check_def parsed kv cr)
  obtain conn where "app_engine a = Some (hasher, engine_config (app_cfg app))" "app_store a = Some (db, conn)" "app_audit a = Some lg"
    and eng: "engine_on env a db lg hasher (engine_config (app_cfg app)) = server_engine env app db lg hasher"
    using assms(1) by (rule at_workE)
  from stage_one [OF this(1-3), of env, unfolded eng, OF check] assms(2) cr(2) show ?thesis
    by (intro exI [of _ "window \<noteq> None"] exI [of _ ws]) (simp add: accepts_def del: call_stage.simps)
qed

lemma finish_stage:
  assumes "at_work env app db lg hasher a" and "fh_maxSkewMs (cf_frameHandler (app_cfg app)) = 0"
    and "accepts (en_sodium (av_engine env)) now (engine_handler (server_engine env app db lg hasher)) ws bs f pt"
  shows "\<exists>a'. call_stage (Checked env bs k (engine_handler (server_engine env app db lg hasher)) (Inr (Inr (f, b)))) (n, a) =
      (Handled env bs k (accepted pt (fr_header f)), n, a') \<and> at_work env app db lg hasher a'"
proof -
  let ?fh = "engine_handler (server_engine env app db lg hasher)" and ?so = "en_sodium (av_engine env)"
  obtain key where key: "frame_key ?so ?fh (fr_header f) = Inr key"
      "openWithNonce ?so (SecureAead_init [] key (fh_cipher (fh_config ?fh))) (fr_ct f) (fr_tag f)
       (frame_aad (fh_config ?fh) (fr_header f)) (h_nonce (fr_header f)) = Inr pt"
    using assms(3) by (auto simp: accepts_def opens_to_def)
  have "fh_maxSkewMs (fh_config ?fh) = 0"
    using assms(2) by (simp add: engine_handler_def server_engine_def engine_config_def Let_def)
  then have "\<exists>ws'. handler_finish ?so (en_rnd (av_engine env)) t ?fh (Inr (Inr (f, b))) ws =
      (Inr (accepted pt (fr_header f)), ws')" for t ws
    by (simp add: handler_finish_def tryDecrypt_eq key timely_def)
  from this [of "en_clock (av_engine env) (app_ticks a)" "app_replayByReader a"] obtain ws'
    where "handler_finish ?so (en_rnd (av_engine env)) (en_clock (av_engine env) (app_ticks a)) ?fh (Inr (Inr (f, b)))
      (app_replayByReader a) = (Inr (accepted pt (fr_header f)), ws')" by blast
  from stage_two [OF this, of bs k n] assms(1) show ?thesis
    by (simp add: at_work_windows del: call_stage.simps)
qed

lemma rest_stage:
  assumes "at_work env app db lg hasher a"
    and "verdict (av_engine env) (server_engine env app db lg hasher) None (accepted pt h) = Inr v"
  shows "\<exists>a'. call_stage (Handled env bs n (accepted pt h)) (n, a) = (Returned (Inr (Some (fst v))), n, a') \<and>
    at_work env app db lg hasher a'"
proof -
  let ?so = "en_sodium (av_engine env)" and ?eng = "server_engine env app db lg hasher"
  obtain conn where ok: "in_order env a db conn lg hasher" and ptrs: "app_engine a = Some (hasher, engine_config (app_cfg app))"
    "app_store a = Some (db, conn)" "app_audit a = Some lg"
    and eng: "engine_on env a db lg hasher (engine_config (app_cfg app)) = ?eng" and off: "\<not> dc_enabled (ad_config (app_anomalyDetector a))"
    using assms(1) by (elim at_workE) blast
  let ?s = "server_engine_state a conn" and ?d = "app_anomalyDetector a"
  have v: "verdict (av_engine env) ?eng (Some ?d) (accepted pt h) = Inr v"
    using assms(2) off by (simp add: verdict_def monitor_refuses_def)
  have core: "core ?s = (app_replayByReader a, Some ?d, Some conn)" by (simp add: core_def)
  have audit: "audit_ok ?eng (Some conn)"
    using in_order_engine(3) [OF ok] by (simp add: audit_ok_def server_engine_def)
  obtain s where run: "after_handler (av_engine env) ?eng (length bs) (accepted pt h) ?s = (Inr (fst v), s)"
    and bus: "bus_ok s" and s: "es_windows s = app_replayByReader a" "es_detector s = Some ?d"
      "es_audit s = audit_after ?eng h v (Some conn)"
    using after_handler_run [OF in_order_engine(1) [OF ok] core in_order_engine(2) [OF ok] audit, of "length bs" "accepted pt h"] v off
    by (cases "after_handler (av_engine env) ?eng (length bs) (accepted pt h) ?s")
      (auto simp: yields_def core_def monitor_events_def accepted_def)
  have "event_nul_free (make_audit_event h (de_allow (fst v)) (de_reason (fst v)) (fst (snd v)) (snd (snd v)))"
    using verdict_nul_free [of "av_engine env" ?eng None "accepted pt h" "fst v" "fst (snd v)" "snd (snd v)" h] assms(2)
    by (simp add: accepted_def nul_char)
  then have "log_ready ?so lg (snd (audit_append ?so lg healthy (make_audit_event h (de_allow (fst v)) (de_reason (fst v))
      (fst (snd v)) (snd (snd v))) conn))"
    using ok by (intro log_ready_append(2)) (simp_all add: in_order_def)
  then obtain conn' where conn': "es_audit s = Some conn'" "log_ready ?so lg conn'"
    using s(3) ok by (simp add: audit_after_append server_engine_def in_order_def)
  have "at_work env app db lg hasher (put_back a db conn s)"
    using assms(1) ok bus s conn' by (auto simp: at_work_def in_order_def put_back_def bus_ok_def split: option.splits)
  with stage_three [OF ptrs, of env, unfolded eng, OF run] show ?thesis by (simp del: call_stage.simps)
qed

text \<open>
  In local mode one number opens a door twice: two calls with the same frame, one through the decision
  endpoint and one through the hardware service, that both look into the replay window before either
  has entered the number are both allowed, although one after the other only the first would be.
\<close>

theorem overlap_admits_twice:
  assumes ok: "in_order env app db conn lg hasher" and off: "\<not> dc_enabled (ad_config (app_anomalyDetector app))"
    and skew: "fh_maxSkewMs (cf_frameHandler (app_cfg app)) = 0"
    and allowed: "fst (app_run_engine env bs app) = Inr r" "de_allow r"
  shows "\<exists>w. overlapping (takes_mutex ''local'') (0, app) w \<and>
    th_log w = [(M, Frame_Call env bs, Inr (Some r)), (EngineMutex, Frame_Call env bs, Inr (Some r))]"
proof -
  let ?e = "av_engine env" and ?eng = "server_engine env app db lg hasher" and ?c = "Frame_Call env bs"
  let ?so = "en_sodium ?e" and ?now = "en_clock ?e (app_ticks app)" and ?fh = "engine_handler ?eng"
  note engine = in_order_engine(1-3) [OF ok]
  obtain s' where run: "handleFrameBytes ?e ?eng bs (server_engine_state app conn) = (Inr r, s')"
    using allowed(1) run_engine_eq [OF ok, of bs] by (metis prod.collapse)
  have silent: "verdict ?e ?eng (Some (app_anomalyDetector app)) hr = verdict ?e ?eng None hr" for hr
    using off by (simp add: verdict_def monitor_refuses_def)
  obtain hr ws v where h: "handle ?so (en_rnd ?e) ?now ?fh bs (app_replayByReader app) = (Inr hr, ws)"
    and v: "verdict ?e ?eng None hr = Inr v" "fst v = r"
    by (rule engine_cases [OF engine, of bs]) (use run silent in auto)
  have "hr_allow hr" using verdict_allow_iff [of ?e ?eng None hr] v allowed(2) by auto
  then obtain f pt where acc: "accepts ?so ?now ?fh (app_replayByReader app) bs f pt" and hr: "hr = accepted pt (fr_header f)"
    using handle_allowD [of ?so "en_rnd ?e" ?now ?fh bs "app_replayByReader app" hr] h by auto
  have "at_work env app db lg hasher app" using ok off by (auto simp: at_work_def)
  note work = this at_work_windows
  obtain b1 ws1 where one: "call_stage (Begun ?c) (0, app) = (Checked env bs 0 ?fh (Inr (Inr (f, b1))), 0, app\<lparr>app_replayByReader := ws1\<rparr>)"
    and acc1: "accepts ?so ?now ?fh (app_replayByReader (app\<lparr>app_replayByReader := ws1\<rparr>)) bs f pt"
    using check_stage [OF work(1) acc, of 0] by auto
  obtain b2 ws2 where two: "call_stage (Begun ?c) (0, app\<lparr>app_replayByReader := ws1\<rparr>) =
      (Checked env bs 0 ?fh (Inr (Inr (f, b2))), 0, app\<lparr>app_replayByReader := ws2\<rparr>)"
    using check_stage [OF _ acc1, of 0] work by auto
  obtain a3 where three: "call_stage (Checked env bs 0 ?fh (Inr (Inr (f, b1)))) (0, app\<lparr>app_replayByReader := ws2\<rparr>) = (Handled env bs 0 hr, 0, a3)"
    and a3: "at_work env app db lg hasher a3"
    using finish_stage [OF _ skew acc, of "app\<lparr>app_replayByReader := ws2\<rparr>"] work hr by blast
  obtain a4 where four: "call_stage (Checked env bs 0 ?fh (Inr (Inr (f, b2)))) (0, a3) = (Handled env bs 0 hr, 0, a4)"
    and a4: "at_work env app db lg hasher a4"
    using finish_stage [OF a3 skew acc] hr by blast
  obtain a5 where five: "call_stage (Handled env bs 0 hr) (0, a4) = (Returned (Inr (Some r)), 0, a5)"
    and a5: "at_work env app db lg hasher a5"
    using rest_stage [OF a4 v(1) [unfolded hr]] v(2) hr by blast
  obtain a6 where six: "call_stage (Handled env bs 0 hr) (0, a5) = (Returned (Inr (Some r)), 0, a6)"
    using rest_stage [OF a5 v(1) [unfolded hr]] v(2) hr by blast
  note stages = one two three four five six
  let ?moves = "[Lock M 0 ?c, Lock EngineMutex 1 ?c, Run 0, Run 1, Run 0, Run 1, Run 0, Run 1, Unlock 0, Unlock 1]"
  obtain w where "play (takes_mutex ''local'') Begun call_stage call_answer ?moves (no_threads (0, app)) = Some w"
    and "th_log w = [(M, ?c, Inr (Some r)), (EngineMutex, ?c, Inr (Some r))]"
    by (simp add: no_threads_def takes_mutex_def stages del: call_stage.simps)
  with play_threads [OF threads.none this(1)] show ?thesis by blast
qed

text \<open>
  In every mode an import ends the life of the engine under the other mutex: a call of the decision
  endpoint that is on its way then goes on with an engine that is gone, also when the import has
  opened the new database meanwhile.
\<close>

theorem import_frees_engine:
  assumes "app_engine app = Some (hasher, cfg)" and "app_store app = Some (db, conn)" and "app_audit app = Some lg"
    and "fst (app_run_engine env bs app) = Inr r"
  shows "\<exists>w. overlapping (takes_mutex mode) (0, app) w \<and> map (fst \<circ> snd) (th_log w) =
      [Section env' Import_Replace, Section env' Import_Reopen, Frame_Call env bs] \<and>
    snd (snd (last (th_log w))) = Inl UndefinedBehaviour"
proof -
  let ?eng = "engine_on env app db lg hasher cfg" and ?c = "Frame_Call env bs"
  obtain checked ws where ws: "handler_check (engine_handler ?eng) bs (app_replayByReader app) = (checked, ws)" by (metis surj_pair)
  have "checked \<noteq> Inl e" for e
    using assms(4) ws
    by (auto simp: app_run_engine_def with_engine_set [OF assms(1-3)] handleFrameBytes_def bindM_apply run_handler_in_stages
        handler_finish_def nowUnixMs_def split: prod.splits)
  then obtain x where checked: "checked = Inr x" by (cases checked) auto
  let ?a = "app\<lparr>app_replayByReader := ws\<rparr>"
  have one: "call_stage (Begun ?c) (0, app) = (Checked env bs 0 (engine_handler ?eng) (Inr x), 0, ?a)"
    using stage_one [OF assms(1-3) ws] checked by simp
  obtain hr ws' where "handler_finish (en_sodium (av_engine env)) (en_rnd (av_engine env)) (en_clock (av_engine env) (app_ticks ?a))
      (engine_handler ?eng) (Inr x) (app_replayByReader ?a) = (Inr hr, ws')"
    using handler_finish_returns by blast
  from stage_two [OF this, of bs 0 0] obtain a2
    where two: "call_stage (Checked env bs 0 (engine_handler ?eng) (Inr x)) (0, ?a) = (Handled env bs 0 hr, 0, a2)" by simp
  obtain r3 a3 where three: "call_stage (Begun (Section env' Import_Replace)) (0, a2) = (Returned r3, Suc 0, a3)"
    by (cases "run_section env' Import_Replace a2") (simp add: engine_gone_def)
  obtain r4 n4 a4 where four: "call_stage (Begun (Section env' Import_Reopen)) (Suc 0, a3) = (Returned r4, Suc n4, a4)"
    by (cases "run_section env' Import_Reopen a3"; cases "engine_gone env' Import_Reopen"; simp del: run_section.simps)
  have five: "call_stage (Handled env bs 0 hr) (Suc n4, a4) = (Returned (Inl UndefinedBehaviour), Suc n4, a4)" by simp
  note stages = one two three four five
  let ?moves = "[Lock EngineMutex 1 ?c, Run 1, Run 1, Lock M 0 (Section env' Import_Replace), Run 0, Unlock 0,
    Lock M 0 (Section env' Import_Reopen), Run 0, Unlock 0, Run 1, Unlock 1]"
  obtain w where "play (takes_mutex mode) Begun call_stage call_answer ?moves (no_threads (0, app)) = Some w"
    and "th_log w = [(M, Section env' Import_Replace, r3), (M, Section env' Import_Reopen, r4), (EngineMutex, ?c, Inl UndefinedBehaviour)]"
    by (simp add: no_threads_def takes_mutex_def stages del: call_stage.simps)
  with play_threads [OF threads.none this(1)] show ?thesis by (intro exI [of _ w]) simp
qed

end
