(* ===== verification/Remote_Decisions.thy ===== *)
theory Remote_Decisions
  imports Overlapping_Calls
begin

text \<open>
  The replay windows in remote mode. Only the decision endpoint calls the engine then, under
  \<^verbatim>\<open>engineMutex\<close>, while administration, unquarantine and imports change store, monitor and engine under
  \<^verbatim>\<open>m\<close>, between the stages of its calls. The windows are the part of the state that stays behind
  \<^verbatim>\<open>engineMutex\<close>: on it the calls of the endpoint are handler calls one after another.
\<close>

section \<open>What keeps the windows\<close>

text \<open>Configuration and keys never change, and every engine is made from them.\<close>

definition configured :: "Config \<Rightarrow> KeyManager \<Rightarrow> AppState \<Rightarrow> bool" where
  "configured cfg km app \<longleftrightarrow> app_cfg app = cfg \<and> app_keyManager app = km \<and>
     (\<forall>hasher fcfg. app_engine app = Some (hasher, fcfg) \<longrightarrow> fcfg = engine_config cfg)"

definition with_windows :: "Config \<Rightarrow> KeyManager \<Rightarrow> ReplayWindowMap \<Rightarrow> AppState \<Rightarrow> bool" where
  "with_windows cfg km ws app \<longleftrightarrow> configured cfg km app \<and> app_replayByReader app = ws"

lemma windows_on_store: "keeps (with_windows cfg km ws) (on_store m) any_value"
  by (rule keepsI) (auto simp: on_store_def with_windows_def configured_def split: option.splits prod.splits)

lemma windows_event: "keeps (with_windows cfg km ws) (app_event env k msg r d q) any_value"
  unfolding app_event_def
  by (intro keeps_rules)
    (auto intro!: keepsI simp: app_now_def app_push_def with_windows_def configured_def split: prod.splits sum.splits)

lemma windows_open: "keeps (with_windows cfg km ws) (openOrCreate env found) any_value"
proof -
  have "keeps (with_windows cfg km ws) (open_store env found) any_value"
    unfolding open_store_def by (intro keeps_rules keepsI) (simp add: with_windows_def configured_def)
  moreover have "keeps (with_windows cfg km ws) (open_audit env) any_value" "keeps (with_windows cfg km ws) (open_engine env) any_value"
    by (auto intro!: keepsI simp: open_audit_def open_engine_def with_windows_def configured_def split: sum.splits prod.splits)
  moreover have "keeps (with_windows cfg km ws) (\<lambda>app. app_event env ''admin'' (f app) 0 0 0 app) any_value" for f
    using windows_event by (simp add: keeps_def)
  ultimately show ?thesis unfolding openOrCreate_def by (intro keeps_rules)
qed

lemma windows_section: "keeps (with_windows cfg km ws) (run_section env sec) any_value"
proof -
  let ?I = "with_windows cfg km ws"
  have final: "keeps ?I m any_value \<Longrightarrow> keeps ?I (no_answer m) any_value" for m :: "(AppState, 'r) prog"
    unfolding no_answer_def by (intro keeps_rules)
  note rules = keeps_rules windows_on_store windows_event
  have "keeps ?I (svc_unquarantineReader env r) any_value" for r
  proof (rule keepsI)
    fix app assume "?I app"
    then have "?I (app\<lparr>app_anomalyDetector := det\<rparr>)" for det by (simp add: with_windows_def configured_def)
    moreover have "keeps ?I (bindM (app_event env ''admin'' ''unquarantine'' r 0 0) (\<lambda>_.
        returnM (okResult (JObject [(''ok'', JBool True), (''reader_id'', JWord r)])))) any_value" by (intro rules)
    ultimately show "?I (snd (svc_unquarantineReader env r app))"
      using \<open>?I app\<close> by (auto simp: svc_unquarantineReader_def Let_def keepsD split: prod.splits)
  qed
  moreover have "keeps ?I (svc_upsertCard env cid role kv) any_value" for cid role kv
    unfolding svc_upsertCard_def Let_def by (intro rules keeps_either)
  moreover have "keeps ?I (hw_build env req ts) any_value" for req ts
    unfolding hw_build_def pushHwEvent_def by (intro rules keeps_either)
  moreover have "keeps ?I (import_replace env) any_value"
    by (rule keepsI) (auto simp: import_replace_def replaceDbFile_def with_windows_def configured_def split: option.splits)
  moreover have "keeps ?I (import_reopen env) any_value"
    using windows_open by (simp add: keeps_def import_reopen_def)
  moreover have "keeps ?I (svc_upsertReader env r kv) any_value" "keeps ?I (svc_deleteReader env r) any_value"
    "keeps ?I (svc_bindDoor env r d) any_value" "keeps ?I (svc_unbindDoor env r d) any_value"
    "keeps ?I (svc_allowRole env d role) any_value" "keeps ?I (svc_revokeRole env d role) any_value"
    "keeps ?I (svc_deleteCard env h) any_value" for r kv d role h
    unfolding svc_upsertReader_def svc_deleteReader_def svc_bindDoor_def svc_unbindDoor_def
      svc_allowRole_def svc_revokeRole_def svc_deleteCard_def
    by (intro rules)+
  ultimately show ?thesis
    by (cases sec) (simp_all only: run_section.simps final)
qed

text \<open>The frame methods keep the configuration too, and the last stage keeps the windows and allows only
  what the handler allowed.\<close>

lemma configured_with_engine: "configured cfg km app \<Longrightarrow> configured cfg km (snd (with_engine env m app))"
  by (auto simp: with_engine_def configured_def Let_def split: option.splits prod.splits)

abbreviation same_windows :: "ReplayWindowMap \<Rightarrow> 'a engine_state \<Rightarrow> bool" where
  "same_windows ws s \<equiv> es_windows s = ws"

lemma windows_publish:
  "keeps (same_windows ws) (publishFrameEvent env n) any_value" "keeps (same_windows ws) (publishDecisionEvent env hr) any_value"
  "keeps (same_windows ws) (publishAnomalyEvent env r ty d) any_value" "keeps (same_windows ws) (logAuditEvent env eng h a x c act) any_value"
  "keeps (same_windows ws) (on_detector f d') any_value" "keeps (same_windows ws) (nowUnixMs env) any_value"
  by (auto intro!: keepsI simp: publishFrameEvent_def publishDecisionEvent_def publishAnomalyEvent_def logAuditEvent_def on_detector_def
      when_events_def bindM_apply nowUnixMs_def push_event_def split: option.splits prod.splits sum.splits)

lemma after_handler_windows:
  "keeps (same_windows ws) (after_handler env eng n hr) (\<lambda>r. de_allow r \<longrightarrow> hr_allow hr)"
proof -
  let ?I = "same_windows ws" and ?Q = "\<lambda>r. de_allow r \<longrightarrow> hr_allow hr"
  have deny: "keeps ?I (returnM (createDeniedResult reason)) ?Q" for reason
    by (simp add: keeps_def createDeniedResult_def)
  have ret: "keeps ?I (returnM res) ?Q" if "hr_allow hr" for res using that by (simp add: keeps_def)
  note rules = keeps_then keeps_if keeps_option keeps_sum keeps_prod windows_publish deny
  have track: "keeps ?I (track_rejection env hr) any_value"
    unfolding track_rejection_def Let_def by (intro keeps_rules windows_publish)
  have policy: "keeps ?I (after_acceptance env eng hr) ?Q" if "hr_allow hr"
    unfolding after_acceptance_def checkAccessPolicy_def Let_def
    by (intro rules keeps_pure(3) ret that)
  have denied: "keeps ?I (deny_quarantined env eng hr) ?Q"
    unfolding deny_quarantined_def by (intro rules)
  have monitor: "keeps ?I (after_monitor env eng b hr) ?Q" for b
    unfolding after_monitor_def Let_def by (intro rules track keeps_pure(1) policy) auto
  have nonce: "keeps ?I (check_nonce env eng b hr) ?Q" for b
    unfolding check_nonce_def Let_def by (intro rules keeps_pure(3) denied monitor)
  have rollback: "keeps ?I (check_rollback env eng b hr) ?Q" for b
    unfolding check_rollback_def Let_def by (intro rules denied nonce)
  have "keeps ?I (bindM (publishFrameEvent env n) (\<lambda>_ s.
      if b \<and> detector_quarantined s q then deny_quarantined env eng hr s else check_rollback env eng b hr s)) ?Q" for b q
    by (rule keeps_then [OF windows_publish(1)]) (use denied rollback in \<open>simp add: keeps_def\<close>)
  then show ?thesis by (simp add: keeps_def after_handler_def Let_def)
qed

section \<open>The calls of the decision endpoint\<close>

text \<open>What remote mode leaves to call under which mutex, with one libsodium.\<close>

definition remote_call :: "sodium \<Rightarrow> app_mutex \<Rightarrow> engine_call \<Rightarrow> bool" where
  "remote_call so mx c \<longleftrightarrow> takes_mutex ''remote'' mx c \<and>
     (case c of Frame_Call env _ \<Rightarrow> en_sodium (av_engine env) = so | Section _ _ \<Rightarrow> True)"

definition base_handler :: "Config \<Rightarrow> KeyManager \<Rightarrow> FrameHandler" where
  "base_handler cfg km = \<lparr>fh_keyManager = km, fh_store = None, fh_config = engine_config cfg\<rparr>"

definition elsewhere :: "call_phase \<Rightarrow> bool" where
  "elsewhere l \<longleftrightarrow> (case l of Begun (Section _ _) \<Rightarrow> True | Returned _ \<Rightarrow> True | _ \<Rightarrow> False)"

text \<open>The handler call that a call of the endpoint amounts to: it found the windows \<open>ws\<close>, left \<open>ws'\<close>,
  and was on the frame \<open>bs\<close> and allowed it if the call answers that the door opens.\<close>

definition amounts_to :: "sodium \<Rightarrow> FrameHandler \<Rightarrow> bytes \<Rightarrow> ReplayWindowMap \<Rightarrow> DecisionResult option result \<Rightarrow> ReplayWindowMap \<Rightarrow> handler_call \<Rightarrow> bool" where
  "amounts_to so fh bs ws res ws' hc \<longleftrightarrow> snd (handle_call so fh hc ws) = ws' \<and>
     (\<forall>r. res = Inr (Some r) \<and> de_allow r \<longrightarrow>
       snd (snd (snd hc)) = bs \<and> (\<exists>hr. fst (handle_call so fh hc ws) = Inr hr \<and> hr_allow hr))"

text \<open>How far a call has come, and what it has made of the windows it found.\<close>

inductive come_to :: "sodium \<Rightarrow> FrameHandler \<Rightarrow> engine_call \<Rightarrow> ReplayWindowMap \<Rightarrow> call_phase \<Rightarrow> ReplayWindowMap \<Rightarrow> bool"
  for so fh where
  begun: "en_sodium (av_engine env) = so \<Longrightarrow> come_to so fh (Frame_Call env bs) ws (Begun (Frame_Call env bs)) ws"
| checked: "en_sodium (av_engine env) = so \<Longrightarrow> handler_check (fh\<lparr>fh_store := store\<rparr>) bs ws = (checked, ws') \<Longrightarrow>
    come_to so fh (Frame_Call env bs) ws (Checked env bs n (fh\<lparr>fh_store := store\<rparr>) checked) ws'"
| handled: "en_sodium (av_engine env) = so \<Longrightarrow> handle_call so fh (store, rnd, now, bs) ws = (Inr hr, ws') \<Longrightarrow>
    come_to so fh (Frame_Call env bs) ws (Handled env bs n hr) ws'"
| ended: "amounts_to so fh bs ws res ws' hc \<Longrightarrow> come_to so fh (Frame_Call env bs) ws (Returned res) ws'"

inductive_cases come_to_ended: "come_to so fh (Frame_Call env bs) ws (Returned res) ws'"

lemma no_frame: "snd (handle_call so fh (None, [], 0, []) ws) = ws"
proof -
  have "\<not> (\<exists>f. parseFrame [] (fh_maxCtLen (fh_config fh)) = Inr f)" by (simp add: parseFrame_eq_spec parse_spec_def)
  then show ?thesis
    by (auto simp: handle_call_def handle_def fh_parseFrame_def split: sum.splits exn.splits)
qed

lemma come_to_failed: "amounts_to so fh bs ws (Inl e) ws (None, [], 0, [])"
  by (simp add: amounts_to_def no_frame)

lemma handle_call_in_stages:
  assumes "handler_check (fh\<lparr>fh_store := store\<rparr>) bs ws = (checked, ws1)"
    and "handler_finish so rnd now (fh\<lparr>fh_store := store\<rparr>) checked ws1 = (r, ws2)"
  shows "handle_call so fh (store, rnd, now, bs) ws = (r, ws2)"
  using assms by (simp add: handle_call_def handle_in_stages)

lemma engine_on_handler:
  assumes "configured cfg km app" and "app_engine app = Some (hasher, fcfg)"
  shows "engine_handler (engine_on env app db lg hasher fcfg) =
    (base_handler cfg km)\<lparr>fh_store := Some (SqliteAccessStore (av_query env) db)\<rparr>"
  using assms by (simp add: configured_def engine_handler_def engine_on_def base_handler_def)

lemma frame_goes_on:
  assumes "configured cfg km app" and "come_to so (base_handler cfg km) c ws l (app_replayByReader app)" and "call_answer l = None"
    and "call_stage l (n, app) = (l', m, app')"
  shows "come_to so (base_handler cfg km) c ws l' (app_replayByReader app')"
proof -
  let ?fh = "base_handler cfg km" and ?ws = "app_replayByReader app"
  from assms(2) show ?thesis
  proof cases
    case (begun env bs)
    show ?thesis
    proof (rule server_pointers [of app])
      assume "app_engine app = None \<or> app_store app = None \<or> app_audit app = None"
      then have "l' = Returned (Inl UndefinedBehaviour)" "app' = app"
        using assms(4) begun by (simp_all add: with_engine_unset)
      with come_to.ended [OF come_to_failed] begun show ?thesis by simp
    next
      fix hasher fcfg db conn lg
      assume set: "app_engine app = Some (hasher, fcfg)" "app_store app = Some (db, conn)" "app_audit app = Some lg"
      obtain checked ws1 where check: "handler_check (engine_handler (engine_on env app db lg hasher fcfg)) bs ?ws = (checked, ws1)"
        by (metis surj_pair)
      from stage_one [OF set check, of n] assms(4) begun(2)
      have "l' = Checked env bs n (engine_handler (engine_on env app db lg hasher fcfg)) checked" "app_replayByReader app' = ws1" by auto
      with check begun show ?thesis
        unfolding engine_on_handler [OF assms(1) set(1)] by (simp add: come_to.checked)
    qed
  next
    case (checked env store bs ch k)
    let ?now = "en_clock (av_engine env) (app_ticks app)" and ?rnd = "en_rnd (av_engine env)"
    obtain r ws2 where finish: "handler_finish so ?rnd ?now (?fh\<lparr>fh_store := store\<rparr>) ch ?ws = (r, ws2)" by (metis surj_pair)
    from stage_two [of env app, unfolded checked(3), OF this, of bs k n] assms(4) checked(2)
    have l': "l' = (case r of Inl e \<Rightarrow> Returned (Inl e) | Inr hr \<Rightarrow> Handled env bs k hr)" "app_replayByReader app' = ws2" by auto
    have call: "handle_call so ?fh (store, ?rnd, ?now, bs) ws = (r, ws2)" by (rule handle_call_in_stages [OF checked(4) finish])
    show ?thesis
    proof (cases r)
      case (Inl e)
      with call l' checked(1) show ?thesis
        by (simp add: come_to.ended [where hc = "(store, ?rnd, ?now, bs)"] amounts_to_def)
    next
      case (Inr hr)
      with call l' checked(1,3) show ?thesis by (simp add: come_to.handled)
    qed
  next
    case (handled env store rnd now bs hr k)
    let ?hc = "(store, rnd, now, bs)"
    have failed: ?thesis if "l' = Returned (Inl UndefinedBehaviour)" "app' = app"
      using that handled(1,4) by (simp add: come_to.ended [where hc = ?hc] amounts_to_def)
    show ?thesis
    proof (rule server_pointers [of app])
      assume "app_engine app = None \<or> app_store app = None \<or> app_audit app = None"
      with assms(4) handled(2) show ?thesis by (intro failed) (auto simp: with_engine_unset split: if_splits)
    next
      fix hasher fcfg db conn lg
      assume set: "app_engine app = Some (hasher, fcfg)" "app_store app = Some (db, conn)" "app_audit app = Some lg"
      let ?eng = "engine_on env app db lg hasher fcfg"
      obtain res s where late: "after_handler (av_engine env) ?eng (length bs) hr (server_engine_state app conn) = (res, s)"
        by (metis surj_pair)
      show ?thesis
      proof (cases "n = k")
        case False
        with assms(4) handled(2) show ?thesis by (intro failed) simp_all
      next
        case True
        have "same_windows ?ws s" and allow: "\<And>r. res = Inr r \<Longrightarrow> de_allow r \<Longrightarrow> hr_allow hr"
          using after_handler_windows [of ?ws "av_engine env" ?eng "length bs" hr, unfolded keeps_def, rule_format,
              of "server_engine_state app conn"] late by auto
        moreover have "l' = Returned (map_sum id Some res)" "app' = put_back app db conn s"
          using stage_three [OF set late, of k] assms(4) handled(2) True by auto
        moreover have "amounts_to so ?fh bs ws (map_sum id Some res) ?ws ?hc"
          using handled(4) allow by (cases res) (auto simp: amounts_to_def)
        ultimately show ?thesis using handled(1) by (simp add: put_back_def come_to.ended)
      qed
    qed
  qed (use assms(3) in simp)
qed

lemma stage_configured:
  assumes "configured cfg km app" and "call_stage l (n, app) = (l', m, app')"
  shows "configured cfg km app'"
proof -
  note engine = configured_with_engine [OF assms(1)]
  show ?thesis
  proof (cases l)
    case (Begun c)
    then show ?thesis
    proof (cases c)
      case (Frame_Call env bs)
      let ?m = "\<lambda>eng s. case handler_check (engine_handler eng) bs (es_windows s) of
        (checked, ws) \<Rightarrow> (Inr (engine_handler eng, checked), s\<lparr>es_windows := ws\<rparr>)"
      show ?thesis
        using engine [of env ?m] assms(2) Begun Frame_Call
        by (cases "with_engine env ?m app") (auto split: sum.splits prod.splits)
    next
      case (Section env sec)
      then show ?thesis
        using keepsD [OF windows_section [of cfg km "app_replayByReader app" env sec], of app] assms Begun
        by (auto simp: with_windows_def split: prod.splits)
    qed
  next
    case (Checked env bs k fh checked)
    then show ?thesis
      using assms by (auto simp: bindM_apply app_now_def configured_def split: prod.splits sum.splits)
  next
    case (Handled env bs k hr)
    let ?m = "\<lambda>eng. after_handler (av_engine env) eng (length bs) hr"
    show ?thesis
      using engine [of env ?m] assms Handled
      by (cases "with_engine env ?m app") (auto split: if_splits)
  qed (use assms in simp)
qed

interpretation remote_windows: guarded_view "remote_call so" Begun call_stage call_answer EngineMutex
  "\<lambda>s. configured cfg km (snd s)" "\<lambda>s. app_replayByReader (snd s)" elsewhere "come_to so (base_handler cfg km)"
  for so and cfg and km
proof unfold_locales
  show "come_to so (base_handler cfg km) c v (Begun c) v" if "remote_call so EngineMutex c" for c v
    using that by (cases c) (auto simp: remote_call_def takes_mutex_def intro: come_to.begun)
next
  fix s s' :: "nat \<times> AppState" and c v l l'
  assume "configured cfg km (snd s)" and "come_to so (base_handler cfg km) c v l (app_replayByReader (snd s))"
    and "call_answer l = None" and "call_stage l s = (l', s')"
  then show "come_to so (base_handler cfg km) c v l' (app_replayByReader (snd s'))"
    using frame_goes_on [of cfg km "snd s" so c v l "fst s" l' "fst s'" "snd s'"] by simp
next
  show "elsewhere (Begun c)" if "remote_call so mx c" "mx \<noteq> EngineMutex" for mx c
    using that by (cases c) (auto simp: remote_call_def takes_mutex_def elsewhere_def)
next
  fix s s' :: "nat \<times> AppState" and l l'
  assume I: "configured cfg km (snd s)" and l: "elsewhere l" and run: "call_stage l s = (l', s')"
  show "elsewhere l' \<and> app_replayByReader (snd s') = app_replayByReader (snd s)"
  proof (cases "\<exists>env sec. l = Begun (Section env sec)")
    case True
    then obtain env sec where "l = Begun (Section env sec)" by blast
    with run keepsD [OF windows_section [of cfg km "app_replayByReader (snd s)" env sec], of "snd s"] I show ?thesis
      by (cases s) (auto simp: with_windows_def elsewhere_def split: prod.splits)
  next
    case False
    with l have "\<exists>r. l = Returned r" by (auto simp: elsewhere_def split: call_phase.splits engine_call.splits)
    with run l show ?thesis by auto
  qed
next
  fix s s' :: "nat \<times> AppState" and l l'
  assume "configured cfg km (snd s)" and "call_stage l s = (l', s')"
  then show "configured cfg km (snd s')"
    using stage_configured [of cfg km "snd s" l "fst s" l' "fst s'" "snd s'"] by simp
qed

section \<open>Once per number\<close>

text \<open>The calls of the decision endpoint that returned, with their answers, in the order of the mutex.\<close>

definition endpoint_log :: "(engine_call, call_phase, nat \<times> AppState, DecisionResult option result) Threads \<Rightarrow>
    (engine_call \<times> DecisionResult option result) list" where
  "endpoint_log w = map snd (filter (\<lambda>e. fst e = EngineMutex) (th_log w))"

definition opens_door :: "DecisionResult option result \<Rightarrow> bool" where
  "opens_door res \<longleftrightarrow> (case res of Inr (Some r) \<Rightarrow> de_allow r | _ \<Rightarrow> False)"

lemma chain_of_calls:
  assumes "\<And>i. i < n \<Longrightarrow> vs ! Suc i = snd (handle_call so fh (hc i) (vs ! i))" and "i \<le> j" and "j \<le> n"
  shows "vs ! j = handle_calls so fh (map hc [i..<j]) (vs ! i)"
  using assms(2)
proof (induction rule: inc_induct)
  case (step i)
  with assms(1,3) show ?case by (simp add: upt_conv_Cons)
qed simp

lemma endpoint_calls:
  assumes "overlapping (remote_call so) (n, app) w" and "configured cfg km app"
  shows "\<exists>hc vs. hd vs = app_replayByReader app \<and> length vs = Suc (length (endpoint_log w)) \<and>
    (\<forall>i < length (endpoint_log w). \<forall>env bs res. endpoint_log w ! i = (Frame_Call env bs, res) \<longrightarrow>
      amounts_to so (base_handler cfg km) bs (vs ! i) res (vs ! Suc i) (hc i)) \<and>
    (\<forall>i < length (endpoint_log w). \<exists>env bs res. endpoint_log w ! i = (Frame_Call env bs, res))"
proof -
  have log: "remote_windows.guarded_log w = endpoint_log w"
    by (simp add: remote_windows.guarded_log_def endpoint_log_def)
  obtain vs where vs: "remote_windows.chain so cfg km (endpoint_log w) vs" "hd vs = app_replayByReader app"
    using remote_windows.guarded_chain [OF assms(1), of cfg km] assms(2) by (auto simp: log)
  have frame: "\<exists>env bs res. endpoint_log w ! i = (Frame_Call env bs, res)" if "i < length (endpoint_log w)" for i
  proof -
    obtain c res where c: "endpoint_log w ! i = (c, res)" by (metis surj_pair)
    then have "(c, res) \<in> set (remote_windows.guarded_log w)" using that by (metis log nth_mem)
    from remote_windows.guarded_calls [OF assms(1) this] c show ?thesis
      by (cases c) (auto simp: remote_call_def takes_mutex_def)
  qed
  have "\<exists>hc. \<forall>env bs res. endpoint_log w ! i = (Frame_Call env bs, res) \<longrightarrow>
      amounts_to so (base_handler cfg km) bs (vs ! i) res (vs ! Suc i) hc" if i: "i < length (endpoint_log w)" for i
  proof -
    obtain env bs res where e: "endpoint_log w ! i = (Frame_Call env bs, res)" using frame [OF i] by blast
    obtain l where "come_to so (base_handler cfg km) (Frame_Call env bs) (vs ! i) l (vs ! Suc i)" "call_answer l = Some res"
      using vs(1) i e by (auto simp: remote_windows.chain_def)
    then have "come_to so (base_handler cfg km) (Frame_Call env bs) (vs ! i) (Returned res) (vs ! Suc i)"
      by (cases l) auto
    then obtain hc where "amounts_to so (base_handler cfg km) bs (vs ! i) res (vs ! Suc i) hc" by (rule come_to_ended)
    with e show ?thesis by (intro exI [of _ hc]) simp
  qed
  then obtain hc where "\<forall>i < length (endpoint_log w). \<forall>env bs res. endpoint_log w ! i = (Frame_Call env bs, res) \<longrightarrow>
      amounts_to so (base_handler cfg km) bs (vs ! i) res (vs ! Suc i) (hc i)" by metis
  with vs frame show ?thesis by (intro exI [of _ hc] exI [of _ vs]) (auto simp: remote_windows.chain_def)
qed

lemma opened_by:
  assumes "amounts_to so (base_handler cfg km) bs ws res ws' hc" and "opens_door res"
    and "parseFrame bs (fh_maxCtLen (cf_frameHandler cfg)) = Inr f"
  obtains hr where "fst (handle_call so (base_handler cfg km) hc ws) = Inr hr" and "hr_allow hr" and "hr_header hr = fr_header f"
proof -
  obtain store rnd now b where hc: "hc = (store, rnd, now, b)" by (cases hc)
  obtain hr where hr: "b = bs" "fst (handle_call so (base_handler cfg km) hc ws) = Inr hr" "hr_allow hr"
    using assms(1,2) by (auto simp: amounts_to_def opens_door_def hc split: sum.splits option.splits)
  then have run: "fst (handle so rnd now ((base_handler cfg km)\<lparr>fh_store := store\<rparr>) bs ws) = Inr hr" by (simp add: handle_call_def hc)
  have len: "fh_maxCtLen (engine_config cfg) = fh_maxCtLen (cf_frameHandler cfg)" by (simp add: engine_config_def Let_def)
  obtain g pt where g: "accepts so now ((base_handler cfg km)\<lparr>fh_store := store\<rparr>) ws bs g pt" "hr = accepted pt (fr_header g)"
    using run hr(3) by (rule handle_allowD)
  then have "g = f" using assms(3) by (simp add: accepts_def base_handler_def len)
  with g(2) hr(2,3) show thesis by (intro that [of hr]) simp_all
qed

text \<open>
  C24: in remote mode a number opens a door once. Let any threads run any sections of the server at the
  same time: calls of the decision endpoint under \<^verbatim>\<open>engineMutex\<close>, and under \<^verbatim>\<open>m\<close> the administration of
  readers, doors, roles and cards, unquarantine, the preparation of hardware frames, and both sections
  of imports, between any two stages of the endpoint's calls. Start with empty windows and replay
  protection on. If two calls of the endpoint whose frames name the same reader and number return with
  at most a window's size from one to the other, in the order of the mutex, then at most one of them
  answers that the door opens.
\<close>

theorem remote_admits_once:
  assumes "overlapping may_call (n, app) w"
    and calls: "\<And>mx c. may_call mx c \<Longrightarrow> takes_mutex (adm_decisionMode (cf_admin cfg)) mx c \<and>
      (\<forall>env bs. c = Frame_Call env bs \<longrightarrow> en_sodium (av_engine env) = so)"
    and mode: "adm_decisionMode (cf_admin cfg) = ''remote''" and start: "configured cfg km app" "app_replayByReader app = (\<lambda>_. None)"
    and protected: "fh_antiReplayEnabled (cf_frameHandler cfg)"
    and later: "i < j" "j < length (endpoint_log w)" "j - i \<le> unat (window_size (engine_config cfg))"
    and first: "endpoint_log w ! i = (Frame_Call env bs, res)" "parseFrame bs (fh_maxCtLen (cf_frameHandler cfg)) = Inr f"
    and second: "endpoint_log w ! j = (Frame_Call env' bs', res')" "parseFrame bs' (fh_maxCtLen (cf_frameHandler cfg)) = Inr f'"
    and same: "h_reader_id (fr_header f') = h_reader_id (fr_header f)" "h_seq (fr_header f') = h_seq (fr_header f)"
  shows "\<not> (opens_door res \<and> opens_door res')"
proof
  let ?fh = "base_handler cfg km"
  assume opens: "opens_door res \<and> opens_door res'"
  have "overlapping (remote_call so) (n, app) w"
    by (rule threads_mono [OF assms(1)]) (use calls mode in \<open>auto simp: remote_call_def split: engine_call.splits\<close>)
  from endpoint_calls [OF this start(1)] obtain hc vs where vs: "hd vs = app_replayByReader app" "length vs = Suc (length (endpoint_log w))"
    and hc: "\<And>i env bs res. i < length (endpoint_log w) \<Longrightarrow> endpoint_log w ! i = (Frame_Call env bs, res) \<Longrightarrow>
      amounts_to so ?fh bs (vs ! i) res (vs ! Suc i) (hc i)"
    and frames: "\<And>i. i < length (endpoint_log w) \<Longrightarrow> \<exists>env bs res. endpoint_log w ! i = (Frame_Call env bs, res)"
    by blast
  have next_windows: "vs ! Suc i = snd (handle_call so ?fh (hc i) (vs ! i))" if "i < length (endpoint_log w)" for i
    using hc [OF that] frames [OF that] by (auto simp: amounts_to_def)
  note along = chain_of_calls [where n = "length (endpoint_log w)", OF next_windows]
  have i: "i < length (endpoint_log w)" using later by simp
  have "vs ! 0 = (\<lambda>_. None)" using vs start(2) by (cases vs) simp_all
  then have before: "vs ! i = handle_calls so ?fh (map hc [0..<i]) (\<lambda>_. None)" using along [of 0 i] i by simp
  have between: "vs ! j = handle_calls so ?fh (map hc [Suc i..<j]) (snd (handle_call so ?fh (hc i) (vs ! i)))"
    using along [of "Suc i" j] later next_windows [OF i] by simp
  obtain hr where hr: "fst (handle_call so ?fh (hc i) (vs ! i)) = Inr hr" "hr_allow hr" "hr_header hr = fr_header f"
    using opened_by [OF hc [OF i first(1)] _ first(2)] opens by blast
  obtain hr' where hr': "fst (handle_call so ?fh (hc j) (vs ! j)) = Inr hr'" "hr_allow hr'" "hr_header hr' = fr_header f'"
    using opened_by [OF hc [OF later(2) second(1)] _ second(2)] opens by blast
  have "fh_antiReplayEnabled (fh_config ?fh)" and size: "fh_config ?fh = engine_config cfg"
    using protected by (simp_all add: base_handler_def engine_config_def Let_def)
  moreover have "length (map hc [Suc i..<j]) < unat (window_size (fh_config ?fh))" using later size by simp
  ultimately show False
    using no_second_acceptance [OF _ before hr(1,2), of "map hc [Suc i..<j]" "hc j"] hr' hr(3) same by (auto simp: between [symmetric])
qed

text \<open>The witness: the demo server in remote mode admits the card, a reader is enrolled, and the same
  frame comes again.\<close>

definition remote_config :: Config where
  "remote_config = demo_config\<lparr>cf_admin := (cf_admin demo_config)\<lparr>adm_decisionMode := ''remote''\<rparr>\<rparr>"

lemma remote_config_facts:
  "engine_config remote_config = engine_config demo_config" "cf_frameHandler remote_config = default_FrameHandlerConfig"
  "adm_decisionMode (cf_admin remote_config) = ''remote''"
  by (simp_all add: remote_config_def engine_config_def demo_config_def Let_def)

lemma demo_remote_opens:
  obtains app bs f r where "configured remote_config demo_km app" and "app_replayByReader app = (\<lambda>_. None)"
    and "parseFrame bs (fh_maxCtLen (cf_frameHandler remote_config)) = Inr f"
    and "fst (app_run_engine demo_admin_env bs app) = Inr r" and "de_allow r"
proof (rule demo_running_facts)
  fix conn lg hasher
  assume running: "in_order demo_admin_env demo_running demo_db conn lg hasher"
    and cfg: "app_cfg demo_running = demo_config" and km: "app_keyManager demo_running = demo_km"
    and quiet: "\<not> dc_enabled (ad_config (app_anomalyDetector demo_running))" and unused: "app_replayByReader demo_running = (\<lambda>_. None)"
  let ?app = "demo_running\<lparr>app_cfg := remote_config\<rparr>" and ?e = demo_admin_env
  have ok: "in_order ?e ?app demo_db conn lg hasher" using running cfg by (simp add: in_order_def remote_config_facts)
  have payload: "buildPayloadJson (en_json (av_engine ?e)) (hw_uid demo_uid) (hw_action demo_uid) = Inr ''req''"
    by (simp add: buildPayloadJson_def demo_uid_def demo_admin_env_def demo_env_def demo_json_def demo_request_def)
  have reader: "currentKeyVersionForReader SqlOk demo_db (hw_reader_id demo_uid) = Inr 1" by (simp add: demo_uid_def demo_policy)
  have fits: "length ''req'' \<le> unat (fh_maxCtLen (cf_frameHandler (app_cfg ?app)))"
    by (simp add: remote_config_facts default_FrameHandlerConfig_def)
  obtain h bs app where ok': "in_order ?e app demo_db conn lg hasher" and same: "app_cfg app = remote_config" "app_keyManager app = demo_km"
      "app_anomalyDetector app = app_anomalyDetector demo_running" "app_replayByReader app = (\<lambda>_. None)"
    and sealed: "sealed_for (en_sodium (av_engine ?e)) (engine_handler (server_engine ?e app demo_db lg hasher)) h (bytes_of_string ''req'') bs"
    and h: "h_reader_id h = 5" "h_door_id h = 2" "h_key_version h = 1"
    by (rule hw_builds [OF ok reader _ payload fits, of 0]) (simp_all add: km unused demo_uid_def)
  have role: "role_of_card ?e app demo_db 1 ''A1'' ''staff''"
    by (rule demo_card_role) (simp_all add: demo_admin_env_def demo_env_def same remote_config_facts)
  have "\<exists>r app'. app_run_engine ?e bs app = (Inr r, app') \<and> (de_allow r \<longleftrightarrow>
      (fh_enforceReaderDoorBinding (cf_frameHandler (app_cfg app)) \<longrightarrow>
        isReaderAllowedDoor SqlOk demo_db (h_reader_id h) (h_door_id h) = Inr True) \<and>
      hw_action demo_uid = ''open'' \<and> hw_uid demo_uid \<noteq> [] \<and>
      (\<exists>role. role_of_card ?e app demo_db 1 (hw_uid demo_uid) role \<and> isAllowed SqlOk demo_db (h_door_id h) role = Inr True))"
  proof (rule engine_on_built [OF ok' _ _ _ h(3) sealed payload])
    show "\<not> monitor_refuses (av_engine ?e) (server_engine ?e app demo_db lg hasher) (Some (app_anomalyDetector app)) h"
      using quiet by (simp add: monitor_refuses_def same)
    show "timely (fh_maxSkewMs (engine_config (app_cfg app))) (en_clock (av_engine ?e) (app_ticks app)) (h_ts_unix_ms h)"
      by (simp add: same engine_config_def Let_def remote_config_facts default_FrameHandlerConfig_def timely_def)
  qed (simp_all add: h demo_policy same fresh_init)
  moreover have "\<exists>role. role_of_card ?e app demo_db 1 ''A1'' role \<and> isAllowed SqlOk demo_db 2 role = Inr True"
    using role demo_policy by blast
  ultimately obtain r app' where r: "app_run_engine ?e bs app = (Inr r, app')" "de_allow r"
    using h demo_policy by (auto simp: demo_uid_def)
  have spec: "sodium_spec (en_sodium (av_engine ?e))" by (simp add: demo_admin_env_def demo_env_def toy_sodium_spec)
  obtain f where "parseFrame bs (fh_maxCtLen (cf_frameHandler remote_config)) = Inr f"
    using sealed unfolding sealed_for_iff [OF spec]
    by (auto simp: engine_handler_def server_engine_def same engine_config_def Let_def)
  moreover have "configured remote_config demo_km app" using ok' same by (simp add: configured_def in_order_def)
  ultimately show thesis using r same(4) that by simp
qed

theorem remote_admits_once_witness:
  "\<exists>app w bs r res. overlapping (remote_call toy_sodium) (0, app) w \<and>
    map fst (th_log w) = [EngineMutex, M, EngineMutex] \<and>
    endpoint_log w = [(Frame_Call demo_admin_env bs, Inr (Some r)), (Frame_Call demo_admin_env bs, res)] \<and>
    de_allow r \<and> \<not> opens_door res"
proof (rule demo_remote_opens)
  fix app bs f r
  assume app: "configured remote_config demo_km app" "app_replayByReader app = (\<lambda>_. None)"
    and f: "parseFrame bs (fh_maxCtLen (cf_frameHandler remote_config)) = Inr f"
    and r: "fst (app_run_engine demo_admin_env bs app) = Inr r" "de_allow r"
  let ?may = "remote_call toy_sodium" and ?call = "Frame_Call demo_admin_env bs" and ?sec = "Section demo_admin_env (Upsert_Reader 9 1)"
  have may: "?may EngineMutex ?call" "?may M ?sec" by (simp_all add: remote_call_def takes_mutex_def demo_admin_env_def demo_env_def)
  have "server_calls.idle (no_threads (0, app))" by (simp add: server_calls.idle_def no_threads_def)
  from server_calls.alone [where may_call = ?may, OF threads.none this may(1)]
  obtain w1 where w1: "overlapping ?may (0, app) w1" "server_calls.idle w1" "th_log w1 = [(EngineMutex, ?call, Inr (Some r))]"
    using r(1) by (auto simp: no_threads_def split: prod.splits)
  from server_calls.alone [where may_call = ?may, OF w1(1,2) may(2)]
  obtain w2 a where w2: "overlapping ?may (0, app) w2" "server_calls.idle w2"
    "th_log w2 = [(EngineMutex, ?call, Inr (Some r)), (M, ?sec, a)]" using w1(3) by auto
  from server_calls.alone [where may_call = ?may, OF w2(1,2) may(1)]
  obtain w res where w: "overlapping ?may (0, app) w"
    "th_log w = [(EngineMutex, ?call, Inr (Some r)), (M, ?sec, a), (EngineMutex, ?call, res)]" using w2(3) by auto
  have log: "endpoint_log w = [(?call, Inr (Some r)), (?call, res)]" by (simp add: endpoint_log_def w(2))
  have "\<not> (opens_door (Inr (Some r)) \<and> opens_door res)"
    by (rule remote_admits_once [OF w(1) _ _ app, where i = 0 and j = 1 and f = f and f' = f and so = toy_sodium])
      (use f in \<open>simp_all add: log remote_config_facts remote_call_def default_FrameHandlerConfig_def window_size_def
        engine_config_def demo_config_def Let_def split: engine_call.splits\<close>)
  with w log r(2) show ?thesis by (intro exI [of _ app] exI [of _ w] exI [of _ bs] exI [of _ r] exI [of _ res]) (simp add: opens_door_def)
qed

end
