(* ===== verification/Sqlite_Statements.thy ===== *)
theory Sqlite_Statements
  imports Access_Store
begin

text \<open>
  \<^verbatim>\<open>access_storage/src/sqlite_access_store.cpp\<close> once more, one level down: every method call by call
  against SQLite's interface (\<^verbatim>\<open>sqlite_helpers.hpp\<close> included), with statements that are prepared, bound
  by position, stepped, read by column and finalized. A statement that is used after it was finalized
  is undefined behaviour, and one that is never finalized stays. The methods are shown to implement
  those of \<open>Access_Store\<close> and to leave no statement behind, on every path.
\<close>

section \<open>Statements\<close>

datatype sql_value = SqlInt int | SqlText string

text \<open>The statement texts of the store.\<close>

datatype sql =
    InsertCard | InsertDoorRole | SelectRole | SelectAllowed | InsertReader | SelectVersion
  | InsertReaderDoor | SelectReaderDoor | ListReaders | ListReaderDoors | ListDoorsOfReader
  | ListDoorRoles | ListRolesOfDoor | ListCards | DeleteReader_Row | DeleteReaderDoor | DeleteDoorRole | DeleteCard_Row

text \<open>What running one of them does with its parameters: the rows of a query, or the changed tables;
  \<open>None\<close> when a constraint fails. A parameter that is not bound is NULL, which no statement of the
  store runs with.\<close>

definition sql_run :: "sql \<Rightarrow> sql_value list \<Rightarrow> Database \<Rightarrow> (sql_value list list \<times> Database) option" where
  "sql_run q ps d = (case q of
       InsertCard \<Rightarrow> (case ps of [SqlText h, SqlText role] \<Rightarrow>
            Some ([], d\<lparr>db_cards := sql_upsert h role (db_cards d)\<rparr>) | _ \<Rightarrow> None)
     | InsertDoorRole \<Rightarrow> (case ps of [SqlInt dr, SqlText role] \<Rightarrow>
            Some ([], d\<lparr>db_door_roles := sql_insert_ignore (dr, role) () (db_door_roles d)\<rparr>) | _ \<Rightarrow> None)
     | SelectRole \<Rightarrow> (case ps of [SqlText h] \<Rightarrow>
            Some (case map_of (db_cards d) h of None \<Rightarrow> [] | Some role \<Rightarrow> [[SqlText role]], d) | _ \<Rightarrow> None)
     | SelectAllowed \<Rightarrow> (case ps of [SqlInt dr, SqlText role] \<Rightarrow>
            Some (if map_of (db_door_roles d) (dr, role) = None then [] else [[SqlInt 1]], d) | _ \<Rightarrow> None)
     | InsertReader \<Rightarrow> (case ps of [SqlInt r, SqlInt kv] \<Rightarrow>
            Some ([], d\<lparr>db_readers := sql_upsert r kv (db_readers d)\<rparr>) | _ \<Rightarrow> None)
     | SelectVersion \<Rightarrow> (case ps of [SqlInt r] \<Rightarrow>
            Some (case map_of (db_readers d) r of None \<Rightarrow> [] | Some kv \<Rightarrow> [[SqlInt kv]], d) | _ \<Rightarrow> None)
     | InsertReaderDoor \<Rightarrow> (case ps of [SqlInt r, SqlInt dr] \<Rightarrow>
            (if r \<notin> fst ` set (db_readers d) then None
            else Some ([], d\<lparr>db_reader_doors := sql_insert_ignore (r, dr) () (db_reader_doors d)\<rparr>)) | _ \<Rightarrow> None)
     | SelectReaderDoor \<Rightarrow> (case ps of [SqlInt r, SqlInt dr] \<Rightarrow>
            Some (if map_of (db_reader_doors d) (r, dr) = None then [] else [[SqlInt 1]], d) | _ \<Rightarrow> None)
     | ListReaders \<Rightarrow> (case ps of [] \<Rightarrow>
            Some (map (\<lambda>(r, kv). [SqlInt r, SqlInt kv]) (sort_key fst (db_readers d)), d) | _ \<Rightarrow> None)
     | ListReaderDoors \<Rightarrow> (case ps of [] \<Rightarrow>
            Some (map (\<lambda>(r, dr). [SqlInt r, SqlInt dr])
              (sort_key fst (sort_key snd (map fst (db_reader_doors d)))), d) | _ \<Rightarrow> None)
     | ListDoorsOfReader \<Rightarrow> (case ps of [SqlInt r] \<Rightarrow>
            Some (map (\<lambda>(r, dr). [SqlInt r, SqlInt dr])
              (sort_key snd (filter (\<lambda>row. fst row = r) (map fst (db_reader_doors d)))), d) | _ \<Rightarrow> None)
     | ListDoorRoles \<Rightarrow> (case ps of [] \<Rightarrow>
            Some (map (\<lambda>(dr, role). [SqlInt dr, SqlText role])
              (sort_key fst (sort_key snd (map fst (db_door_roles d)))), d) | _ \<Rightarrow> None)
     | ListRolesOfDoor \<Rightarrow> (case ps of [SqlInt dr] \<Rightarrow>
            Some (map (\<lambda>(dr, role). [SqlInt dr, SqlText role])
              (sort_key snd (filter (\<lambda>row. fst row = dr) (map fst (db_door_roles d)))), d) | _ \<Rightarrow> None)
     | ListCards \<Rightarrow> (case ps of [SqlInt limit, SqlInt offset] \<Rightarrow>
            (let ordered = drop (nat offset) (sort_key fst (db_cards d))
            in Some (map (\<lambda>(h, role). [SqlText h, SqlText role])
              (if limit < 0 then ordered else take (nat limit) ordered), d)) | _ \<Rightarrow> None)
     | DeleteReader_Row \<Rightarrow> (case ps of [SqlInt r] \<Rightarrow>
            Some ([], d\<lparr>db_readers := sql_delete (\<lambda>x. x = r) (db_readers d),
              db_reader_doors := sql_delete (\<lambda>(x, _). x = r) (db_reader_doors d)\<rparr>) | _ \<Rightarrow> None)
     | DeleteReaderDoor \<Rightarrow> (case ps of [SqlInt r, SqlInt dr] \<Rightarrow>
            Some ([], d\<lparr>db_reader_doors := sql_delete (\<lambda>k. k = (r, dr)) (db_reader_doors d)\<rparr>) | _ \<Rightarrow> None)
     | DeleteDoorRole \<Rightarrow> (case ps of [SqlInt dr, SqlText role] \<Rightarrow>
            Some ([], d\<lparr>db_door_roles := sql_delete (\<lambda>k. k = (dr, role)) (db_door_roles d)\<rparr>) | _ \<Rightarrow> None)
     | DeleteCard_Row \<Rightarrow> (case ps of [SqlText h] \<Rightarrow>
            Some ([], d\<lparr>db_cards := sql_delete (\<lambda>x. x = h) (db_cards d)\<rparr>) | _ \<Rightarrow> None))"

section \<open>SQLite's interface\<close>

text \<open>A prepared statement: its text, its status, its parameters from the first, the number of steps
  taken, and after the first step the current row and the rows to come.\<close>

record sqlite3_stmt =
  ps_sql :: sql
  ps_status :: sql_status
  ps_params :: "sql_value list"
  ps_steps :: nat
  ps_row :: "sql_value list"
  ps_rows :: "sql_value list list"

record sqlite3 =
  cn_db :: Database
  cn_stmts :: "nat \<Rightarrow> sqlite3_stmt option"
  cn_next :: nat

datatype step_code = SQLITE_ROW | SQLITE_DONE | SQLITE_ERROR

text \<open>\<open>None\<close> is the null pointer that a failing prepare leaves.\<close>

definition sqlite3_prepare_v2 :: "sql_status \<Rightarrow> sql \<Rightarrow> (sqlite3, nat option) prog" where
  "sqlite3_prepare_v2 st q c =
     (if st = PrepareFails then (Inr None, c)
      else (Inr (Some (cn_next c)), c\<lparr>cn_next := Suc (cn_next c), cn_stmts := (cn_stmts c)(cn_next c \<mapsto>
        \<lparr>ps_sql = q, ps_status = st, ps_params = [], ps_steps = 0, ps_row = [], ps_rows = []\<rparr>)\<rparr>))"

definition on_stmt :: "nat \<Rightarrow> (sqlite3_stmt \<Rightarrow> (sqlite3, 'a) prog) \<Rightarrow> (sqlite3, 'a) prog" where
  "on_stmt p f c = (case cn_stmts c p of None \<Rightarrow> (Inl UndefinedBehaviour, c) | Some s \<Rightarrow> f s c)"

text \<open>The store binds its parameters from the first to the last; position \<open>i\<close> is one-based.\<close>

definition sqlite3_bind :: "nat \<Rightarrow> nat \<Rightarrow> sql_value \<Rightarrow> (sqlite3, unit) prog" where
  "sqlite3_bind p i v = on_stmt p (\<lambda>s c. (Inr (), c\<lparr>cn_stmts := (cn_stmts c)(p \<mapsto>
     s\<lparr>ps_params := take (i - 1) (ps_params s) @ [v] @ drop i (ps_params s)\<rparr>)\<rparr>))"

text \<open>A step fails when the status says so; otherwise the first one runs the statement, and each one
  goes to the next row.\<close>

definition stops_at :: "sql_status \<Rightarrow> nat \<Rightarrow> bool" where
  "stops_at st n = (case st of SqlOk \<Rightarrow> False | PrepareFails \<Rightarrow> True | StepFailsAfter m \<Rightarrow> m \<le> n)"

definition sqlite3_step :: "nat \<Rightarrow> (sqlite3, step_code) prog" where
  "sqlite3_step p = on_stmt p (\<lambda>s c.
     if stops_at (ps_status s) (ps_steps s) then (Inr SQLITE_ERROR, c)
     else case (if ps_steps s = 0 then sql_run (ps_sql s) (ps_params s) (cn_db c) else Some (ps_rows s, cn_db c)) of
       None \<Rightarrow> (Inr SQLITE_ERROR, c)
     | Some ([], d) \<Rightarrow> (Inr SQLITE_DONE, c\<lparr>cn_db := d, cn_stmts := (cn_stmts c)(p \<mapsto> s\<lparr>ps_steps := Suc (ps_steps s), ps_rows := []\<rparr>)\<rparr>)
     | Some (row # rows, d) \<Rightarrow> (Inr SQLITE_ROW, c\<lparr>cn_db := d, cn_stmts := (cn_stmts c)(p \<mapsto>
         s\<lparr>ps_steps := Suc (ps_steps s), ps_row := row, ps_rows := rows\<rparr>)\<rparr>))"

text \<open>Columns are read from the current row, integers cut to 32 bits, a text up to its first NUL. The store
  reads every column as what its table holds.\<close>

definition sqlite3_column_int :: "nat \<Rightarrow> nat \<Rightarrow> (sqlite3, int) prog" where
  "sqlite3_column_int p i = on_stmt p (\<lambda>s c. (case ps_row s ! i of SqlInt v \<Rightarrow> Inr (column_int v) | SqlText _ \<Rightarrow> Inl UndefinedBehaviour, c))"

definition sqlite3_column_text :: "nat \<Rightarrow> nat \<Rightarrow> (sqlite3, string) prog" where
  "sqlite3_column_text p i = on_stmt p (\<lambda>s c. (case ps_row s ! i of SqlText t \<Rightarrow> Inr (c_str t) | SqlInt _ \<Rightarrow> Inl UndefinedBehaviour, c))"

definition sqlite3_finalize :: "nat \<Rightarrow> (sqlite3, unit) prog" where
  "sqlite3_finalize p = on_stmt p (\<lambda>s c. (Inr (), c\<lparr>cn_stmts := (cn_stmts c)(p := None)\<rparr>))"

section \<open>The helpers\<close>

definition prepareOrThrow :: "sql_status \<Rightarrow> sql \<Rightarrow> (sqlite3, nat) prog" where
  "prepareOrThrow st q = bindM (sqlite3_prepare_v2 st q) (\<lambda>p. case p of
     None \<Rightarrow> throwM (RuntimeError ''sqlite prepare failed'') | Some p \<Rightarrow> returnM p)"

text \<open>\<^verbatim>\<open>StmtGuard\<close>: its destructor finalizes the statement when the block is left, by a return or by an
  exception. A destructor that meets undefined behaviour has the last word.\<close>

definition StmtGuard :: "nat \<Rightarrow> (sqlite3, 'a) prog \<Rightarrow> (sqlite3, 'a) prog" where
  "StmtGuard p body c = (case body c of (r, c) \<Rightarrow>
     (case sqlite3_finalize p c of (Inl e, c) \<Rightarrow> (Inl e, c) | (Inr _, c) \<Rightarrow> (r, c)))"

text \<open>\<^verbatim>\<open>while (sqlite3_step(p) == SQLITE_ROW)\<close>, collecting what \<open>read\<close> makes of each row. Every round
  takes one of the rows that are left.\<close>

definition rows_left :: "nat \<Rightarrow> sqlite3 \<Rightarrow> nat" where
  "rows_left p c = (case cn_stmts c p of None \<Rightarrow> 0 | Some s \<Rightarrow>
     if ps_steps s = 0 then (case sql_run (ps_sql s) (ps_params s) (cn_db c) of None \<Rightarrow> 0 | Some (rows, _) \<Rightarrow> length rows)
     else length (ps_rows s))"

lemma step_takes_row: "sqlite3_step p c = (Inr SQLITE_ROW, c') \<Longrightarrow> rows_left p c' < rows_left p c"
  by (auto simp: sqlite3_step_def on_stmt_def rows_left_def split: option.splits if_splits list.splits)

function while_rows :: "nat \<Rightarrow> (sqlite3 \<Rightarrow> 'r result) \<Rightarrow> (sqlite3, 'r list) prog" where
  "while_rows p read c =
     (case sqlite3_step p c of
        (Inl e, c) \<Rightarrow> (Inl e, c)
      | (Inr code, c) \<Rightarrow>
          if code \<noteq> SQLITE_ROW then (Inr [], c)
          else (case read c of
            Inl e \<Rightarrow> (Inl e, c)
          | Inr x \<Rightarrow> (case while_rows p read c of (Inl e, c) \<Rightarrow> (Inl e, c) | (Inr xs, c) \<Rightarrow> (Inr (x # xs), c))))"
  by pat_completeness auto
termination
  by (relation "measure (\<lambda>(p, read, c). rows_left p c)") (auto dest: step_takes_row [OF sym])

declare while_rows.simps [simp del]

section \<open>The methods\<close>

text \<open>The end the writing methods of the first kind share: step, finalize, throw or return.\<close>

definition step_finalize :: "nat \<Rightarrow> string \<Rightarrow> (sqlite3, unit) prog" where
  "step_finalize p failed = bindM (sqlite3_step p) (\<lambda>rc.
     if rc \<noteq> SQLITE_DONE then bindM (sqlite3_finalize p) (\<lambda>_. throwM (RuntimeError failed))
     else sqlite3_finalize p)"

definition prepare_or_fail :: "sql_status \<Rightarrow> sql \<Rightarrow> (nat \<Rightarrow> (sqlite3, 'a) prog) \<Rightarrow> (sqlite3, 'a) prog" where
  "prepare_or_fail st q body = bindM (sqlite3_prepare_v2 st q) (\<lambda>p. case p of
     None \<Rightarrow> throwM (RuntimeError ''prepare failed'') | Some p \<Rightarrow> body p)"

definition upsertCardHmac_stmt :: "sql_status \<Rightarrow> string \<Rightarrow> string \<Rightarrow> (sqlite3, unit) prog" where
  "upsertCardHmac_stmt st cardHmacHex role = prepare_or_fail st InsertCard (\<lambda>p.
     bindM (sqlite3_bind p 1 (SqlText (c_str cardHmacHex))) (\<lambda>_.
     bindM (sqlite3_bind p 2 (SqlText (c_str role))) (\<lambda>_.
     step_finalize p ''upsertCardHmac failed'')))"

definition allowRole_stmt :: "sql_status \<Rightarrow> u32 \<Rightarrow> string \<Rightarrow> (sqlite3, unit) prog" where
  "allowRole_stmt st doorId role = prepare_or_fail st InsertDoorRole (\<lambda>p.
     bindM (sqlite3_bind p 1 (SqlInt (bind_int doorId))) (\<lambda>_.
     bindM (sqlite3_bind p 2 (SqlText (c_str role))) (\<lambda>_.
     step_finalize p ''allowRole failed'')))"

definition roleForCardHmac_stmt :: "sql_status \<Rightarrow> string \<Rightarrow> (sqlite3, string option) prog" where
  "roleForCardHmac_stmt st cardHmacHex = prepare_or_fail st SelectRole (\<lambda>p.
     bindM (sqlite3_bind p 1 (SqlText cardHmacHex)) (\<lambda>_.
     bindM (sqlite3_step p) (\<lambda>rc.
       if rc = SQLITE_ROW
       then bindM (sqlite3_column_text p 0) (\<lambda>role. bindM (sqlite3_finalize p) (\<lambda>_. returnM (Some role)))
       else bindM (sqlite3_finalize p) (\<lambda>_. returnM None))))"

definition isAllowed_stmt :: "sql_status \<Rightarrow> u32 \<Rightarrow> string \<Rightarrow> (sqlite3, bool) prog" where
  "isAllowed_stmt st doorId role = prepare_or_fail st SelectAllowed (\<lambda>p.
     bindM (sqlite3_bind p 1 (SqlInt (bind_int doorId))) (\<lambda>_.
     bindM (sqlite3_bind p 2 (SqlText role)) (\<lambda>_.
     bindM (sqlite3_step p) (\<lambda>rc. bindM (sqlite3_finalize p) (\<lambda>_. returnM (rc = SQLITE_ROW))))))"

definition upsertReader_stmt :: "sql_status \<Rightarrow> u32 \<Rightarrow> u32 \<Rightarrow> (sqlite3, unit) prog" where
  "upsertReader_stmt st reader_id current_key_version = prepare_or_fail st InsertReader (\<lambda>p.
     bindM (sqlite3_bind p 1 (SqlInt (bind_int reader_id))) (\<lambda>_.
     bindM (sqlite3_bind p 2 (SqlInt (bind_int current_key_version))) (\<lambda>_.
     step_finalize p ''upsert_reader failed'')))"

definition currentKeyVersionForReader_stmt :: "sql_status \<Rightarrow> u32 \<Rightarrow> (sqlite3, u32) prog" where
  "currentKeyVersionForReader_stmt st reader_id = prepare_or_fail st SelectVersion (\<lambda>p.
     bindM (sqlite3_bind p 1 (SqlInt (bind_int reader_id))) (\<lambda>_.
     bindM (sqlite3_step p) (\<lambda>rc.
       if rc = SQLITE_ROW
       then bindM (sqlite3_column_int p 0) (\<lambda>v. bindM (sqlite3_finalize p) (\<lambda>_.
              if v \<le> 0 then returnM 0 else returnM (column_u32 v)))
       else bindM (sqlite3_finalize p) (\<lambda>_. returnM 0))))"

definition allowDoorForReader_stmt :: "sql_status \<Rightarrow> u32 \<Rightarrow> u32 \<Rightarrow> (sqlite3, unit) prog" where
  "allowDoorForReader_stmt st reader_id door_id = prepare_or_fail st InsertReaderDoor (\<lambda>p.
     bindM (sqlite3_bind p 1 (SqlInt (bind_int reader_id))) (\<lambda>_.
     bindM (sqlite3_bind p 2 (SqlInt (bind_int door_id))) (\<lambda>_.
     step_finalize p ''allowDoorForReader failed'')))"

definition isReaderAllowedDoor_stmt :: "sql_status \<Rightarrow> u32 \<Rightarrow> u32 \<Rightarrow> (sqlite3, bool) prog" where
  "isReaderAllowedDoor_stmt st reader_id door_id = prepare_or_fail st SelectReaderDoor (\<lambda>p.
     bindM (sqlite3_bind p 1 (SqlInt (bind_int reader_id))) (\<lambda>_.
     bindM (sqlite3_bind p 2 (SqlInt (bind_int door_id))) (\<lambda>_.
     bindM (sqlite3_step p) (\<lambda>rc. bindM (sqlite3_finalize p) (\<lambda>_. returnM (rc = SQLITE_ROW))))))"

text \<open>The listing methods and the deleting ones use the guard.\<close>

definition read_columns ::
    "(sqlite3, 'a) prog \<Rightarrow> (sqlite3, 'b) prog \<Rightarrow> ('a \<Rightarrow> 'b \<Rightarrow> 'r) \<Rightarrow> sqlite3 \<Rightarrow> 'r result" where
  "read_columns first second row c = fst (bindM first (\<lambda>x. bindM second (\<lambda>y. returnM (row x y))) c)"

definition listReaders_stmt :: "sql_status \<Rightarrow> (sqlite3, ReaderRow list) prog" where
  "listReaders_stmt st = bindM (prepareOrThrow st ListReaders) (\<lambda>p. StmtGuard p
     (while_rows p (read_columns (sqlite3_column_int p 0) (sqlite3_column_int p 1)
        (\<lambda>r v. \<lparr>rr_reader_id = column_u32 r, rr_current_key_version = column_u32 v\<rparr>))))"

definition listReaderDoors_stmt :: "sql_status \<Rightarrow> u32 \<Rightarrow> (sqlite3, ReaderDoorRow list) prog" where
  "listReaderDoors_stmt st reader_id =
     bindM (prepareOrThrow st (if reader_id = 0 then ListReaderDoors else ListDoorsOfReader)) (\<lambda>p. StmtGuard p
     (bindM (if reader_id \<noteq> 0 then sqlite3_bind p 1 (SqlInt (bind_int reader_id)) else returnM ()) (\<lambda>_.
      while_rows p (read_columns (sqlite3_column_int p 0) (sqlite3_column_int p 1)
        (\<lambda>r dr. \<lparr>rd_reader_id = column_u32 r, rd_door_id = column_u32 dr\<rparr>)))))"

definition listDoorRoles_stmt :: "sql_status \<Rightarrow> u32 \<Rightarrow> (sqlite3, DoorRoleRow list) prog" where
  "listDoorRoles_stmt st door_id =
     bindM (prepareOrThrow st (if door_id = 0 then ListDoorRoles else ListRolesOfDoor)) (\<lambda>p. StmtGuard p
     (bindM (if door_id \<noteq> 0 then sqlite3_bind p 1 (SqlInt (bind_int door_id)) else returnM ()) (\<lambda>_.
      while_rows p (read_columns (sqlite3_column_int p 0) (sqlite3_column_text p 1)
        (\<lambda>dr role. \<lparr>dr_door_id = column_u32 dr, dr_role = role\<rparr>)))))"

definition listCards_stmt :: "sql_status \<Rightarrow> u64 \<Rightarrow> u64 \<Rightarrow> (sqlite3, CardRow list) prog" where
  "listCards_stmt st limit offset = bindM (prepareOrThrow st ListCards) (\<lambda>p. StmtGuard p
     (bindM (sqlite3_bind p 1 (SqlInt (sint limit))) (\<lambda>_.
      bindM (sqlite3_bind p 2 (SqlInt (sint offset))) (\<lambda>_.
      while_rows p (read_columns (sqlite3_column_text p 0) (sqlite3_column_text p 1)
        (\<lambda>h role. \<lparr>cr_card_hmac = h, cr_role = role\<rparr>))))))"

definition step_or_fail :: "nat \<Rightarrow> string \<Rightarrow> (sqlite3, unit) prog" where
  "step_or_fail p failed = bindM (sqlite3_step p) (\<lambda>rc.
     if rc \<noteq> SQLITE_DONE then throwM (RuntimeError failed) else returnM ())"

definition deleteReader_stmt :: "sql_status \<Rightarrow> u32 \<Rightarrow> (sqlite3, unit) prog" where
  "deleteReader_stmt st reader_id = bindM (prepareOrThrow st DeleteReader_Row) (\<lambda>p. StmtGuard p
     (bindM (sqlite3_bind p 1 (SqlInt (bind_int reader_id))) (\<lambda>_. step_or_fail p ''deleteReader failed'')))"

definition revokeDoorForReader_stmt :: "sql_status \<Rightarrow> u32 \<Rightarrow> u32 \<Rightarrow> (sqlite3, unit) prog" where
  "revokeDoorForReader_stmt st reader_id door_id = bindM (prepareOrThrow st DeleteReaderDoor) (\<lambda>p. StmtGuard p
     (bindM (sqlite3_bind p 1 (SqlInt (bind_int reader_id))) (\<lambda>_.
      bindM (sqlite3_bind p 2 (SqlInt (bind_int door_id))) (\<lambda>_. step_or_fail p ''revokeDoorForReader failed''))))"

definition revokeRole_stmt :: "sql_status \<Rightarrow> u32 \<Rightarrow> string \<Rightarrow> (sqlite3, unit) prog" where
  "revokeRole_stmt st door_id role = bindM (prepareOrThrow st DeleteDoorRole) (\<lambda>p. StmtGuard p
     (bindM (sqlite3_bind p 1 (SqlInt (bind_int door_id))) (\<lambda>_.
      bindM (sqlite3_bind p 2 (SqlText role)) (\<lambda>_. step_or_fail p ''revokeRole failed''))))"

definition deleteCardHmac_stmt :: "sql_status \<Rightarrow> string \<Rightarrow> (sqlite3, unit) prog" where
  "deleteCardHmac_stmt st card_hmac = bindM (prepareOrThrow st DeleteCard_Row) (\<lambda>p. StmtGuard p
     (bindM (sqlite3_bind p 1 (SqlText card_hmac)) (\<lambda>_. step_or_fail p ''deleteCardHmac failed'')))"

section \<open>Refinement\<close>

text \<open>The connection gives out handles that are not in use.\<close>

definition conn_ok :: "sqlite3 \<Rightarrow> bool" where
  "conn_ok c \<longleftrightarrow> (\<forall>p \<ge> cn_next c. cn_stmts c p = None)"

text \<open>\<open>m\<close> does on a connection what \<open>a\<close> does on the tables, and no statement comes or goes.\<close>

definition implements :: "(sqlite3, 'r) prog \<Rightarrow> (Database, 'r) prog \<Rightarrow> bool" where
  "implements m a \<longleftrightarrow> (\<forall>c. conn_ok c \<longrightarrow>
     fst (m c) = fst (a (cn_db c)) \<and> cn_db (snd (m c)) = snd (a (cn_db c)) \<and>
     cn_stmts (snd (m c)) = cn_stmts c \<and> cn_next c \<le> cn_next (snd (m c)))"

definition queries :: "(Database \<Rightarrow> 'r result) \<Rightarrow> (Database, 'r) prog" where
  "queries f d = (f d, d)"

lemma unused: "conn_ok c \<Longrightarrow> (cn_stmts c)(cn_next c := None) = cn_stmts c"
  by (auto simp: conn_ok_def)

lemmas stmt_simps = bindM_apply sqlite3_prepare_v2_def prepare_or_fail_def prepareOrThrow_def StmtGuard_def on_stmt_def
  sqlite3_bind_def sqlite3_step_def sqlite3_finalize_def sqlite3_column_int_def sqlite3_column_text_def
  step_finalize_def step_or_fail_def stops_at_def sql_run_def

lemma writes_implemented:
  "implements (upsertCardHmac_stmt st h role) (upsertCardHmac st h role)"
  "implements (allowRole_stmt st dr role) (allowRole st dr role)"
  "implements (upsertReader_stmt st r kv) (upsertReader st r kv)"
  "implements (allowDoorForReader_stmt st r dr) (allowDoorForReader st r dr)"
  unfolding implements_def upsertCardHmac_stmt_def upsertCardHmac_def allowRole_stmt_def allowRole_def
    upsertReader_stmt_def upsertReader_def allowDoorForReader_stmt_def allowDoorForReader_def
  by (cases st; auto simp: stmt_simps unused)+

lemma queries_implemented:
  "implements (roleForCardHmac_stmt st h) (queries (\<lambda>d. roleForCardHmac st d h))"
  "implements (isAllowed_stmt st dr role) (queries (\<lambda>d. isAllowed st d dr role))"
  "implements (currentKeyVersionForReader_stmt st r) (queries (\<lambda>d. currentKeyVersionForReader st d r))"
  "implements (isReaderAllowedDoor_stmt st r dr) (queries (\<lambda>d. isReaderAllowedDoor st d r dr))"
  unfolding implements_def queries_def roleForCardHmac_stmt_def roleForCardHmac_def isAllowed_stmt_def isAllowed_def
    currentKeyVersionForReader_stmt_def currentKeyVersionForReader_def isReaderAllowedDoor_stmt_def isReaderAllowedDoor_def
  by (cases st; auto simp: stmt_simps unused column_int_eq split: option.splits)+

lemma deletes_implemented:
  "implements (deleteReader_stmt st r) (deleteReader st r)"
  "implements (revokeDoorForReader_stmt st r dr) (revokeDoorForReader st r dr)"
  "implements (revokeRole_stmt st dr role) (revokeRole st dr role)"
  "implements (deleteCardHmac_stmt st h) (deleteCardHmac st h)"
  unfolding implements_def deleteReader_stmt_def deleteReader_def revokeDoorForReader_stmt_def revokeDoorForReader_def
    revokeRole_stmt_def revokeRole_def deleteCardHmac_stmt_def deleteCardHmac_def
  by (cases st; auto simp: stmt_simps unused)+

text \<open>The loop reads the rows the status lets through, and leaves the tables and the other statements.\<close>

lemma while_rows_reads:
  assumes "cn_stmts c p = Some s" and "ps_status s \<noteq> PrepareFails"
    and "(if ps_steps s = 0 then sql_run (ps_sql s) (ps_params s) (cn_db c) else Some (ps_rows s, cn_db c)) = Some (map g xs, cn_db c)"
    and "\<And>c s x. cn_stmts c p = Some s \<Longrightarrow> ps_row s = g x \<Longrightarrow> read c = Inr (h x)"
  shows "\<exists>s'. while_rows p read c =
    (Inr (map h (case ps_status s of StepFailsAfter m \<Rightarrow> take (m - ps_steps s) xs | _ \<Rightarrow> xs)),
     c\<lparr>cn_stmts := (cn_stmts c)(p \<mapsto> s')\<rparr>)"
  using assms
proof (induction xs arbitrary: c s)
  case Nil
  have same: "c = c\<lparr>cn_stmts := (cn_stmts c)(p \<mapsto> s)\<rparr>"
    using Nil(1) by (cases c) (auto simp: fun_upd_idem)
  show ?case
  proof (cases "stops_at (ps_status s) (ps_steps s)")
    case True
    then have "while_rows p read c = (Inr [], c)"
      using Nil by (simp add: while_rows.simps [of p read c] sqlite3_step_def on_stmt_def)
    then show ?thesis
      by (intro exI [of _ s]) (cases "ps_status s"; simp add: same [symmetric] del: fun_upd_apply)
  next
    case False
    with Nil show ?thesis
      by (intro exI [of _ "s\<lparr>ps_steps := Suc (ps_steps s), ps_rows := []\<rparr>"])
        (simp add: while_rows.simps [of p read c] sqlite3_step_def on_stmt_def split: sql_status.split del: fun_upd_apply)
  qed
next
  case (Cons x xs)
  have same: "c = c\<lparr>cn_stmts := (cn_stmts c)(p \<mapsto> s)\<rparr>"
    using Cons.prems(1) by (cases c) (auto simp: fun_upd_idem)
  show ?case
  proof (cases "stops_at (ps_status s) (ps_steps s)")
    case True
    then have "while_rows p read c = (Inr [], c)"
      using Cons.prems by (simp add: while_rows.simps [of p read c] sqlite3_step_def on_stmt_def)
    with True Cons.prems(2) show ?thesis
      by (intro exI [of _ s]) (cases "ps_status s"; simp add: stops_at_def same [symmetric] del: fun_upd_apply)
  next
    case False
    let ?s = "s\<lparr>ps_steps := Suc (ps_steps s), ps_row := g x, ps_rows := map g xs\<rparr>"
    let ?c = "c\<lparr>cn_stmts := (cn_stmts c)(p \<mapsto> ?s)\<rparr>"
    have step: "sqlite3_step p c = (Inr SQLITE_ROW, ?c)"
      using Cons.prems(1,3) False by (simp add: sqlite3_step_def on_stmt_def)
    have read: "read ?c = Inr (h x)" using Cons.prems(4) [of ?c ?s x] by simp
    have "\<exists>s'. while_rows p read ?c =
        (Inr (map h (case ps_status ?s of StepFailsAfter m \<Rightarrow> take (m - ps_steps ?s) xs | _ \<Rightarrow> xs)),
         ?c\<lparr>cn_stmts := (cn_stmts ?c)(p \<mapsto> s')\<rparr>)"
      by (rule Cons.IH) (use Cons.prems(2,4) in auto)
    then obtain s' where rest: "while_rows p read ?c =
        (Inr (map h (case ps_status s of StepFailsAfter m \<Rightarrow> take (m - Suc (ps_steps s)) xs | _ \<Rightarrow> xs)),
         c\<lparr>cn_stmts := (cn_stmts c)(p \<mapsto> s')\<rparr>)" by (auto cong: sql_status.case_cong)
    have "take (m - ps_steps s) (x # xs) = x # take (m - Suc (ps_steps s)) xs" if "ps_steps s < m" for m
      using that by (simp add: take_Cons' )
    then show ?thesis
      using False by (intro exI [of _ s'])
        (simp add: while_rows.simps [of p read c] step read rest stops_at_def split: sql_status.splits del: fun_upd_apply)
  qed
qed

lemma list_implemented:
  assumes bound: "\<And>p c s. cn_stmts c p = Some s \<Longrightarrow> ps_params s = [] \<Longrightarrow>
      binds p c = (Inr (), c\<lparr>cn_stmts := (cn_stmts c)(p \<mapsto> s\<lparr>ps_params := params\<rparr>)\<rparr>)"
    and run: "\<And>d. sql_run q params d = Some (map g (rows d), d)"
    and read: "\<And>p c s x. cn_stmts c p = Some s \<Longrightarrow> ps_row s = g x \<Longrightarrow> read p c = Inr (h x)"
  shows "implements (bindM (prepareOrThrow st q) (\<lambda>p. StmtGuard p (bindM (binds p) (\<lambda>_. while_rows p (read p)))))
    (queries (\<lambda>d. if st = PrepareFails then Inl (RuntimeError ''sqlite prepare failed'') else Inr (map h (rows_read st (rows d)))))"
  unfolding implements_def queries_def
proof (intro allI impI)
  fix c assume "conn_ok c"
  note keep = unused [OF this]
  let ?m = "bindM (prepareOrThrow st q) (\<lambda>p. StmtGuard p (bindM (binds p) (\<lambda>_. while_rows p (read p)))) c"
    and ?r = "if st = PrepareFails then Inl (RuntimeError ''sqlite prepare failed'') else Inr (map h (rows_read st (rows (cn_db c))))"
  show "fst ?m = fst (?r, cn_db c) \<and> cn_db (snd ?m) = snd (?r, cn_db c) \<and> cn_stmts (snd ?m) = cn_stmts c \<and> cn_next c \<le> cn_next (snd ?m)"
  proof (cases "st = PrepareFails")
    case False
    let ?p = "cn_next c"
    let ?s = "\<lparr>ps_sql = q, ps_status = st, ps_params = [], ps_steps = 0, ps_row = [], ps_rows = []\<rparr>"
    let ?c1 = "c\<lparr>cn_next := Suc ?p, cn_stmts := (cn_stmts c)(?p \<mapsto> ?s)\<rparr>"
    let ?c2 = "?c1\<lparr>cn_stmts := (cn_stmts ?c1)(?p \<mapsto> ?s\<lparr>ps_params := params\<rparr>)\<rparr>"
    have binds: "binds ?p ?c1 = (Inr (), ?c2)" by (rule bound) simp_all
    have "\<exists>s'. while_rows ?p (read ?p) ?c2 =
      (Inr (map h (case ps_status (?s\<lparr>ps_params := params\<rparr>) of
         StepFailsAfter m \<Rightarrow> take (m - ps_steps (?s\<lparr>ps_params := params\<rparr>)) (rows (cn_db c)) | _ \<Rightarrow> rows (cn_db c))),
       ?c2\<lparr>cn_stmts := (cn_stmts ?c2)(?p \<mapsto> s')\<rparr>)"
      by (rule while_rows_reads [where g = g]) (simp_all add: False run read)
    then obtain s' where "while_rows ?p (read ?p) ?c2 = (Inr (map h (rows_read st (rows (cn_db c)))), ?c2\<lparr>cn_stmts := (cn_stmts ?c2)(?p \<mapsto> s')\<rparr>)"
      by (cases st) auto
    with binds False keep show ?thesis
      by (simp add: bindM_apply prepareOrThrow_def sqlite3_prepare_v2_def StmtGuard_def sqlite3_finalize_def on_stmt_def)
  qed (simp add: bindM_apply prepareOrThrow_def sqlite3_prepare_v2_def)
qed

lemma column_reads:
  "cn_stmts c p = Some s \<Longrightarrow> ps_row s = [SqlInt a, SqlInt b] \<Longrightarrow>
    read_columns (sqlite3_column_int p 0) (sqlite3_column_int p (Suc 0)) row c = Inr (row (column_int a) (column_int b))"
  "cn_stmts c p = Some s \<Longrightarrow> ps_row s = [SqlInt a, SqlText t] \<Longrightarrow>
    read_columns (sqlite3_column_int p 0) (sqlite3_column_text p (Suc 0)) row' c = Inr (row' (column_int a) (c_str t))"
  "cn_stmts c p = Some s \<Longrightarrow> ps_row s = [SqlText t, SqlText u] \<Longrightarrow>
    read_columns (sqlite3_column_text p 0) (sqlite3_column_text p (Suc 0)) row'' c = Inr (row'' (c_str t) (c_str u))"
  by (simp_all add: read_columns_def sqlite3_column_int_def sqlite3_column_text_def on_stmt_def bindM_apply)

lemma column_u32_int [simp]: "column_u32 (column_int v) = column_u32 v"
  by (simp add: column_int_eq)

lemma no_binds: "(\<lambda>p. StmtGuard p (m p)) = (\<lambda>p. StmtGuard p (bindM (returnM ()) (\<lambda>_. m p)))"
  by (intro ext) (simp add: StmtGuard_def bindM_apply)

lemma no_params: "cn_stmts c p = Some s \<Longrightarrow> ps_params s = [] \<Longrightarrow> c\<lparr>cn_stmts := (cn_stmts c)(p \<mapsto> s\<lparr>ps_params := []\<rparr>)\<rparr> = c"
  by (cases c; cases s) (auto simp: fun_upd_idem)

lemma list_query_cong:
  "implements m (queries f) \<Longrightarrow> (\<And>d. f d = f' d) \<Longrightarrow> implements m (queries f')"
  by (simp add: implements_def queries_def)

lemma readers_implemented: "implements (listReaders_stmt st) (queries (listReaders st))"
  unfolding listReaders_stmt_def
  by (subst no_binds, rule list_query_cong,
      rule list_implemented [where params = "[]" and g = "\<lambda>(r, v). [SqlInt r, SqlInt v]" and rows = "\<lambda>d. sort_key fst (db_readers d)"
        and h = "\<lambda>(r, v). \<lparr>rr_reader_id = column_u32 r, rr_current_key_version = column_u32 v\<rparr>"])
    (auto simp: no_params sql_run_def column_reads listReaders_def)

lemma reader_doors_implemented: "implements (listReaderDoors_stmt st r) (queries (\<lambda>d. listReaderDoors st d r))"
  unfolding listReaderDoors_stmt_def
  by (rule list_query_cong,
      rule list_implemented [where params = "if r = 0 then [] else [SqlInt (bind_int r)]" and g = "\<lambda>(r, dr). [SqlInt r, SqlInt dr]"
        and rows = "\<lambda>d. if r = 0 then sort_key fst (sort_key snd (map fst (db_reader_doors d)))
            else sort_key snd (filter (\<lambda>row. fst row = bind_int r) (map fst (db_reader_doors d)))"
        and h = "\<lambda>(r, dr). \<lparr>rd_reader_id = column_u32 r, rd_door_id = column_u32 dr\<rparr>"])
    (auto simp: no_params sql_run_def column_reads listReaderDoors_def sqlite3_bind_def on_stmt_def)

lemma door_roles_implemented: "implements (listDoorRoles_stmt st dr) (queries (\<lambda>d. listDoorRoles st d dr))"
  unfolding listDoorRoles_stmt_def
  by (rule list_query_cong,
      rule list_implemented [where params = "if dr = 0 then [] else [SqlInt (bind_int dr)]" and g = "\<lambda>(dr, role). [SqlInt dr, SqlText role]"
        and rows = "\<lambda>d. if dr = 0 then sort_key fst (sort_key snd (map fst (db_door_roles d)))
            else sort_key snd (filter (\<lambda>row. fst row = bind_int dr) (map fst (db_door_roles d)))"
        and h = "\<lambda>(dr, role). \<lparr>dr_door_id = column_u32 dr, dr_role = c_str role\<rparr>"])
    (auto simp: no_params sql_run_def column_reads listDoorRoles_def sqlite3_bind_def on_stmt_def)

lemma cards_implemented: "implements (listCards_stmt st limit offset) (queries (\<lambda>d. listCards st d limit offset))"
proof -
  have binds: "StmtGuard p (bindM (sqlite3_bind p 1 a) (\<lambda>_. bindM (sqlite3_bind p 2 b) (\<lambda>_. m)))
      = StmtGuard p (bindM (bindM (sqlite3_bind p 1 a) (\<lambda>_. sqlite3_bind p 2 b)) (\<lambda>_. m))" for p a b and m :: "(sqlite3, 'a) prog"
    by (rule ext) (simp add: StmtGuard_def bindM_apply split: prod.splits sum.splits)
  show ?thesis
    unfolding listCards_stmt_def binds
    by (rule list_query_cong,
        rule list_implemented [where params = "[SqlInt (sint limit), SqlInt (sint offset)]" and g = "\<lambda>(h, role). [SqlText h, SqlText role]"
          and rows = "\<lambda>d. if sint limit < 0 then drop (nat (sint offset)) (sort_key fst (db_cards d))
              else take (nat (sint limit)) (drop (nat (sint offset)) (sort_key fst (db_cards d)))"
          and h = "\<lambda>(h, role). \<lparr>cr_card_hmac = c_str h, cr_role = c_str role\<rparr>"])
      (auto simp: bindM_apply sql_run_def column_reads listCards_def sqlite3_bind_def on_stmt_def)
qed

section \<open>Properties\<close>

lemma implementsD:
  assumes "implements m a" and "conn_ok c"
  shows "fst (m c) = fst (a (cn_db c))" "cn_db (snd (m c)) = snd (a (cn_db c))"
    "cn_stmts (snd (m c)) = cn_stmts c" "conn_ok (snd (m c))"
  using assms by (auto simp: implements_def conn_ok_def)

definition fresh_connection :: "Database \<Rightarrow> sqlite3" where
  "fresh_connection d = \<lparr>cn_db = d, cn_stmts = Map.empty, cn_next = 0\<rparr>"

fun exec_op_stmt :: "sql_status \<Rightarrow> store_op \<Rightarrow> (sqlite3, unit) prog" where
  "exec_op_stmt st (UpsertCard h role) = upsertCardHmac_stmt st h role"
| "exec_op_stmt st (DeleteCard h) = deleteCardHmac_stmt st h"
| "exec_op_stmt st (AllowRole dr role) = allowRole_stmt st dr role"
| "exec_op_stmt st (RevokeRole dr role) = revokeRole_stmt st dr role"
| "exec_op_stmt st (UpsertReader r kv) = upsertReader_stmt st r kv"
| "exec_op_stmt st (DeleteReader r) = deleteReader_stmt st r"
| "exec_op_stmt st (AllowDoor r dr) = allowDoorForReader_stmt st r dr"
| "exec_op_stmt st (RevokeDoor r dr) = revokeDoorForReader_stmt st r dr"

fun exec_ops_stmt :: "(sql_status \<times> store_op) list \<Rightarrow> sqlite3 \<Rightarrow> sqlite3" where
  "exec_ops_stmt [] c = c"
| "exec_ops_stmt ((st, p) # ps) c = exec_ops_stmt ps (snd (exec_op_stmt st p c))"

lemmas store_implemented = writes_implemented queries_implemented deletes_implemented readers_implemented
  reader_doors_implemented door_roles_implemented cards_implemented

lemma op_implemented: "implements (exec_op_stmt st p) (exec_op st p)"
  by (cases p) (simp_all add: store_implemented)

lemma ops_implemented:
  "conn_ok c \<Longrightarrow> cn_db (exec_ops_stmt ps c) = exec_ops ps (cn_db c) \<and>
    cn_stmts (exec_ops_stmt ps c) = cn_stmts c \<and> conn_ok (exec_ops_stmt ps c)"
  by (induction ps c rule: exec_ops_stmt.induct) (simp_all add: implementsD [OF op_implemented])

text \<open>On the connection \<open>c\<close>, \<open>m\<close> answers \<open>r\<close> and leaves tables and statements as they are.\<close>

definition answers :: "sqlite3 \<Rightarrow> (sqlite3, 'r) prog \<Rightarrow> 'r result \<Rightarrow> bool" where
  "answers c m r \<longleftrightarrow> fst (m c) = r \<and> cn_db (snd (m c)) = cn_db c \<and> cn_stmts (snd (m c)) = cn_stmts c"

lemma answersI: "implements m (queries f) \<Longrightarrow> conn_ok c \<Longrightarrow> f (cn_db c) = r \<Longrightarrow> answers c m r"
  using implementsD [of m "queries f" c] by (simp add: answers_def queries_def)

text \<open>
  C29: the store's methods, call by call against SQLite's interface, implement the store over tables.
  After any administrative methods on a connection, some of which fail when a statement is prepared or
  stepped, the tables are those of the operations of the table model; every statement that was
  prepared has been finalized and none was used after that. One more method then returns or throws
  what it does on the tables, and each of the eight queries answers what it answers on the tables,
  its failures included, and again leaves no statement.
\<close>

theorem statements_implement_store:
  "let c = exec_ops_stmt ps (fresh_connection d); d' = exec_ops ps d
   in cn_db c = d' \<and> cn_stmts c = Map.empty
    \<and> fst (exec_op_stmt st p c) = fst (exec_op st p d')
    \<and> answers c (roleForCardHmac_stmt st h) (roleForCardHmac st d' h)
    \<and> answers c (isAllowed_stmt st dr role) (isAllowed st d' dr role)
    \<and> answers c (currentKeyVersionForReader_stmt st r) (currentKeyVersionForReader st d' r)
    \<and> answers c (isReaderAllowedDoor_stmt st r dr) (isReaderAllowedDoor st d' r dr)
    \<and> answers c (listReaders_stmt st) (listReaders st d')
    \<and> answers c (listReaderDoors_stmt st r) (listReaderDoors st d' r)
    \<and> answers c (listDoorRoles_stmt st dr) (listDoorRoles st d' dr)
    \<and> answers c (listCards_stmt st limit offset) (listCards st d' limit offset)"
proof -
  have ok: "conn_ok (fresh_connection d)"
    by (simp add: conn_ok_def fresh_connection_def)
  have c: "cn_db (exec_ops_stmt ps (fresh_connection d)) = exec_ops ps d"
    "cn_stmts (exec_ops_stmt ps (fresh_connection d)) = Map.empty" "conn_ok (exec_ops_stmt ps (fresh_connection d))"
    using ops_implemented [OF ok, of ps] by (simp_all add: fresh_connection_def)
  show ?thesis
    unfolding Let_def by (intro conjI answersI [OF _ c(3)])
      (simp_all add: c implementsD(1) [OF op_implemented c(3)] store_implemented)
qed

end
