(* ===== verification/Store_Opening.thy ===== *)
theory Store_Opening
  imports Access_Store
begin

text \<open>
  Opening the store: the constructor and destructor of \<^verbatim>\<open>SqliteAccessStore\<close> and \<^verbatim>\<open>initSchema\<close>
  (\<^verbatim>\<open>access_storage/src/sqlite_access_store.cpp\<close>), statement by statement over a database file that
  holds some of the four tables, with \<^verbatim>\<open>execOrThrow\<close> (\<^verbatim>\<open>sqlite_helpers.hpp\<close>) and its failures.
\<close>

section \<open>The file and the connection\<close>

record store_file =
  sf_cards :: "(string \<times> string) list option"
  sf_door_roles :: "((int \<times> string) \<times> unit) list option"
  sf_readers :: "(int \<times> int) list option"
  sf_reader_doors :: "((int \<times> int) \<times> unit) list option"

text \<open>The process: the file, the settings of the connection, and the handles it has not closed.\<close>

record sqlite_process =
  sp_file :: store_file
  sp_wal :: bool
  sp_busy_timeout :: nat
  sp_foreign_keys :: bool
  sp_handles :: nat

datatype exec_sql = PragmaJournalWal | PragmaBusyTimeout | PragmaForeignKeys
  | CreateCards | CreateDoorRoles | CreateReaders | CreateReaderDoors

definition if_not_exists :: "'t list option \<Rightarrow> 't list option" where
  "if_not_exists table = (case table of None \<Rightarrow> Some [] | Some rows \<Rightarrow> Some rows)"

fun exec_run :: "exec_sql \<Rightarrow> sqlite_process \<Rightarrow> sqlite_process" where
  "exec_run PragmaJournalWal s = s\<lparr>sp_wal := True\<rparr>"
| "exec_run PragmaBusyTimeout s = s\<lparr>sp_busy_timeout := 5000\<rparr>"
| "exec_run PragmaForeignKeys s = s\<lparr>sp_foreign_keys := True\<rparr>"
| "exec_run CreateCards s = s\<lparr>sp_file := (sp_file s)\<lparr>sf_cards := if_not_exists (sf_cards (sp_file s))\<rparr>\<rparr>"
| "exec_run CreateDoorRoles s = s\<lparr>sp_file := (sp_file s)\<lparr>sf_door_roles := if_not_exists (sf_door_roles (sp_file s))\<rparr>\<rparr>"
| "exec_run CreateReaders s = s\<lparr>sp_file := (sp_file s)\<lparr>sf_readers := if_not_exists (sf_readers (sp_file s))\<rparr>\<rparr>"
| "exec_run CreateReaderDoors s = s\<lparr>sp_file := (sp_file s)\<lparr>sf_reader_doors := if_not_exists (sf_reader_doors (sp_file s))\<rparr>\<rparr>"

section \<open>The code\<close>

text \<open>How a statement ends: \<open>None\<close> well, else with SQLite's message, which may be the null pointer.\<close>

type_synonym exec_status = "exec_sql \<Rightarrow> string option option"

definition execOrThrow :: "exec_status \<Rightarrow> exec_sql \<Rightarrow> (sqlite_process, unit) prog" where
  "execOrThrow st q s = (case st q of
     Some err \<Rightarrow> (Inl (RuntimeError (case err of Some msg \<Rightarrow> msg | None \<Rightarrow> ''sqlite error'')), s)
   | None \<Rightarrow> (Inr (), exec_run q s))"

text \<open>\<^verbatim>\<open>sqlite3_open\<close> makes a handle whether or not it succeeds, with the settings of a new
  connection. The journal mode stays with the file.\<close>

definition sqlite3_open :: "bool \<Rightarrow> (sqlite_process, bool) prog" where
  "sqlite3_open opens s = (Inr opens, s\<lparr>sp_busy_timeout := 0, sp_foreign_keys := False, sp_handles := Suc (sp_handles s)\<rparr>)"

definition SqliteAccessStore_open :: "bool \<Rightarrow> exec_status \<Rightarrow> (sqlite_process, unit) prog" where
  "SqliteAccessStore_open opens st =
     bindM (sqlite3_open opens) (\<lambda>ok.
       if \<not> ok then throwM (RuntimeError ''sqlite3_open failed'')
       else bindM (execOrThrow st PragmaJournalWal) (\<lambda>_.
            bindM (execOrThrow st PragmaBusyTimeout) (\<lambda>_.
            execOrThrow st PragmaForeignKeys)))"

text \<open>The destructor, which runs only for a store whose constructor returned.\<close>

definition SqliteAccessStore_close :: "sqlite_process \<Rightarrow> sqlite_process" where
  "SqliteAccessStore_close s = s\<lparr>sp_handles := sp_handles s - 1\<rparr>"

definition initSchema_exec :: "exec_status \<Rightarrow> (sqlite_process, unit) prog" where
  "initSchema_exec st =
     bindM (execOrThrow st CreateCards) (\<lambda>_.
     bindM (execOrThrow st CreateDoorRoles) (\<lambda>_.
     bindM (execOrThrow st CreateReaders) (\<lambda>_.
     execOrThrow st CreateReaderDoors)))"

section \<open>What a file holds\<close>

definition whole_database :: "store_file \<Rightarrow> Database option" where
  "whole_database f = (case (sf_cards f, sf_door_roles f, sf_readers f, sf_reader_doors f) of
     (Some cs, Some drs, Some rs, Some rds) \<Rightarrow>
       Some \<lparr>db_cards = cs, db_door_roles = drs, db_readers = rs, db_reader_doors = rds\<rparr>
   | _ \<Rightarrow> None)"

definition rows_of :: "'t list option \<Rightarrow> 't list" where
  "rows_of table = (case table of None \<Rightarrow> [] | Some rows \<Rightarrow> rows)"

text \<open>The rows of the tables that are there.\<close>

definition file_rows :: "store_file \<Rightarrow> Database" where
  "file_rows f = \<lparr>db_cards = rows_of (sf_cards f), db_door_roles = rows_of (sf_door_roles f),
     db_readers = rows_of (sf_readers f), db_reader_doors = rows_of (sf_reader_doors f)\<rparr>"

definition no_tables :: store_file where
  "no_tables = \<lparr>sf_cards = None, sf_door_roles = None, sf_readers = None, sf_reader_doors = None\<rparr>"

lemma rows_of_simps [simp]: "rows_of (Some rows) = rows" "if_not_exists t = Some (rows_of t)"
  by (simp_all add: rows_of_def if_not_exists_def split: option.splits)

lemmas opening_simps = SqliteAccessStore_open_def sqlite3_open_def initSchema_exec_def execOrThrow_def bindM_apply

section \<open>Results\<close>

text \<open>A statement creates or sets, and never touches rows, so any number of calls that failed at any
  statement leave the rows of the file.\<close>

lemma schema_keeps_rows: "file_rows (sp_file (snd (initSchema_exec st s))) = file_rows (sp_file s)"
  by (simp add: opening_simps file_rows_def split: option.splits)

text \<open>The first call that returns completes the schema: all four tables are there with the rows the file
  had, which is what the table model calls \<open>initSchema\<close>.\<close>

theorem schema_completed:
  assumes "fst (initSchema_exec st s) = Inr ()"
  shows "whole_database (sp_file (snd (initSchema_exec st s))) = Some (file_rows (sp_file s))"
  using assms
  by (auto simp: opening_simps whole_database_def file_rows_def split: option.splits)

theorem schema_is_initSchema:
  assumes "fst (initSchema_exec st s) = Inr ()"
    and "whole_database (sp_file s) = Some d \<or> sp_file s = no_tables"
  shows "whole_database (sp_file (snd (initSchema_exec st s))) = Some (initSchema (whole_database (sp_file s)))"
  using assms(2) schema_completed [OF assms(1)]
  by (auto simp: whole_database_def file_rows_def initSchema_def no_tables_def rows_of_def split: option.splits)

text \<open>A constructor that returns has one handle more and foreign keys switched on; without them the
  deletion of a reader would leave its bindings.\<close>

theorem store_opened:
  assumes "fst (SqliteAccessStore_open opens st s) = Inr ()"
  shows "snd (SqliteAccessStore_open opens st s) =
      s\<lparr>sp_wal := True, sp_busy_timeout := 5000, sp_foreign_keys := True, sp_handles := Suc (sp_handles s)\<rparr>"
    and "sp_handles (SqliteAccessStore_close (snd (SqliteAccessStore_open opens st s))) = sp_handles s"
  using assms by (auto simp: opening_simps throwM_def SqliteAccessStore_close_def split: if_splits option.splits)

text \<open>A constructor that throws has made a handle as well. The object does not exist, so its destructor
  does not run, and nothing else holds the handle: it is never closed.\<close>

theorem failed_open_leaks:
  assumes "fst (SqliteAccessStore_open opens st s) = Inl e"
  shows "sp_handles (snd (SqliteAccessStore_open opens st s)) = Suc (sp_handles s)"
  using assms by (auto simp: opening_simps throwM_def split: if_splits option.splits)

lemma failed_open_leaks_witness:
  "let s = \<lparr>sp_file = no_tables, sp_wal = False, sp_busy_timeout = 0, sp_foreign_keys = False, sp_handles = 0\<rparr>;
       locked = (\<lambda>q. if q = PragmaJournalWal then Some (Some ''database is locked'') else None)
   in fst (SqliteAccessStore_open True locked s) = Inl (RuntimeError ''database is locked'')
    \<and> sp_handles (snd (SqliteAccessStore_open True locked s)) = 1"
  by (simp add: opening_simps Let_def)

end
